theory Spec2Isabelle
  imports Complex_Main
begin

section \<open>Data model (types.ts)\<close>

text \<open>
  The simulation engine of \<^verbatim>\<open>services/VoxelEngine.ts\<close> works on JavaScript
  numbers. The engine part of this development reads them as real numbers, and NaN and
  the infinities are outside of it. The arithmetic of the Dismantling tick and of the
  colour matching is the exact one. The easing step of the Rebuilding tick, where the
  rounding of the numbers decides whether a voxel ever arrives, rounds every operation to
  a double. The JSON export and import, where NaN and the infinities decide what the
  code does, have a number type of their own further down.

  Field names carry a prefix (\<open>sv_\<close> for SimulationVoxel, \<open>vd_\<close> for VoxelData,
  \<open>rt_\<close> for RebuildTarget, \<open>c_\<close> for THREE.Color), since the source uses
  \<open>x\<close>, \<open>y\<close>, \<open>z\<close> in all of them.
\<close>

datatype AppState = STABLE | DISMANTLING | REBUILDING

text \<open>THREE.Color: three channels, each a float between 0 and 1.\<close>

record Color =
  c_r :: real
  c_g :: real
  c_b :: real

text \<open>VoxelData: a position and a packed 24-bit colour such as 0xFF0000.\<close>

record VoxelData =
  vd_x :: real
  vd_y :: real
  vd_z :: real
  vd_color :: nat

record SimulationVoxel =
  sv_id :: nat
  sv_x :: real
  sv_y :: real
  sv_z :: real
  sv_color :: Color
  sv_vx :: real
  sv_vy :: real
  sv_vz :: real
  sv_rx :: real
  sv_ry :: real
  sv_rz :: real
  sv_rvx :: real
  sv_rvy :: real
  sv_rvz :: real

text \<open>RebuildTarget: \<open>isRubble\<close> is optional in the source; absent reads as false.\<close>

record RebuildTarget =
  rt_x :: real
  rt_y :: real
  rt_z :: real
  rt_delay :: real
  rt_isRubble :: bool

text \<open>
  The module \<^verbatim>\<open>utils/voxelConstants\<close> (CONFIG and COLORS) is not among the
  sources. The three constants the engine reads from it are a parameter of every
  function that uses them.
\<close>

record Constants =
  FLOOR_Y :: real
  COLORS_GREEN :: nat
  COLORS_WOOD :: nat

text \<open>
  The mutable fields of the class VoxelEngine that the simulation reads and writes. The
  scene, the renderer and the callbacks \<open>onStateChange\<close> and \<open>onCountChange\<close>, which
  only report the new state and the voxel count to the user interface, are left out.
\<close>

record Engine =
  voxels :: "SimulationVoxel list"
  rebuildTargets :: "RebuildTarget list"
  rebuildStartTime :: real
  state :: AppState

section \<open>Dismantling: gravity and floor collision (updatePhysics, first branch)\<close>

text \<open>The body of the forEach callback, statement by statement.\<close>

definition dismantleVoxel :: "Constants \<Rightarrow> SimulationVoxel \<Rightarrow> SimulationVoxel" where
  "dismantleVoxel k v =
     (let v1 = v\<lparr>sv_vy := sv_vy v - 0.025\<rparr>;
          v2 = v1\<lparr>sv_x := sv_x v1 + sv_vx v1, sv_y := sv_y v1 + sv_vy v1, sv_z := sv_z v1 + sv_vz v1\<rparr>;
          v3 = v2\<lparr>sv_rx := sv_rx v2 + sv_rvx v2, sv_ry := sv_ry v2 + sv_rvy v2,
                  sv_rz := sv_rz v2 + sv_rvz v2\<rparr>
      in if sv_y v3 < FLOOR_Y k + 0.5
         then v3\<lparr>sv_y := FLOOR_Y k + 0.5,
                 sv_vy := sv_vy v3 * (- 0.5),
                 sv_vx := sv_vx v3 * 0.9, sv_vz := sv_vz v3 * 0.9,
                 sv_rvx := sv_rvx v3 * 0.8, sv_rvy := sv_rvy v3 * 0.8, sv_rvz := sv_rvz v3 * 0.8\<rparr>
         else v3)"

definition dismantleTick :: "Constants \<Rightarrow> Engine \<Rightarrow> Engine" where
  "dismantleTick k e = e\<lparr>voxels := map (dismantleVoxel k) (voxels e)\<rparr>"

section \<open>Rebuild: greedy colour matching (getColorDist, rebuild)\<close>

text \<open>
  \<^verbatim>\<open>new THREE.Color(hex)\<close> of the three.js library (not part of the repository),
  as it works from release 152 on with its colour management switched on, which is the
  default: the packed value is an sRGB colour, each of its three bytes is divided by 255
  and converted by \<open>SRGBToLinear\<close>, and the channels a THREE.Color stores are the
  linear ones.
\<close>

definition SRGBToLinear :: "real \<Rightarrow> real" where
  "SRGBToLinear c =
     (if c < 0.04045 then c * 0.0773993808 else (c * 0.9478672986 + 0.0521327014) powr 2.4)"

definition hexColor :: "nat \<Rightarrow> Color" where
  "hexColor hex =
     \<lparr>c_r = SRGBToLinear (real ((hex div 65536) mod 256) / 255),
      c_g = SRGBToLinear (real ((hex div 256) mod 256) / 255),
      c_b = SRGBToLinear (real (hex mod 256) / 255)\<rparr>"

definition getColorDist :: "Color \<Rightarrow> nat \<Rightarrow> real" where
  "getColorDist c1 hex2 =
     (let c2 = hexColor hex2;
          r = (c_r c1 - c_r c2) * 0.3;
          g = (c_g c1 - c_g c2) * 0.59;
          b = (c_b c1 - c_b c2) * 0.11
      in sqrt (r * r + g * g + b * b))"

text \<open>An entry of the local array \<open>available\<close>.\<close>

record Available =
  av_index :: nat
  av_color :: Color
  av_taken :: bool

text \<open>The three constants of the loop body, lines 252 to 254.\<close>

definition isLeafOrWood :: "Color \<Rightarrow> bool" where
  "isLeafOrWood c = (c_g c > 0.4 \<or> (c_r c < 0.25 \<and> c_b c < 0.25))"

definition targetIsGreen :: "Constants \<Rightarrow> VoxelData \<Rightarrow> bool" where
  "targetIsGreen k target = (vd_color target = COLORS_GREEN k \<or> vd_color target = COLORS_WOOD k)"

definition penalty :: "Constants \<Rightarrow> Available \<Rightarrow> VoxelData \<Rightarrow> real" where
  "penalty k a target = (if isLeafOrWood (av_color a) \<and> \<not> targetIsGreen k target then 100 else 0)"

text \<open>
  The inner \<open>for\<close> loop over \<open>available\<close>. The list argument is the part of the
  array from index \<open>i\<close> on; \<open>bestIdx\<close> is \<open>None\<close> where the source holds -1.
  The loop returns where the source leaves it: at the end of the array or at the
  \<open>break\<close>.
\<close>

fun scan :: "Constants \<Rightarrow> VoxelData \<Rightarrow> Available list \<Rightarrow> nat \<Rightarrow> real \<Rightarrow> nat option \<Rightarrow> nat option" where
  "scan k target [] i bestDist bestIdx = bestIdx"
| "scan k target (a # rest) i bestDist bestIdx =
     (if av_taken a then scan k target rest (i + 1) bestDist bestIdx
      else let d = getColorDist (av_color a) (vd_color target);
               p = penalty k a target
           in if d + p < bestDist
              then (if d < 0.01 then Some i
                    else scan k target rest (i + 1) (d + p) (Some i))
              else scan k target rest (i + 1) bestDist bestIdx)"

text \<open>The same loop without the \<open>break\<close>: the scan over all entries that the
  specification compares the source's loop with.\<close>

fun scanFull :: "Constants \<Rightarrow> VoxelData \<Rightarrow> Available list \<Rightarrow> nat \<Rightarrow> real \<Rightarrow> nat option \<Rightarrow> nat option" where
  "scanFull k target [] i bestDist bestIdx = bestIdx"
| "scanFull k target (a # rest) i bestDist bestIdx =
     (if av_taken a then scanFull k target rest (i + 1) bestDist bestIdx
      else let d = getColorDist (av_color a) (vd_color target);
               p = penalty k a target
           in if d + p < bestDist
              then scanFull k target rest (i + 1) (d + p) (Some i)
              else scanFull k target rest (i + 1) bestDist bestIdx)"

text \<open>The assignment recorded for a target whose scan found a voxel.\<close>

definition targetAssignment :: "Constants \<Rightarrow> VoxelData \<Rightarrow> RebuildTarget" where
  "targetAssignment k target =
     (let h = max 0 ((vd_y target - FLOOR_Y k) / 15)
      in \<lparr>rt_x = vd_x target, rt_y = vd_y target, rt_z = vd_z target,
          rt_delay = h * 800, rt_isRubble = False\<rparr>)"

text \<open>
  The body of \<open>targetModel.forEach\<close>: the state is the pair of the arrays
  \<open>available\<close> and \<open>mappings\<close> (\<open>None\<close> is the \<open>null\<close> the array is filled with).
\<close>

definition matchTarget ::
  "Constants \<Rightarrow> Available list \<times> RebuildTarget option list \<Rightarrow> VoxelData
     \<Rightarrow> Available list \<times> RebuildTarget option list" where
  "matchTarget k s target =
     (case s of (available, mappings) \<Rightarrow>
        (case scan k target available 0 9999 None of
           None \<Rightarrow> (available, mappings)
         | Some bestIdx \<Rightarrow>
             (available[bestIdx := (available ! bestIdx)\<lparr>av_taken := True\<rparr>],
              mappings[av_index (available ! bestIdx) := Some (targetAssignment k target)])))"

definition initialPool :: "SimulationVoxel list \<Rightarrow> Available list \<times> RebuildTarget option list" where
  "initialPool vs =
     (map (\<lambda>(v, i). \<lparr>av_index = i, av_color = sv_color v, av_taken = False\<rparr>)
          (zip vs [0..<length vs]),
      replicate (length vs) None)"

definition matchTargets ::
  "Constants \<Rightarrow> SimulationVoxel list \<Rightarrow> VoxelData list
     \<Rightarrow> Available list \<times> RebuildTarget option list" where
  "matchTargets k vs targetModel = foldl (matchTarget k) (initialPool vs) targetModel"

text \<open>Step 4 of rebuild: every voxel without a mapping becomes rubble where it lies.\<close>

definition rubbleOf :: "SimulationVoxel \<Rightarrow> RebuildTarget" where
  "rubbleOf v = \<lparr>rt_x = sv_x v, rt_y = sv_y v, rt_z = sv_z v, rt_delay = 0, rt_isRubble = True\<rparr>"

definition fillRubble :: "SimulationVoxel list \<Rightarrow> RebuildTarget option list \<Rightarrow> RebuildTarget list" where
  "fillRubble vs mappings =
     map (\<lambda>(v, m). case m of None \<Rightarrow> rubbleOf v | Some t \<Rightarrow> t) (zip vs mappings)"

text \<open>\<open>rebuild\<close>; the argument \<open>now\<close> is the value of \<open>Date.now()\<close>.\<close>

definition rebuild :: "Constants \<Rightarrow> real \<Rightarrow> VoxelData list \<Rightarrow> Engine \<Rightarrow> Engine" where
  "rebuild k now targetModel e =
     (if state e = REBUILDING then e
      else e\<lparr>rebuildTargets := fillRubble (voxels e) (snd (matchTargets k (voxels e) targetModel)),
             rebuildStartTime := now,
             state := REBUILDING\<rparr>)"

section \<open>Rebuilding: eased motion towards the targets (updatePhysics, second branch)\<close>

text \<open>
  JavaScript's numbers are the IEEE 754 doubles, and every arithmetic operation returns the
  double nearest to the exact result, a tie going to the double with the even significand.
  Around a real \<open>x\<close> with \<open>2\<^sup>e \<le> \<bar>x\<bar> < 2\<^sup>e\<^sup>+\<^sup>1\<close> the doubles are the multiples of
  \<open>2\<^sup>e\<^sup>-\<^sup>5\<^sup>2\<close>, and below \<open>2\<^sup>-\<^sup>1\<^sup>0\<^sup>2\<^sup>2\<close> the multiples of \<open>2\<^sup>-\<^sup>1\<^sup>0\<^sup>7\<^sup>4\<close>;
  \<open>ulp x\<close> is that spacing and \<open>toDouble x\<close> the nearest double. A result beyond the
  largest double, which the program gets as Infinity, is outside the model. The square
  \<open>d ** 2\<close> is taken as the correctly rounded product.
\<close>

definition roundHalfEven :: "real \<Rightarrow> int" where
  "roundHalfEven y =
     (let f = \<lfloor>y\<rfloor>
      in if y - of_int f < 1 / 2 then f
         else if 1 / 2 < y - of_int f then f + 1
         else if even f then f else f + 1)"

definition ulp :: "real \<Rightarrow> real" where
  "ulp x = 2 powr (of_int (max \<lfloor>log 2 \<bar>x\<bar>\<rfloor> (- 1022)) - 52)"

definition toDouble :: "real \<Rightarrow> real" where
  "toDouble x = (if x = 0 then 0 else of_int (roundHalfEven (x / ulp x)) * ulp x)"

definition dadd :: "real \<Rightarrow> real \<Rightarrow> real" where
  "dadd a b = toDouble (a + b)"

definition dsub :: "real \<Rightarrow> real \<Rightarrow> real" where
  "dsub a b = toDouble (a - b)"

definition dmul :: "real \<Rightarrow> real \<Rightarrow> real" where
  "dmul a b = toDouble (a * b)"

definition dsquare :: "real \<Rightarrow> real" where
  "dsquare a = toDouble (a * a)"

text \<open>
  The body of the forEach callback for one voxel and its target. The boolean is
  \<open>False\<close> where the callback sets \<open>allDone = false\<close>. The literals \<open>0.12\<close> and
  \<open>0.01\<close> are the doubles nearest to these decimals.
\<close>

definition animateVoxel :: "real \<Rightarrow> RebuildTarget \<Rightarrow> SimulationVoxel \<Rightarrow> SimulationVoxel \<times> bool" where
  "animateVoxel elapsed t v =
     (if rt_isRubble t then (v, True)
      else if elapsed < rt_delay t then (v, False)
      else let speed = toDouble 0.12;
               v1 = v\<lparr>sv_x := dadd (sv_x v) (dmul (dsub (rt_x t) (sv_x v)) speed),
                      sv_y := dadd (sv_y v) (dmul (dsub (rt_y t) (sv_y v)) speed),
                      sv_z := dadd (sv_z v) (dmul (dsub (rt_z t) (sv_z v)) speed)\<rparr>;
               v2 = v1\<lparr>sv_rx := dadd (sv_rx v1) (dmul (dsub 0 (sv_rx v1)) speed),
                       sv_ry := dadd (sv_ry v1) (dmul (dsub 0 (sv_ry v1)) speed),
                       sv_rz := dadd (sv_rz v1) (dmul (dsub 0 (sv_rz v1)) speed)\<rparr>
           in if dadd (dadd (dsquare (dsub (rt_x t) (sv_x v2))) (dsquare (dsub (rt_y t) (sv_y v2))))
                      (dsquare (dsub (rt_z t) (sv_z v2))) > toDouble 0.01
              then (v2, False)
              else (v2\<lparr>sv_x := rt_x t, sv_y := rt_y t, sv_z := rt_z t,
                       sv_rx := 0, sv_ry := 0, sv_rz := 0\<rparr>, True))"

text \<open>
  The forEach over the voxels reads \<open>rebuildTargets[i]\<close>; where that array is
  shorter than the voxel array, reading a field of \<open>undefined\<close> throws.
\<close>

datatype error = TypeError | NotAnArray

fun animateAll ::
  "real \<Rightarrow> RebuildTarget list \<Rightarrow> SimulationVoxel list \<Rightarrow> error + (SimulationVoxel list \<times> bool)" where
  "animateAll elapsed ts [] = Inr ([], True)"
| "animateAll elapsed [] (v # vs) = Inl TypeError"
| "animateAll elapsed (t # ts) (v # vs) =
     (case animateVoxel elapsed t v of (v', ok) \<Rightarrow>
        (case animateAll elapsed ts vs of
           Inl err \<Rightarrow> Inl err
         | Inr (vs', allDone) \<Rightarrow> Inr (v' # vs', ok \<and> allDone)))"

text \<open>\<open>updatePhysics\<close>, one tick; \<open>now\<close> is the value of \<open>Date.now()\<close>.\<close>

definition updatePhysics :: "Constants \<Rightarrow> real \<Rightarrow> Engine \<Rightarrow> error + Engine" where
  "updatePhysics k now e =
     (if state e = DISMANTLING then Inr (dismantleTick k e)
      else if state e = REBUILDING then
        (let elapsed = now - rebuildStartTime e
         in case animateAll elapsed (rebuildTargets e) (voxels e) of
              Inl err \<Rightarrow> Inl err
            | Inr (vs, allDone) \<Rightarrow>
                Inr (e\<lparr>voxels := vs, state := (if allDone then STABLE else state e)\<rparr>))
      else Inr e)"

text \<open>A sequence of ticks of the frame loop, one value of \<open>Date.now()\<close> per tick.\<close>

fun runTicks :: "Constants \<Rightarrow> real list \<Rightarrow> Engine \<Rightarrow> error + Engine" where
  "runTicks k [] e = Inr e"
| "runTicks k (now # nows) e =
     (case updatePhysics k now e of Inl err \<Rightarrow> Inl err | Inr e' \<Rightarrow> runTicks k nows e')"

section \<open>Loading a model (loadInitialModel, createVoxels)\<close>

text \<open>
  The arithmetic of THREE.Color that \<open>createVoxels\<close> and \<open>getJsonData\<close> call,
  written after the three.js library: \<open>getHSL\<close>, \<open>setHSL\<close> with its helper
  \<open>hue2rgb\<close> and \<open>offsetHSL\<close>, which work on the stored (linear) channels, and
  \<open>getHex\<close>, which converts the channels back by \<open>LinearToSRGB\<close> before it packs
  them.
\<close>

definition clamp :: "real \<Rightarrow> real \<Rightarrow> real \<Rightarrow> real" where
  "clamp v lo hi = max lo (min hi v)"

definition getHSL :: "Color \<Rightarrow> real \<times> real \<times> real" where
  "getHSL c =
     (let r = c_r c; g = c_g c; b = c_b c;
          mx = max (max r g) b; mn = min (min r g) b;
          lightness = (mn + mx) / 2
      in if mn = mx then (0, 0, lightness)
         else let delta = mx - mn;
                  saturation = (if lightness \<le> 0.5 then delta / (mx + mn) else delta / (2 - mx - mn));
                  hue = (if mx = r then (g - b) / delta + (if g < b then 6 else 0)
                         else if mx = g then (b - r) / delta + 2
                         else (r - g) / delta + 4)
              in (hue / 6, saturation, lightness))"

definition hue2rgb :: "real \<Rightarrow> real \<Rightarrow> real \<Rightarrow> real" where
  "hue2rgb p q t0 =
     (let t1 = (if t0 < 0 then t0 + 1 else t0);
          t = (if t1 > 1 then t1 - 1 else t1)
      in if t < 1 / 6 then p + (q - p) * 6 * t
         else if t < 1 / 2 then q
         else if t < 2 / 3 then p + (q - p) * 6 * (2 / 3 - t)
         else p)"

definition setHSL :: "real \<Rightarrow> real \<Rightarrow> real \<Rightarrow> Color" where
  "setHSL h0 s0 l0 =
     (let h = h0 - of_int \<lfloor>h0\<rfloor>; s = clamp s0 0 1; l = clamp l0 0 1
      in if s = 0 then \<lparr>c_r = l, c_g = l, c_b = l\<rparr>
         else let p = (if l \<le> 0.5 then l * (1 + s) else l + s - l * s);
                  q = 2 * l - p
              in \<lparr>c_r = hue2rgb q p (h + 1 / 3), c_g = hue2rgb q p h, c_b = hue2rgb q p (h - 1 / 3)\<rparr>)"

definition offsetHSL :: "Color \<Rightarrow> real \<Rightarrow> real \<Rightarrow> real \<Rightarrow> Color" where
  "offsetHSL c h s l = (case getHSL c of (h0, s0, l0) \<Rightarrow> setHSL (h0 + h) (s0 + s) (l0 + l))"

text \<open>\<open>Math.round\<close> rounds to the nearest integer, a half upwards.\<close>

definition Math_round :: "real \<Rightarrow> int" where
  "Math_round v = \<lfloor>v + 1 / 2\<rfloor>"

definition LinearToSRGB :: "real \<Rightarrow> real" where
  "LinearToSRGB c = (if c < 0.0031308 then c * 12.92 else 1.055 * (c powr 0.41666) - 0.055)"

definition getHex :: "Color \<Rightarrow> nat" where
  "getHex c =
     nat (Math_round (clamp (LinearToSRGB (c_r c) * 255) 0 255)) * 65536
     + nat (Math_round (clamp (LinearToSRGB (c_g c) * 255) 0 255)) * 256
     + nat (Math_round (clamp (LinearToSRGB (c_b c) * 255) 0 255))"

text \<open>
  \<open>createVoxels\<close>: \<open>rnd i\<close> is the value \<open>Math.random()\<close> returns in the callback
  for the point with index \<open>i\<close>.
\<close>

definition createVoxel :: "(nat \<Rightarrow> real) \<Rightarrow> VoxelData \<times> nat \<Rightarrow> SimulationVoxel" where
  "createVoxel rnd p =
     (case p of (v, i) \<Rightarrow>
        \<lparr>sv_id = i, sv_x = vd_x v, sv_y = vd_y v, sv_z = vd_z v,
         sv_color = offsetHSL (hexColor (vd_color v)) 0 0 (rnd i * 0.1 - 0.05),
         sv_vx = 0, sv_vy = 0, sv_vz = 0, sv_rx = 0, sv_ry = 0, sv_rz = 0,
         sv_rvx = 0, sv_rvy = 0, sv_rvz = 0\<rparr>)"

definition createVoxels :: "(nat \<Rightarrow> real) \<Rightarrow> VoxelData list \<Rightarrow> SimulationVoxel list" where
  "createVoxels rnd data = map (createVoxel rnd) (zip data [0..<length data])"

text \<open>
  \<open>loadInitialModel\<close> calls \<open>createVoxels\<close>, which ends in \<open>draw()\<close>, and then
  resets the state. \<open>draw\<close> sets \<open>instanceColor.needsUpdate\<close> of the instanced mesh;
  three.js creates \<open>instanceColor\<close> in the first call of \<open>setColorAt\<close>, so for an
  empty list it is still \<open>null\<close> and \<open>draw\<close> throws before the state is reset
  (\<open>handleJsonImport\<close> catches the exception and shows its alert).
\<close>

definition loadInitialModel :: "(nat \<Rightarrow> real) \<Rightarrow> VoxelData list \<Rightarrow> Engine \<Rightarrow> error + Engine" where
  "loadInitialModel rnd data e =
     (if data = [] then Inl TypeError
      else Inr (e\<lparr>voxels := createVoxels rnd data, state := STABLE\<rparr>))"

section \<open>JSON export and import (getJsonData, handleJsonImport)\<close>

text \<open>
  The values \<open>JSON.parse\<close> returns, and \<open>undefined\<close>, which reading a missing
  property gives. A number is a real, NaN or an infinity (\<open>JSON.parse\<close> reads
  \<^verbatim>\<open>1e999\<close> as Infinity). A string value is the list of its UTF-16 code units,
  which is what \<open>startsWith\<close>, \<open>substring\<close> and \<open>parseInt\<close> work on. The name of
  a property is only ever compared with the five names \<open>c\<close>, \<open>color\<close>, \<open>x\<close>,
  \<open>y\<close>, \<open>z\<close> and is kept as a plain string.
\<close>

datatype jsnum = Num real | NaN | PosInfinity | NegInfinity

type_synonym jsstring = "nat list"

definition ascii :: "string \<Rightarrow> jsstring" where
  "ascii s = map of_char s"

datatype jsval =
    JUndefined
  | JNull
  | JBool bool
  | JNumber jsnum
  | JString jsstring
  | JArray "jsval list"
  | JObject "(string \<times> jsval) list"

text \<open>
  \<open>Number(v)\<close> of a string, an array or an object goes through the language's
  string-to-number grammar and \<open>toString\<close>; these two conversions are parameters.
\<close>

record JSLib =
  StringToNumber :: "jsstring \<Rightarrow> jsnum"
  ObjectToNumber :: "jsval \<Rightarrow> jsnum"

fun Number :: "JSLib \<Rightarrow> jsval \<Rightarrow> jsnum" where
  "Number L JUndefined = NaN"
| "Number L JNull = Num 0"
| "Number L (JBool b) = (if b then Num 1 else Num 0)"
| "Number L (JNumber n) = n"
| "Number L (JString s) = StringToNumber L s"
| "Number L (JArray xs) = ObjectToNumber L (JArray xs)"
| "Number L (JObject fs) = ObjectToNumber L (JObject fs)"

text \<open>Truthiness, as the operator \<open>||\<close> tests it.\<close>

fun truthy :: "jsval \<Rightarrow> bool" where
  "truthy JUndefined = False"
| "truthy JNull = False"
| "truthy (JBool b) = b"
| "truthy (JNumber (Num v)) = (v \<noteq> 0)"
| "truthy (JNumber NaN) = False"
| "truthy (JNumber PosInfinity) = True"
| "truthy (JNumber NegInfinity) = True"
| "truthy (JString s) = (s \<noteq> [])"
| "truthy (JArray xs) = True"
| "truthy (JObject fs) = True"

text \<open>
  Reading one of the properties \<open>c\<close>, \<open>color\<close>, \<open>x\<close>, \<open>y\<close>, \<open>z\<close>: of \<open>null\<close>
  it throws, of an object it is the member or \<open>undefined\<close>, of any other value
  \<open>undefined\<close>.
\<close>

fun getProp :: "jsval \<Rightarrow> string \<Rightarrow> error + jsval" where
  "getProp JUndefined name = Inl TypeError"
| "getProp JNull name = Inl TypeError"
| "getProp (JObject fs) name = Inr (case map_of fs name of None \<Rightarrow> JUndefined | Some w \<Rightarrow> w)"
| "getProp v name = Inr JUndefined"

text \<open>
  \<open>parseInt(s, 16)\<close>: leading white space, a sign, a prefix \<open>0x\<close> or \<open>0X\<close>,
  then the longest run of hexadecimal digits; NaN where that run is empty. The white
  space that is skipped is that of the language: tab, line feed, vertical tab, form feed,
  carriage return, space, the no-break space U+00A0, U+1680, U+2000 to U+200A, the line
  and paragraph separators U+2028 and U+2029, U+202F, U+205F, U+3000 and the byte order
  mark U+FEFF, each of them one code unit. The value of the digits is taken exactly.
\<close>

definition isWhiteSpace :: "nat \<Rightarrow> bool" where
  "isWhiteSpace c =
     (c \<in> set [0x09, 0x0A, 0x0B, 0x0C, 0x0D, 0x20, 0xA0, 0x1680, 0x2028, 0x2029, 0x202F,
               0x205F, 0x3000, 0xFEFF]
      \<or> (0x2000 \<le> c \<and> c \<le> 0x200A))"

definition hexValue :: "nat \<Rightarrow> nat option" where
  "hexValue n =
     (if 48 \<le> n \<and> n \<le> 57 then Some (n - 48)
      else if 97 \<le> n \<and> n \<le> 102 then Some (n - 87)
      else if 65 \<le> n \<and> n \<le> 70 then Some (n - 55)
      else None)"

fun hexDigitsPrefix :: "jsstring \<Rightarrow> nat list" where
  "hexDigitsPrefix [] = []"
| "hexDigitsPrefix (c # cs) = (case hexValue c of None \<Rightarrow> [] | Some d \<Rightarrow> d # hexDigitsPrefix cs)"

definition stripHexPrefix :: "jsstring \<Rightarrow> jsstring" where
  "stripHexPrefix s = (if take 2 s = ascii ''0x'' \<or> take 2 s = ascii ''0X'' then drop 2 s else s)"

definition parseInt16 :: "jsstring \<Rightarrow> jsnum" where
  "parseInt16 s =
     (let s1 = dropWhile isWhiteSpace s;
          sgn = (if take 1 s1 = ascii ''-'' then - 1 else 1 :: int);
          s2 = (if take 1 s1 = ascii ''-'' \<or> take 1 s1 = ascii ''+'' then drop 1 s1 else s1);
          ds = hexDigitsPrefix (stripHexPrefix s2)
      in if ds = [] then NaN
         else Num (of_int (sgn * int (foldl (\<lambda>a d. 16 * a + d) 0 ds))))"

text \<open>A point as \<open>handleJsonImport\<close> hands it to \<open>loadInitialModel\<close>.\<close>

record ImportedVoxel =
  iv_x :: jsnum
  iv_y :: jsnum
  iv_z :: jsnum
  iv_color :: jsnum

text \<open>\<open>n || 0\<close> for a number \<open>n\<close>.\<close>

definition orZero :: "jsnum \<Rightarrow> jsnum" where
  "orZero n = (if truthy (JNumber n) then n else Num 0)"

text \<open>The callback of \<open>rawData.map\<close>.\<close>

definition importPoint :: "JSLib \<Rightarrow> jsval \<Rightarrow> error + ImportedVoxel" where
  "importPoint L v =
     (case getProp v ''c'' of
        Inl err \<Rightarrow> Inl err
      | Inr vc \<Rightarrow>
         (case (if truthy vc then Inr vc else getProp v ''color'') of
            Inl err \<Rightarrow> Inl err
          | Inr colorVal \<Rightarrow>
             (let colorInt =
                    (case colorVal of
                       JString s \<Rightarrow> parseInt16 (if take 1 s = ascii ''#'' then drop 1 s else s)
                     | JNumber n \<Rightarrow> n
                     | _ \<Rightarrow> Num 0xCCCCCC)
              in case getProp v ''x'' of Inl err \<Rightarrow> Inl err | Inr vx \<Rightarrow>
                 (case getProp v ''y'' of Inl err \<Rightarrow> Inl err | Inr vy \<Rightarrow>
                 (case getProp v ''z'' of Inl err \<Rightarrow> Inl err | Inr vz \<Rightarrow>
                    Inr \<lparr>iv_x = orZero (Number L vx),
                         iv_y = orZero (Number L vy),
                         iv_z = orZero (Number L vz),
                         iv_color = (if colorInt = NaN then Num 0xCCCCCC else colorInt)\<rparr>)))))"

fun importPoints :: "JSLib \<Rightarrow> jsval list \<Rightarrow> error + ImportedVoxel list" where
  "importPoints L [] = Inr []"
| "importPoints L (v # vs) =
     (case importPoint L v of
        Inl err \<Rightarrow> Inl err
      | Inr p \<Rightarrow> (case importPoints L vs of Inl err \<Rightarrow> Inl err | Inr ps \<Rightarrow> Inr (p # ps)))"

text \<open>
  \<open>handleJsonImport\<close> from the value \<open>JSON.parse\<close> returned up to the list passed to
  \<open>loadInitialModel\<close>; \<open>Inl\<close> is an exception, which the handler catches to show
  its alert and load nothing.
\<close>

definition handleJsonImport :: "JSLib \<Rightarrow> jsval \<Rightarrow> error + ImportedVoxel list" where
  "handleJsonImport L rawData =
     (case rawData of JArray vs \<Rightarrow> importPoints L vs | _ \<Rightarrow> Inl NotAnArray)"

text \<open>
  \<open>+v.toFixed(2)\<close> for a finite \<open>v\<close>: the multiple of 1/100 nearest to \<open>v\<close>, a
  tie going away from zero; from \<open>10\<^sup>2\<^sup>1\<close> on \<open>toFixed\<close> prints the number
  itself. Of NaN and of an infinity \<open>toFixed\<close> prints the name, which the unary plus
  reads back as the same value.
\<close>

definition fixed2 :: "real \<Rightarrow> real" where
  "fixed2 v =
     (if \<bar>v\<bar> \<ge> 10 ^ 21 then v
      else if v < 0 then - (of_int \<lfloor>(- v) * 100 + 1 / 2\<rfloor> / 100)
      else of_int \<lfloor>v * 100 + 1 / 2\<rfloor> / 100)"

definition toFixed2 :: "jsnum \<Rightarrow> jsnum" where
  "toFixed2 n = (case n of Num v \<Rightarrow> Num (fixed2 v) | _ \<Rightarrow> n)"

text \<open>\<open>n.toString(16)\<close> for a natural number.\<close>

definition hexDigit :: "nat \<Rightarrow> nat" where
  "hexDigit d = (if d < 10 then 48 + d else 87 + d)"

fun toString16 :: "nat \<Rightarrow> jsstring" where
  "toString16 n = (if n < 16 then [hexDigit n] else toString16 (n div 16) @ [hexDigit (n mod 16)])"

text \<open>\<open>getHexString\<close> of three.js: \<open>('000000' + hex.toString(16)).slice(-6)\<close>.\<close>

definition getHexString :: "Color \<Rightarrow> jsstring" where
  "getHexString c = (let s = ascii ''000000'' @ toString16 (getHex c) in drop (length s - 6) s)"

text \<open>
  The engine above takes coordinates as reals. \<open>handleJsonImport\<close>, though, passes an
  infinite coordinate on as it is (\<open>Number(v.z) || 0\<close> is Infinity for the JSON number
  \<^verbatim>\<open>1e999\<close>), \<open>createVoxels\<close> copies it, a Rebuilding tick can turn it into NaN,
  and \<open>getJsonData\<close> reads whatever is there. What \<open>getJsonData\<close> reads of a voxel
  is therefore its position in JavaScript's numbers, and its colour.
\<close>

record StoredVoxel =
  st_x :: jsnum
  st_y :: jsnum
  st_z :: jsnum
  st_color :: Color

text \<open>\<open>getJsonData\<close>: the array \<open>data\<close>, before \<open>JSON.stringify\<close> writes it.\<close>

definition exportVoxel :: "StoredVoxel \<times> nat \<Rightarrow> jsval" where
  "exportVoxel p =
     (case p of (v, i) \<Rightarrow>
        JObject [(''id'', JNumber (Num (real i))),
                 (''x'', JNumber (toFixed2 (st_x v))),
                 (''y'', JNumber (toFixed2 (st_y v))),
                 (''z'', JNumber (toFixed2 (st_z v))),
                 (''c'', JString (ascii ''#'' @ getHexString (st_color v)))])"

definition getJsonData :: "StoredVoxel list \<Rightarrow> jsval" where
  "getJsonData vs = JArray (map exportVoxel (zip vs [0..<length vs]))"

text \<open>
  What \<open>JSON.parse\<close> reads from the text \<open>JSON.stringify\<close> wrote for a value: a
  finite number, a string, a boolean and \<open>null\<close> come back as they are; NaN and the
  infinities are written as \<open>null\<close>; a property whose value is \<open>undefined\<close> is left
  out, and \<open>undefined\<close> as an element of an array is written as \<open>null\<close>.
\<close>

fun viaJson :: "jsval \<Rightarrow> jsval" where
  "viaJson (JNumber (Num v)) = JNumber (Num v)"
| "viaJson (JNumber NaN) = JNull"
| "viaJson (JNumber PosInfinity) = JNull"
| "viaJson (JNumber NegInfinity) = JNull"
| "viaJson JUndefined = JNull"
| "viaJson JNull = JNull"
| "viaJson (JBool b) = JBool b"
| "viaJson (JString s) = JString s"
| "viaJson (JArray xs) = JArray (map viaJson xs)"
| "viaJson (JObject fs) =
     JObject (map (\<lambda>(name, w). (name, viaJson w)) (filter (\<lambda>(name, w). w \<noteq> JUndefined) fs))"

text \<open>
  A point that \<open>handleJsonImport\<close> produced is passed on to \<open>loadInitialModel\<close> as it
  is; it has a counterpart in the engine's numbers if its coordinates are finite and its
  colour is a natural number.
\<close>

definition toVoxelData :: "ImportedVoxel \<Rightarrow> VoxelData option" where
  "toVoxelData p =
     (case (iv_x p, iv_y p, iv_z p, iv_color p) of
        (Num px, Num py, Num pz, Num c) \<Rightarrow>
          (if 0 \<le> c \<and> c = of_int \<lfloor>c\<rfloor>
           then Some \<lparr>vd_x = px, vd_y = py, vd_z = pz, vd_color = nat \<lfloor>c\<rfloor>\<rparr>
           else None)
      | _ \<Rightarrow> None)"

text \<open>
  What the import reads for a coordinate that the export wrote and \<open>JSON.parse\<close> read
  back: the rounded value of a finite coordinate, and 0 for \<open>null\<close>, which is what
  NaN and the infinities were written as.
\<close>

definition readBack :: "jsnum \<Rightarrow> real" where
  "readBack n = (case n of Num u \<Rightarrow> fixed2 u | _ \<Rightarrow> 0)"

text \<open>The hexadecimal digits of a natural number, most significant first.\<close>

fun digits16 :: "nat \<Rightarrow> nat list" where
  "digits16 n = (if n < 16 then [n] else digits16 (n div 16) @ [n mod 16])"

text \<open>The quantity the loop minimises: colour distance plus penalty.\<close>

definition cost :: "Constants \<Rightarrow> VoxelData \<Rightarrow> Available \<Rightarrow> real" where
  "cost k target a = getColorDist (av_color a) (vd_color target) + penalty k a target"

text \<open>
  What the pair of arrays \<open>available\<close> and \<open>mappings\<close> keeps true while the targets
  are matched: both are as long as the voxel array, entry \<open>i\<close> of the pool carries the
  index \<open>i\<close> and the colour of voxel \<open>i\<close>, it is taken exactly if \<open>mappings[i]\<close> is
  set, and a mapping that is set is not rubble.
\<close>

definition poolOf :: "SimulationVoxel list \<Rightarrow> Available list \<times> RebuildTarget option list \<Rightarrow> bool" where
  "poolOf vs s =
     (length (fst s) = length vs \<and> length (snd s) = length vs
      \<and> (\<forall>i < length vs. av_index (fst s ! i) = i \<and> av_color (fst s ! i) = sv_color (vs ! i)
            \<and> (av_taken (fst s ! i) \<longleftrightarrow> snd s ! i \<noteq> None)
            \<and> (\<forall>m. snd s ! i = Some m \<longrightarrow> \<not> rt_isRubble m)))"

text \<open>A colour whose three channels lie between 0 and 1, as every THREE.Color of the engine does.\<close>

definition validColor :: "Color \<Rightarrow> bool" where
  "validColor c = (0 \<le> c_r c \<and> c_r c \<le> 1 \<and> 0 \<le> c_g c \<and> c_g c \<le> 1 \<and> 0 \<le> c_b c \<and> c_b c \<le> 1)"

text \<open>
  The squared distance of a voxel to its target as a real number (the callback compares
  what its double arithmetic computes for it with 0.01), and the state a voxel is put in
  when it has arrived: at the target, with no rotation.
\<close>

definition dist2 :: "RebuildTarget \<Rightarrow> SimulationVoxel \<Rightarrow> real" where
  "dist2 t v = (rt_x t - sv_x v)\<^sup>2 + (rt_y t - sv_y v)\<^sup>2 + (rt_z t - sv_z v)\<^sup>2"

definition snapped :: "RebuildTarget \<Rightarrow> SimulationVoxel \<Rightarrow> bool" where
  "snapped t v =
     (sv_x v = rt_x t \<and> sv_y v = rt_y t \<and> sv_z v = rt_z t
      \<and> sv_rx v = 0 \<and> sv_ry v = 0 \<and> sv_rz v = 0)"

text \<open>
  A target and a voxel whose coordinates are at most \<open>m\<close> in absolute value; a target
  alone with that bound; and a voxel that is at most \<open>r\<close> away from its target along
  every axis.
\<close>

definition inRange :: "real \<Rightarrow> RebuildTarget \<Rightarrow> SimulationVoxel \<Rightarrow> bool" where
  "inRange m t v =
     (\<bar>rt_x t\<bar> \<le> m \<and> \<bar>rt_y t\<bar> \<le> m \<and> \<bar>rt_z t\<bar> \<le> m
      \<and> \<bar>sv_x v\<bar> \<le> m \<and> \<bar>sv_y v\<bar> \<le> m \<and> \<bar>sv_z v\<bar> \<le> m)"

definition targetIn :: "real \<Rightarrow> RebuildTarget \<Rightarrow> bool" where
  "targetIn m t = (\<bar>rt_x t\<bar> \<le> m \<and> \<bar>rt_y t\<bar> \<le> m \<and> \<bar>rt_z t\<bar> \<le> m)"

definition nearTarget :: "real \<Rightarrow> RebuildTarget \<Rightarrow> SimulationVoxel \<Rightarrow> bool" where
  "nearTarget r t v =
     (\<bar>rt_x t - sv_x v\<bar> \<le> r \<and> \<bar>rt_y t - sv_y v\<bar> \<le> r \<and> \<bar>rt_z t - sv_z v\<bar> \<le> r)"

section \<open>Concrete values for the evaluations\<close>

text \<open>
  A choice of the three constants, used where a statement is evaluated at a concrete
  input: the floor at height -12, a forest green and a dark brown.
\<close>

definition sampleConstants :: Constants where
  "sampleConstants = \<lparr>FLOOR_Y = - 12, COLORS_GREEN = 0x228B22, COLORS_WOOD = 0x3B2F2F\<rparr>"

text \<open>A voxel at rest, as \<open>createVoxels\<close> makes it, with a given colour.\<close>

definition voxelAt :: "nat \<Rightarrow> real \<Rightarrow> real \<Rightarrow> real \<Rightarrow> Color \<Rightarrow> SimulationVoxel" where
  "voxelAt i px py pz c =
     \<lparr>sv_id = i, sv_x = px, sv_y = py, sv_z = pz, sv_color = c,
      sv_vx = 0, sv_vy = 0, sv_vz = 0, sv_rx = 0, sv_ry = 0, sv_rz = 0,
      sv_rvx = 0, sv_rvy = 0, sv_rvz = 0\<rparr>"

definition pointAt :: "real \<Rightarrow> real \<Rightarrow> real \<Rightarrow> nat \<Rightarrow> VoxelData" where
  "pointAt px py pz c = \<lparr>vd_x = px, vd_y = py, vd_z = pz, vd_color = c\<rparr>"

definition poolEntry :: "nat \<Rightarrow> Color \<Rightarrow> bool \<Rightarrow> Available" where
  "poolEntry i c t = \<lparr>av_index = i, av_color = c, av_taken = t\<rparr>"

text \<open>The red \<open>0xFF0000\<close> after \<open>createVoxels\<close> has lowered its lightness by 0.01.\<close>

definition darkerRed :: Color where
  "darkerRed = \<lparr>c_r = 0.98, c_g = 0, c_b = 0\<rparr>"

text \<open>
  The scenario of the interpolation test: one voxel at the origin, its target at
  \<open>(10, 0, 0)\<close> with no delay, the engine in the state Rebuilding.
\<close>

definition glideTarget :: RebuildTarget where
  "glideTarget = \<lparr>rt_x = 10, rt_y = 0, rt_z = 0, rt_delay = 0, rt_isRubble = False\<rparr>"

definition glideEngine :: Engine where
  "glideEngine =
     \<lparr>voxels = [voxelAt 0 0 0 0 (hexColor 0xF0F0F0)], rebuildTargets = [glideTarget],
      rebuildStartTime = 0, state = REBUILDING\<rparr>"

text \<open>
  A voxel far from the origin, one unit away from its target: at \<open>2\<^sup>5\<^sup>0\<close> the doubles
  are a quarter apart.
\<close>

definition farTarget :: RebuildTarget where
  "farTarget = \<lparr>rt_x = 2 ^ 50 + 1, rt_y = 0, rt_z = 0, rt_delay = 0, rt_isRubble = False\<rparr>"

definition farVoxel :: SimulationVoxel where
  "farVoxel = voxelAt 0 (2 ^ 50) 0 0 (hexColor 0xF0F0F0)"

definition farEngine :: Engine where
  "farEngine =
     \<lparr>voxels = [farVoxel], rebuildTargets = [farTarget],
      rebuildStartTime = 0, state = REBUILDING\<rparr>"

text \<open>
  Conversions for inputs in which \<open>Number\<close> meets no string, array or object, and the
  sequence of random draws that are all 0 (the lightness offset is then -0.05).
\<close>

definition plainLib :: JSLib where
  "plainLib = \<lparr>StringToNumber = (\<lambda>s. NaN), ObjectToNumber = (\<lambda>v. NaN)\<rparr>"

definition zeroDraws :: "nat \<Rightarrow> real" where
  "zeroDraws i = 0"

text \<open>The sequence of random draws that are all 0.9 (the lightness offset is then 0.04).\<close>

definition highDraws :: "nat \<Rightarrow> real" where
  "highDraws i = 9 / 10"

text \<open>
  A voxel as \<open>getJsonData\<close> reads it, and an engine with given voxels and state and no
  targets.
\<close>

definition storedAt :: "jsnum \<Rightarrow> jsnum \<Rightarrow> jsnum \<Rightarrow> Color \<Rightarrow> StoredVoxel" where
  "storedAt px py pz c = \<lparr>st_x = px, st_y = py, st_z = pz, st_color = c\<rparr>"

definition engineOf :: "SimulationVoxel list \<Rightarrow> AppState \<Rightarrow> Engine" where
  "engineOf vs st = \<lparr>voxels = vs, rebuildTargets = [], rebuildStartTime = 0, state = st\<rparr>"

section \<open>The dismantling tick\<close>

lemma dismantleVoxel_y: "FLOOR_Y k + 1 / 2 \<le> sv_y (dismantleVoxel k v)"
  by (simp add: dismantleVoxel_def Let_def)



text \<open>
  Claim C5. After a tick in the state Dismantling every voxel has \<open>y\<close> at least
  \<open>FLOOR_Y + 0.5\<close>, whatever its position and velocity were before the tick.
\<close>

theorem dismantling_floor:
  assumes "state e = DISMANTLING"
  shows "\<exists>e'. updatePhysics k now e = Inr e' \<and> length (voxels e') = length (voxels e)
           \<and> (\<forall>v' \<in> set (voxels e'). FLOOR_Y k + 0.5 \<le> sv_y v')"
  using assms dismantleVoxel_y by (auto simp add: updatePhysics_def dismantleTick_def)

theorem dismantling_floor_witness:
  "state (engineOf [voxelAt 0 0 (- 100) 0 (hexColor 0)] DISMANTLING) = DISMANTLING
   \<and> (\<exists>e'. updatePhysics sampleConstants 0 (engineOf [voxelAt 0 0 (- 100) 0 (hexColor 0)] DISMANTLING) = Inr e'
         \<and> length (voxels e') = 1 \<and> (\<forall>v' \<in> set (voxels e'). - 23 / 2 \<le> sv_y v'))"
  using dismantling_floor [of "engineOf [voxelAt 0 0 (- 100) 0 (hexColor 0)] DISMANTLING" sampleConstants 0]
  by (auto simp add: engineOf_def sampleConstants_def)

section \<open>The scan for the best candidate\<close>

lemma scan_result:
  "scan k target as i bd bi = r \<Longrightarrow>
     (r = bi \<and> (\<forall>a \<in> set as. \<not> av_taken a \<longrightarrow> bd \<le> cost k target a))
   \<or> (\<exists>m < length as. r = Some (i + m) \<and> \<not> av_taken (as ! m)
         \<and> cost k target (as ! m) < bd
         \<and> (\<forall>n < m. \<not> av_taken (as ! n) \<longrightarrow> cost k target (as ! m) < cost k target (as ! n))
         \<and> (getColorDist (av_color (as ! m)) (vd_color target) < 0.01
             \<or> (\<forall>n < length as. \<not> av_taken (as ! n) \<longrightarrow> cost k target (as ! m) \<le> cost k target (as ! n))))"
proof (induction as arbitrary: i bd bi r)
  case Nil
  then show ?case by simp
next
  case (Cons a rest)
  let ?c = "cost k target a"
  let ?d = "getColorDist (av_color a) (vd_color target)"
  show ?case
  proof (cases "av_taken a")
    case True
    with Cons.prems have "scan k target rest (i + 1) bd bi = r" by simp
    from Cons.IH[OF this] show ?thesis
    proof
      assume "r = bi \<and> (\<forall>a \<in> set rest. \<not> av_taken a \<longrightarrow> bd \<le> cost k target a)"
      with True show ?thesis by auto
    next
      assume "\<exists>m < length rest. r = Some (i + 1 + m) \<and> \<not> av_taken (rest ! m)
         \<and> cost k target (rest ! m) < bd
         \<and> (\<forall>n < m. \<not> av_taken (rest ! n) \<longrightarrow> cost k target (rest ! m) < cost k target (rest ! n))
         \<and> (getColorDist (av_color (rest ! m)) (vd_color target) < 0.01
             \<or> (\<forall>n < length rest. \<not> av_taken (rest ! n) \<longrightarrow> cost k target (rest ! m) \<le> cost k target (rest ! n)))"
      then obtain m where m: "m < length rest" "r = Some (i + 1 + m)" "\<not> av_taken (rest ! m)"
         "cost k target (rest ! m) < bd"
         "\<forall>n < m. \<not> av_taken (rest ! n) \<longrightarrow> cost k target (rest ! m) < cost k target (rest ! n)"
         "getColorDist (av_color (rest ! m)) (vd_color target) < 0.01
             \<or> (\<forall>n < length rest. \<not> av_taken (rest ! n) \<longrightarrow> cost k target (rest ! m) \<le> cost k target (rest ! n))"
        by blast
      have "\<forall>n < Suc m. \<not> av_taken ((a # rest) ! n) \<longrightarrow> cost k target (rest ! m) < cost k target ((a # rest) ! n)"
        using m(5) True by (auto simp: nth_Cons split: nat.splits)
      moreover have "getColorDist (av_color (rest ! m)) (vd_color target) < 0.01
             \<or> (\<forall>n < length (a # rest). \<not> av_taken ((a # rest) ! n) \<longrightarrow> cost k target (rest ! m) \<le> cost k target ((a # rest) ! n))"
        using m(6) True by (auto simp: nth_Cons split: nat.splits)
      ultimately show ?thesis
        using m(1-4) by (intro disjI2 exI[of _ "Suc m"]) simp
    qed
  next
    case False
    show ?thesis
    proof (cases "?c < bd")
      case better: True
      show ?thesis
      proof (cases "?d < 0.01")
        case True
        with better False Cons.prems have "r = Some i" by (simp add: cost_def Let_def)
        with better False True show ?thesis
          by (intro disjI2 exI[of _ 0]) simp
      next
        case nobreak: False
        with better False Cons.prems have "scan k target rest (i + 1) ?c (Some i) = r"
          by (simp add: cost_def Let_def)
        from Cons.IH[OF this] show ?thesis
        proof
          assume "r = Some i \<and> (\<forall>a \<in> set rest. \<not> av_taken a \<longrightarrow> ?c \<le> cost k target a)"
          then have "\<forall>n < length (a # rest). \<not> av_taken ((a # rest) ! n) \<longrightarrow> ?c \<le> cost k target ((a # rest) ! n)"
            by (auto simp: nth_Cons split: nat.splits)
          with \<open>r = Some i \<and> _\<close> better False show ?thesis
            by (intro disjI2 exI[of _ 0]) simp
        next
          assume "\<exists>m < length rest. r = Some (i + 1 + m) \<and> \<not> av_taken (rest ! m)
             \<and> cost k target (rest ! m) < ?c
             \<and> (\<forall>n < m. \<not> av_taken (rest ! n) \<longrightarrow> cost k target (rest ! m) < cost k target (rest ! n))
             \<and> (getColorDist (av_color (rest ! m)) (vd_color target) < 0.01
                 \<or> (\<forall>n < length rest. \<not> av_taken (rest ! n) \<longrightarrow> cost k target (rest ! m) \<le> cost k target (rest ! n)))"
          then obtain m where m: "m < length rest" "r = Some (i + 1 + m)" "\<not> av_taken (rest ! m)"
             "cost k target (rest ! m) < ?c"
             "\<forall>n < m. \<not> av_taken (rest ! n) \<longrightarrow> cost k target (rest ! m) < cost k target (rest ! n)"
             "getColorDist (av_color (rest ! m)) (vd_color target) < 0.01
                 \<or> (\<forall>n < length rest. \<not> av_taken (rest ! n) \<longrightarrow> cost k target (rest ! m) \<le> cost k target (rest ! n))"
            by blast
          have "\<forall>n < Suc m. \<not> av_taken ((a # rest) ! n) \<longrightarrow> cost k target (rest ! m) < cost k target ((a # rest) ! n)"
            using m(4,5) by (auto simp: nth_Cons split: nat.splits)
          moreover have "getColorDist (av_color (rest ! m)) (vd_color target) < 0.01
                 \<or> (\<forall>n < length (a # rest). \<not> av_taken ((a # rest) ! n) \<longrightarrow> cost k target (rest ! m) \<le> cost k target ((a # rest) ! n))"
            using m(4,6) by (auto simp: nth_Cons split: nat.splits)
          moreover have "cost k target (rest ! m) < bd" using m(4) better by simp
          ultimately show ?thesis
            using m(1-3) by (intro disjI2 exI[of _ "Suc m"]) simp
        qed
      qed
    next
      case worse: False
      with False Cons.prems have "scan k target rest (i + 1) bd bi = r" by (simp add: cost_def Let_def)
      from Cons.IH[OF this] show ?thesis
      proof
        assume "r = bi \<and> (\<forall>a \<in> set rest. \<not> av_taken a \<longrightarrow> bd \<le> cost k target a)"
        with worse show ?thesis by auto
      next
        assume "\<exists>m < length rest. r = Some (i + 1 + m) \<and> \<not> av_taken (rest ! m)
           \<and> cost k target (rest ! m) < bd
           \<and> (\<forall>n < m. \<not> av_taken (rest ! n) \<longrightarrow> cost k target (rest ! m) < cost k target (rest ! n))
           \<and> (getColorDist (av_color (rest ! m)) (vd_color target) < 0.01
               \<or> (\<forall>n < length rest. \<not> av_taken (rest ! n) \<longrightarrow> cost k target (rest ! m) \<le> cost k target (rest ! n)))"
        then obtain m where m: "m < length rest" "r = Some (i + 1 + m)" "\<not> av_taken (rest ! m)"
           "cost k target (rest ! m) < bd"
           "\<forall>n < m. \<not> av_taken (rest ! n) \<longrightarrow> cost k target (rest ! m) < cost k target (rest ! n)"
           "getColorDist (av_color (rest ! m)) (vd_color target) < 0.01
               \<or> (\<forall>n < length rest. \<not> av_taken (rest ! n) \<longrightarrow> cost k target (rest ! m) \<le> cost k target (rest ! n))"
          by blast
        have "\<forall>n < Suc m. \<not> av_taken ((a # rest) ! n) \<longrightarrow> cost k target (rest ! m) < cost k target ((a # rest) ! n)"
          using m(4,5) worse by (auto simp: nth_Cons split: nat.splits)
        moreover have "getColorDist (av_color (rest ! m)) (vd_color target) < 0.01
               \<or> (\<forall>n < length (a # rest). \<not> av_taken ((a # rest) ! n) \<longrightarrow> cost k target (rest ! m) \<le> cost k target ((a # rest) ! n))"
          using m(4,6) worse by (auto simp: nth_Cons split: nat.splits)
        ultimately show ?thesis
          using m(1-4) by (intro disjI2 exI[of _ "Suc m"]) simp
      qed
    qed
  qed
qed

lemma scan_eq_scanFull:
  "\<forall>a \<in> set as. \<not> av_taken a \<longrightarrow> \<not> getColorDist (av_color a) (vd_color target) < 0.01 \<Longrightarrow>
   scan k target as i bd bi = scanFull k target as i bd bi"
  by (induction as arbitrary: i bd bi) (simp_all add: Let_def)

subsection \<open>Colour distances of the pure colours\<close>

text \<open>The bytes 0 and 255 are the linear channels 0 and 1.\<close>

lemma SRGBToLinear_0: "SRGBToLinear 0 = 0"
  by (simp add: SRGBToLinear_def)

lemma SRGBToLinear_1: "SRGBToLinear 1 = 1"
  by (simp add: SRGBToLinear_def)

lemma hexColor_red: "hexColor 0xFF0000 = \<lparr>c_r = 1, c_g = 0, c_b = 0\<rparr>"
  by (simp add: hexColor_def SRGBToLinear_0 SRGBToLinear_1)

lemma hexColor_green: "hexColor 0x00FF00 = \<lparr>c_r = 0, c_g = 1, c_b = 0\<rparr>"
  by (simp add: hexColor_def SRGBToLinear_0 SRGBToLinear_1)

lemma dist_same: "getColorDist (hexColor h) h = 0"
  by (simp add: getColorDist_def Let_def)

lemma dist_red_green: "getColorDist (hexColor 0xFF0000) 0x00FF00 = sqrt (4381 / 10000)"
  by (simp add: getColorDist_def Let_def hexColor_red hexColor_green)

lemma dist_green_red: "getColorDist (hexColor 0x00FF00) 0xFF0000 = sqrt (4381 / 10000)"
  by (simp add: getColorDist_def Let_def hexColor_red hexColor_green)

lemma sqrt_4381_lower: "1 / 100 \<le> sqrt (4381 / 10000)"
  by (rule real_le_rsqrt) (simp add: power2_eq_square)

lemma sqrt_4381_upper: "sqrt (4381 / 10000) < 1"
  by (rule real_less_lsqrt) simp_all

lemma dist_darkerRed: "getColorDist darkerRed 0xFF0000 = 3 / 500"
proof -
  have "getColorDist darkerRed 0xFF0000 = sqrt ((3 / 500)\<^sup>2)"
    by (simp add: getColorDist_def Let_def hexColor_red darkerRed_def power2_eq_square)
  then show ?thesis by simp
qed

lemma leaf_red: "\<not> isLeafOrWood (hexColor 0xFF0000)"
  by (simp add: isLeafOrWood_def hexColor_red)

lemma leaf_green: "isLeafOrWood (hexColor 0x00FF00)"
  by (simp add: isLeafOrWood_def hexColor_green)

lemma leaf_darkerRed: "\<not> isLeafOrWood darkerRed"
  by (simp add: isLeafOrWood_def darkerRed_def)

text \<open>
  Claim C2 (as amended). The penalty of 100 is added exactly when the candidate's colour
  passes the channel test (green above 0.4, or red and blue both below 0.25) and the
  target's packed colour is neither of the two constants COLORS.GREEN and COLORS.WOOD;
  the target's colour is compared with these constants, not put to the channel test.
  For an untaken candidate the loop compares the distance plus this penalty with the
  best value so far.
\<close>

theorem penalty_exact:
  "penalty k a target =
     (if (c_g (av_color a) > 0.4 \<or> (c_r (av_color a) < 0.25 \<and> c_b (av_color a) < 0.25))
         \<and> vd_color target \<noteq> COLORS_GREEN k \<and> vd_color target \<noteq> COLORS_WOOD k
      then 100 else 0)
   \<and> scan k target (poolEntry j c False # rest) i bestDist bestIdx =
       (if getColorDist c (vd_color target) + penalty k (poolEntry j c False) target < bestDist
        then (if getColorDist c (vd_color target) < 0.01 then Some i
              else scan k target rest (i + 1)
                     (getColorDist c (vd_color target) + penalty k (poolEntry j c False) target) (Some i))
        else scan k target rest (i + 1) bestDist bestIdx)"
  by (simp add: penalty_def isLeafOrWood_def targetIsGreen_def poolEntry_def Let_def)

theorem penalty_channel_test_counterexample:
  "isLeafOrWood (hexColor (vd_color (pointAt 0 0 0 0x00FF00)))
   \<and> isLeafOrWood (av_color (poolEntry 0 (hexColor 0x00FF00) False))
   \<and> penalty sampleConstants (poolEntry 0 (hexColor 0x00FF00) False) (pointAt 0 0 0 0x00FF00) = 100"
  by (simp add: penalty_def leaf_green targetIsGreen_def poolEntry_def pointAt_def sampleConstants_def)

text \<open>
  Claim C3 (as amended). The candidate the loop selects is untaken, costs less than every
  untaken entry before it, and either has a colour distance below 0.01 (the loop stopped
  there and looked no further) or costs no more than any untaken entry of the pool.
  Where no untaken entry has a colour distance below 0.01, the loop selects what the
  scan over all entries selects.
\<close>

theorem scan_selection:
  "(scan k target av 0 9999 None = Some j \<longrightarrow>
       j < length av \<and> \<not> av_taken (av ! j) \<and> cost k target (av ! j) < 9999
     \<and> (\<forall>n < j. \<not> av_taken (av ! n) \<longrightarrow> cost k target (av ! j) < cost k target (av ! n))
     \<and> (getColorDist (av_color (av ! j)) (vd_color target) < 0.01
         \<or> (\<forall>n < length av. \<not> av_taken (av ! n) \<longrightarrow> cost k target (av ! j) \<le> cost k target (av ! n))))
   \<and> ((\<forall>a \<in> set av. \<not> av_taken a \<longrightarrow> \<not> getColorDist (av_color a) (vd_color target) < 0.01) \<longrightarrow>
        scan k target av 0 9999 None = scanFull k target av 0 9999 None)"
proof -
  have full: "(\<forall>a \<in> set av. \<not> av_taken a \<longrightarrow> \<not> getColorDist (av_color a) (vd_color target) < 0.01) \<longrightarrow>
        scan k target av 0 9999 None = scanFull k target av 0 9999 None"
    using scan_eq_scanFull by blast
  have sel: "scan k target av 0 9999 None = Some j \<longrightarrow>
       j < length av \<and> \<not> av_taken (av ! j) \<and> cost k target (av ! j) < 9999
     \<and> (\<forall>n < j. \<not> av_taken (av ! n) \<longrightarrow> cost k target (av ! j) < cost k target (av ! n))
     \<and> (getColorDist (av_color (av ! j)) (vd_color target) < 0.01
         \<or> (\<forall>n < length av. \<not> av_taken (av ! n) \<longrightarrow> cost k target (av ! j) \<le> cost k target (av ! n)))"
  proof
    assume "scan k target av 0 9999 None = Some j"
    from scan_result[OF this]
    show "j < length av \<and> \<not> av_taken (av ! j) \<and> cost k target (av ! j) < 9999
     \<and> (\<forall>n < j. \<not> av_taken (av ! n) \<longrightarrow> cost k target (av ! j) < cost k target (av ! n))
     \<and> (getColorDist (av_color (av ! j)) (vd_color target) < 0.01
         \<or> (\<forall>n < length av. \<not> av_taken (av ! n) \<longrightarrow> cost k target (av ! j) \<le> cost k target (av ! n)))"
      by auto
  qed
  from sel full show ?thesis by (rule conjI)
qed

theorem scan_selection_witness:
  "scan sampleConstants (pointAt 0 0 0 0xFF0000)
      [poolEntry 0 (hexColor 0x00FF00) False, poolEntry 1 (hexColor 0xFF0000) False] 0 9999 None = Some 1
   \<and> cost sampleConstants (pointAt 0 0 0 0xFF0000) (poolEntry 1 (hexColor 0xFF0000) False)
       < cost sampleConstants (pointAt 0 0 0 0xFF0000) (poolEntry 0 (hexColor 0x00FF00) False)"
  using scan_selection [of sampleConstants "pointAt 0 0 0 0xFF0000"
      "[poolEntry 0 (hexColor 0x00FF00) False, poolEntry 1 (hexColor 0xFF0000) False]" 1]
    sqrt_4381_lower sqrt_4381_upper
  by (simp add: poolEntry_def pointAt_def penalty_def leaf_green leaf_red targetIsGreen_def
      sampleConstants_def dist_same dist_green_red Let_def)

theorem scan_short_circuit_counterexample:
  "scan sampleConstants (pointAt 0 0 0 0xFF0000)
      [poolEntry 0 darkerRed False, poolEntry 1 (hexColor 0xFF0000) False] 0 9999 None = Some 0
   \<and> scanFull sampleConstants (pointAt 0 0 0 0xFF0000)
      [poolEntry 0 darkerRed False, poolEntry 1 (hexColor 0xFF0000) False] 0 9999 None = Some 1
   \<and> cost sampleConstants (pointAt 0 0 0 0xFF0000) (poolEntry 1 (hexColor 0xFF0000) False)
       < cost sampleConstants (pointAt 0 0 0 0xFF0000) (poolEntry 0 darkerRed False)"
  by (simp add: poolEntry_def pointAt_def penalty_def cost_def leaf_darkerRed leaf_red
      dist_same dist_darkerRed Let_def)

section \<open>The exact-colour scenario\<close>

lemma exact_color_pool:
  assumes "sv_color vr = hexColor 0xFF0000" and "sv_color vg = hexColor 0x00FF00"
    and "vd_color tg = 0x00FF00" and "vd_color tr = 0xFF0000"
  shows "snd (matchTargets k [vr, vg] [tg, tr]) =
     (if 0x00FF00 = COLORS_GREEN k \<or> 0x00FF00 = COLORS_WOOD k
      then [Some (targetAssignment k tr), Some (targetAssignment k tg)]
      else [Some (targetAssignment k tg), Some (targetAssignment k tr)])"
proof -
  note ev = matchTargets_def initialPool_def matchTarget_def penalty_def targetIsGreen_def
    leaf_red leaf_green dist_same dist_red_green dist_green_red Let_def
  have lo: "\<not> sqrt (4381 / 10000) < 1 / 100" using sqrt_4381_lower by linarith
  have up: "sqrt (4381 / 10000) < 9999" "sqrt (4381 / 10000) + 100 < 9999"
    "\<not> 100 < sqrt (4381 / 10000)" "0 < sqrt (4381 / 10000)"
    using sqrt_4381_upper sqrt_4381_lower by linarith+
  show ?thesis
  proof (cases "0x00FF00 = COLORS_GREEN k \<or> 0x00FF00 = COLORS_WOOD k")
    case True
    then show ?thesis using assms lo up by (auto simp add: ev)
  next
    case False
    then show ?thesis using assms lo up by (auto simp add: ev)
  qed
qed

lemma exact_color_rebuild:
  assumes "state e \<noteq> REBUILDING" and "voxels e = [vr, vg]"
    and "sv_color vr = hexColor 0xFF0000" and "sv_color vg = hexColor 0x00FF00"
    and "vd_color tg = 0x00FF00" and "vd_color tr = 0xFF0000"
  shows "rebuildTargets (rebuild k now [tg, tr] e) =
     (if 0x00FF00 = COLORS_GREEN k \<or> 0x00FF00 = COLORS_WOOD k
      then [targetAssignment k tr, targetAssignment k tg]
      else [targetAssignment k tg, targetAssignment k tr])"
  using assms(1,2) exact_color_pool[OF assms(3-6), of k]
  by (simp add: rebuild_def fillRubble_def)

text \<open>
  Claim C1. With the voxel array [red \<open>0xFF0000\<close>, green \<open>0x00FF00\<close>] and the
  targets [green, red] in that order, what \<open>rebuild\<close> assigns depends on the two
  constants COLORS.GREEN and COLORS.WOOD. If \<open>0x00FF00\<close> is one of them, the green
  target goes to the green voxel and the red target to the red voxel. For every other
  value of the constants the green voxel carries the penalty of 100 against the green
  target, although its colour distance is 0: the green target takes the red voxel at
  index 0 (cost about 0.66 against 100), the scan never reaches the early exit for an
  identical colour, and the red target is left with the green voxel. This is the opposite
  of what the comment above \<open>rebuild\<close> sets as the goal (a green model attracts the
  green blocks on the ground, not the red ones).
\<close>

theorem exact_color_scenario:
  assumes "state e \<noteq> REBUILDING" and "voxels e = [vr, vg]"
    and "sv_color vr = hexColor 0xFF0000" and "sv_color vg = hexColor 0x00FF00"
    and "vd_color tg = 0x00FF00" and "vd_color tr = 0xFF0000"
  shows "rebuildTargets (rebuild k now [tg, tr] e) =
     (if 0x00FF00 = COLORS_GREEN k \<or> 0x00FF00 = COLORS_WOOD k
      then [targetAssignment k tr, targetAssignment k tg]
      else [targetAssignment k tg, targetAssignment k tr])"
  using assms by (rule exact_color_rebuild)

text \<open>
  The scenario with a forest green and a dark brown as the constants, where the red voxel
  (index 0) is sent to the place of the green target, and with \<open>0x00FF00\<close> itself as
  COLORS.GREEN, where each voxel goes to the target of its own colour.
\<close>

theorem exact_color_scenario_witness:
  "state (engineOf [voxelAt 0 0 0 0 (hexColor 0xFF0000), voxelAt 1 5 0 0 (hexColor 0x00FF00)] DISMANTLING)
     \<noteq> REBUILDING
   \<and> rebuildTargets (rebuild sampleConstants 0
        [pointAt 1 0 0 0x00FF00, pointAt 2 0 0 0xFF0000]
        (engineOf [voxelAt 0 0 0 0 (hexColor 0xFF0000), voxelAt 1 5 0 0 (hexColor 0x00FF00)] DISMANTLING))
     = [\<lparr>rt_x = 1, rt_y = 0, rt_z = 0, rt_delay = 640, rt_isRubble = False\<rparr>,
        \<lparr>rt_x = 2, rt_y = 0, rt_z = 0, rt_delay = 640, rt_isRubble = False\<rparr>]
   \<and> rebuildTargets (rebuild \<lparr>FLOOR_Y = - 12, COLORS_GREEN = 0x00FF00, COLORS_WOOD = 0x3B2F2F\<rparr> 0
        [pointAt 1 0 0 0x00FF00, pointAt 2 0 0 0xFF0000]
        (engineOf [voxelAt 0 0 0 0 (hexColor 0xFF0000), voxelAt 1 5 0 0 (hexColor 0x00FF00)] DISMANTLING))
     = [\<lparr>rt_x = 2, rt_y = 0, rt_z = 0, rt_delay = 640, rt_isRubble = False\<rparr>,
        \<lparr>rt_x = 1, rt_y = 0, rt_z = 0, rt_delay = 640, rt_isRubble = False\<rparr>]"
  using exact_color_scenario [of
      "engineOf [voxelAt 0 0 0 0 (hexColor 0xFF0000), voxelAt 1 5 0 0 (hexColor 0x00FF00)] DISMANTLING"
      "voxelAt 0 0 0 0 (hexColor 0xFF0000)" "voxelAt 1 5 0 0 (hexColor 0x00FF00)"
      "pointAt 1 0 0 0x00FF00" "pointAt 2 0 0 0xFF0000" sampleConstants 0]
    exact_color_scenario [of
      "engineOf [voxelAt 0 0 0 0 (hexColor 0xFF0000), voxelAt 1 5 0 0 (hexColor 0x00FF00)] DISMANTLING"
      "voxelAt 0 0 0 0 (hexColor 0xFF0000)" "voxelAt 1 5 0 0 (hexColor 0x00FF00)"
      "pointAt 1 0 0 0x00FF00" "pointAt 2 0 0 0xFF0000"
      "\<lparr>FLOOR_Y = - 12, COLORS_GREEN = 0x00FF00, COLORS_WOOD = 0x3B2F2F\<rparr>" 0]
  by (simp add: engineOf_def voxelAt_def pointAt_def targetAssignment_def sampleConstants_def)

section \<open>The assignment that rebuild installs\<close>

lemma scan_Some:
  assumes "scan k target av 0 9999 None = Some j"
  shows "j < length av \<and> \<not> av_taken (av ! j)"
  using scan_result[OF assms] by auto

lemma scan_None:
  assumes "scan k target av 0 9999 None = None"
  shows "\<forall>a \<in> set av. \<not> av_taken a \<longrightarrow> 9999 \<le> cost k target a"
  using scan_result[OF assms] by auto

lemma scan_all_taken:
  "\<forall>a \<in> set av. av_taken a \<Longrightarrow> scan k target av i bd bi = bi"
  by (induction av arbitrary: i) simp_all

lemma poolOf_initial: "poolOf vs (initialPool vs)"
  by (simp add: poolOf_def initialPool_def)

lemma matchTarget_None:
  "scan k target (fst s) 0 9999 None = None \<Longrightarrow> matchTarget k s target = s"
  by (cases s) (simp add: matchTarget_def)

lemma matchTarget_Some:
  "scan k target (fst s) 0 9999 None = Some j \<Longrightarrow>
   matchTarget k s target =
     ((fst s)[j := (fst s ! j)\<lparr>av_taken := True\<rparr>],
      (snd s)[av_index (fst s ! j) := Some (targetAssignment k target)])"
  by (cases s) (simp add: matchTarget_def)

lemma targetAssignment_not_rubble: "\<not> rt_isRubble (targetAssignment k target)"
  by (simp add: targetAssignment_def Let_def)

lemma poolOf_matchTarget:
  assumes "poolOf vs s"
  shows "poolOf vs (matchTarget k s target)"
proof (cases "scan k target (fst s) 0 9999 None")
  case None
  with assms show ?thesis by (simp add: matchTarget_None)
next
  case (Some j)
  from scan_Some[OF Some] assms have j: "j < length vs" "av_index (fst s ! j) = j"
    by (auto simp: poolOf_def)
  show ?thesis
    using assms j targetAssignment_not_rubble[of k target]
    by (auto simp add: matchTarget_Some[OF Some] poolOf_def nth_list_update)
qed

lemma poolOf_foldl:
  "poolOf vs s \<Longrightarrow> poolOf vs (foldl (matchTarget k) s ts)"
  by (induction ts arbitrary: s) (simp_all add: poolOf_matchTarget)

lemma poolOf_matchTargets: "poolOf vs (matchTargets k vs ts)"
  by (simp add: matchTargets_def poolOf_foldl poolOf_initial)

text \<open>A mapping that is set stays as it is: a taken voxel is never selected again.\<close>

lemma matchTarget_keeps:
  assumes "poolOf vs s" and "i < length vs" and "snd s ! i = Some m"
  shows "snd (matchTarget k s target) ! i = Some m"
proof (cases "scan k target (fst s) 0 9999 None")
  case None
  with assms show ?thesis by (simp add: matchTarget_None)
next
  case (Some j)
  from scan_Some[OF Some] assms(1) have j: "j < length vs" "av_index (fst s ! j) = j"
    "\<not> av_taken (fst s ! j)"
    by (auto simp: poolOf_def)
  with assms have "j \<noteq> i" by (auto simp: poolOf_def)
  with assms j show ?thesis
    by (simp add: matchTarget_Some[OF Some])
qed

lemma foldl_keeps:
  "poolOf vs s \<Longrightarrow> i < length vs \<Longrightarrow> snd s ! i = Some m \<Longrightarrow>
   snd (foldl (matchTarget k) s ts) ! i = Some m"
  by (induction ts arbitrary: s) (simp_all add: poolOf_matchTarget matchTarget_keeps)

lemma matchTarget_sets:
  assumes "poolOf vs s" and "scan k target (fst s) 0 9999 None = Some j"
  shows "j < length vs \<and> snd (matchTarget k s target) ! j = Some (targetAssignment k target)"
proof -
  from scan_Some[OF assms(2)] assms(1) have j: "j < length vs" "av_index (fst s ! j) = j"
    by (auto simp: poolOf_def)
  with assms(1) show ?thesis
    by (simp add: matchTarget_Some[OF assms(2)] poolOf_def)
qed

lemma matchTargets_append:
  "matchTargets k vs (ts1 @ t # ts2) =
     foldl (matchTarget k) (matchTarget k (matchTargets k vs ts1) t) ts2"
  by (simp add: matchTargets_def)

lemma matchTargets_assigned:
  assumes "scan k t (fst (matchTargets k vs ts1)) 0 9999 None = Some j"
  shows "j < length vs \<and> snd (matchTargets k vs (ts1 @ t # ts2)) ! j = Some (targetAssignment k t)"
proof -
  have p: "poolOf vs (matchTargets k vs ts1)" by (rule poolOf_matchTargets)
  from matchTarget_sets[OF p assms]
  have j: "j < length vs"
    and s: "snd (matchTarget k (matchTargets k vs ts1) t) ! j = Some (targetAssignment k t)"
    by simp_all
  from foldl_keeps[OF poolOf_matchTarget[OF p] j s] j show ?thesis
    by (simp add: matchTargets_append)
qed

text \<open>Every mapping that is set came from one of the targets.\<close>

lemma matchTarget_source:
  "snd (matchTarget k s target) ! i = Some m \<Longrightarrow>
   snd s ! i = Some m \<or> m = targetAssignment k target"
proof (cases "scan k target (fst s) 0 9999 None")
  case None
  assume "snd (matchTarget k s target) ! i = Some m"
  with None show ?thesis by (simp add: matchTarget_None)
next
  case (Some j)
  assume "snd (matchTarget k s target) ! i = Some m"
  then show ?thesis
    by (cases "i = av_index (fst s ! j)"; cases "av_index (fst s ! j) < length (snd s)")
       (auto simp add: matchTarget_Some[OF Some] list_update_beyond)
qed

lemma foldl_source:
  "snd (foldl (matchTarget k) s ts) ! i = Some m \<Longrightarrow>
   snd s ! i = Some m \<or> (\<exists>t \<in> set ts. m = targetAssignment k t)"
proof (induction ts arbitrary: s)
  case Nil
  then show ?case by simp
next
  case (Cons t ts)
  from Cons.prems have "snd (foldl (matchTarget k) (matchTarget k s t) ts) ! i = Some m" by simp
  from Cons.IH[OF this] show ?case
    using matchTarget_source[of k s t i m] by auto
qed

lemma matchTargets_source:
  assumes "i < length vs" and "snd (matchTargets k vs ts) ! i = Some m"
  shows "\<exists>t \<in> set ts. m = targetAssignment k t"
  using foldl_source[of k "initialPool vs" ts i m] assms
  by (simp add: matchTargets_def initialPool_def)

lemma fillRubble_nth:
  assumes "length mp = length vs" and "i < length vs"
  shows "fillRubble vs mp ! i = (case mp ! i of None \<Rightarrow> rubbleOf (vs ! i) | Some t \<Rightarrow> t)"
  using assms by (simp add: fillRubble_def)

lemma fillRubble_length: "length mp = length vs \<Longrightarrow> length (fillRubble vs mp) = length vs"
  by (simp add: fillRubble_def)

subsection \<open>Counting the voxels that are taken\<close>

lemma byte_bound: "n mod 256 \<le> (255::nat)"
proof -
  have "n mod 256 < 256" by simp
  then show ?thesis by linarith
qed

lemma square_bound:
  fixes u w :: real
  assumes "\<bar>u\<bar> \<le> 1" and "0 \<le> w"
  shows "u * w * (u * w) \<le> w * w"
proof -
  have "u\<^sup>2 \<le> 1" using assms(1) by (simp add: abs_square_le_1)
  then have "u * u \<le> 1" by (simp add: power2_eq_square)
  moreover have "0 \<le> w * w" by simp
  ultimately have le: "u * u * (w * w) \<le> 1 * (w * w)" by (rule mult_right_mono)
  have eq: "u * w * (u * w) = u * u * (w * w)" by (simp add: mult_ac)
  show ?thesis unfolding eq using le by simp
qed

lemma SRGBToLinear_range:
  assumes "0 \<le> c" and "c \<le> 1"
  shows "0 \<le> SRGBToLinear c \<and> SRGBToLinear c \<le> 1"
proof -
  define u where "u = c * 0.9478672986 + 0.0521327014"
  have u: "0 \<le> u" "u \<le> 1" using assms unfolding u_def by simp_all
  have "u powr 2.4 \<le> 1" using u by (intro powr_le1) simp_all
  moreover have "0 \<le> u powr 2.4" by simp
  moreover have "c * 0.0773993808 \<le> 1" using assms by simp
  moreover have "0 \<le> c * 0.0773993808" using assms by simp
  ultimately show ?thesis unfolding SRGBToLinear_def u_def by simp
qed

lemma channel_valid:
  "0 \<le> SRGBToLinear (real (n mod 256) / 255) \<and> SRGBToLinear (real (n mod 256) / 255) \<le> 1"
  by (rule SRGBToLinear_range) (simp_all add: byte_bound)

lemma hexColor_valid: "validColor (hexColor h)"
  using channel_valid[of "h div 65536"] channel_valid[of "h div 256"] channel_valid[of h]
  by (simp add: validColor_def hexColor_def)

lemma getColorDist_valid:
  assumes "validColor c"
  shows "getColorDist c h < 1"
proof -
  define dr where "dr = c_r c - c_r (hexColor h)"
  define dg where "dg = c_g c - c_g (hexColor h)"
  define db where "db = c_b c - c_b (hexColor h)"
  have v2: "validColor (hexColor h)" by (rule hexColor_valid)
  have r: "\<bar>dr\<bar> \<le> 1" and g: "\<bar>dg\<bar> \<le> 1" and b: "\<bar>db\<bar> \<le> 1"
    using assms v2 by (auto simp: validColor_def dr_def dg_def db_def)
  have r2: "dr * (3 / 10) * (dr * (3 / 10)) \<le> 3 / 10 * (3 / 10)"
    by (rule square_bound[OF r]) simp
  have g2: "dg * (59 / 100) * (dg * (59 / 100)) \<le> 59 / 100 * (59 / 100)"
    by (rule square_bound[OF g]) simp
  have b2: "db * (11 / 100) * (db * (11 / 100)) \<le> 11 / 100 * (11 / 100)"
    by (rule square_bound[OF b]) simp
  have "dr * (3 / 10) * (dr * (3 / 10)) + dg * (59 / 100) * (dg * (59 / 100))
      + db * (11 / 100) * (db * (11 / 100)) < 1"
    using r2 g2 b2 by linarith
  then have "sqrt (dr * (3 / 10) * (dr * (3 / 10)) + dg * (59 / 100) * (dg * (59 / 100))
      + db * (11 / 100) * (db * (11 / 100))) < 1"
    by (simp only: real_sqrt_lt_1_iff)
  moreover have "getColorDist c h = sqrt (dr * (3 / 10) * (dr * (3 / 10)) + dg * (59 / 100) * (dg * (59 / 100))
      + db * (11 / 100) * (db * (11 / 100)))"
    by (simp add: getColorDist_def Let_def dr_def dg_def db_def)
  ultimately show ?thesis by (simp only:)
qed

lemma cost_valid: "validColor (av_color a) \<Longrightarrow> cost k target a < 9999"
  using getColorDist_valid[of "av_color a" "vd_color target"]
  by (simp add: cost_def penalty_def)

lemma scan_finds:
  assumes "a \<in> set av" and "\<not> av_taken a" and "validColor (av_color a)"
  shows "scan k target av 0 9999 None \<noteq> None"
proof
  assume "scan k target av 0 9999 None = None"
  from scan_None[OF this] assms(1,2) have "9999 \<le> cost k target a" by blast
  with cost_valid[OF assms(3), of k target] show False by simp
qed

lemma filter_update_count:
  "j < length xs \<Longrightarrow> \<not> P (xs ! j) \<Longrightarrow> P x \<Longrightarrow>
   length (filter P (xs[j := x])) = Suc (length (filter P xs))"
proof (induction xs arbitrary: j)
  case Nil
  then show ?case by simp
next
  case (Cons y ys)
  show ?case
  proof (cases j)
    case 0
    with Cons.prems show ?thesis by simp
  next
    case (Suc n)
    with Cons.prems have "n < length ys" "\<not> P (ys ! n)" by simp_all
    from Cons.IH[OF this Cons.prems(3)] Suc show ?thesis by simp
  qed
qed

lemma filter_count_pointwise:
  "length xs = length ys \<Longrightarrow> \<forall>i < length xs. P (xs ! i) \<longleftrightarrow> Q (ys ! i) \<Longrightarrow>
   length (filter P xs) = length (filter Q ys)"
proof (induction xs ys rule: list_induct2)
  case Nil
  then show ?case by simp
next
  case (Cons x xs y ys)
  have tl: "\<forall>i < length xs. P (xs ! i) \<longleftrightarrow> Q (ys ! i)"
  proof (intro allI impI)
    fix i assume "i < length xs"
    then have "Suc i < length (x # xs)" by simp
    with Cons.prems have "P ((x # xs) ! Suc i) \<longleftrightarrow> Q ((y # ys) ! Suc i)" by blast
    then show "P (xs ! i) \<longleftrightarrow> Q (ys ! i)" by simp
  qed
  have "0 < length (x # xs)" by simp
  with Cons.prems have "P ((x # xs) ! 0) \<longleftrightarrow> Q ((y # ys) ! 0)" by blast
  then have hd: "P x \<longleftrightarrow> Q y" by simp
  from Cons.IH[OF tl] hd show ?case by simp
qed

lemma taken_count_step:
  assumes "poolOf vs s" and "\<forall>v \<in> set vs. validColor (sv_color v)"
  shows "length (filter av_taken (fst (matchTarget k s target)))
       = min (length vs) (Suc (length (filter av_taken (fst s))))"
proof (cases "\<forall>a \<in> set (fst s). av_taken a")
  case True
  then have "filter av_taken (fst s) = fst s" by simp
  moreover have "matchTarget k s target = s"
    using scan_all_taken[OF True, of k target 0 9999 None] by (simp add: matchTarget_None)
  ultimately show ?thesis using assms(1) by (simp add: poolOf_def)
next
  case False
  then obtain a where a: "a \<in> set (fst s)" "\<not> av_taken a" by blast
  then obtain i where i: "i < length (fst s)" "fst s ! i = a" by (auto simp: in_set_conv_nth)
  with assms have "validColor (av_color a)" by (auto simp: poolOf_def)
  from scan_finds[OF a this, of k target]
  obtain j where j: "scan k target (fst s) 0 9999 None = Some j" by blast
  from scan_Some[OF j] have jj: "j < length (fst s)" "\<not> av_taken (fst s ! j)" by simp_all
  have "length (filter av_taken (fst s)) < length (fst s)"
    using a by (intro length_filter_less) auto
  then have "Suc (length (filter av_taken (fst s))) \<le> length vs"
    using assms(1) by (simp add: poolOf_def)
  moreover have "length (filter av_taken (fst (matchTarget k s target)))
      = Suc (length (filter av_taken (fst s)))"
    using jj by (simp add: matchTarget_Some[OF j] filter_update_count)
  ultimately show ?thesis by simp
qed

lemma taken_count_foldl:
  assumes "\<forall>v \<in> set vs. validColor (sv_color v)"
  shows "poolOf vs s \<Longrightarrow>
     length (filter av_taken (fst (foldl (matchTarget k) s ts)))
       = min (length vs) (length (filter av_taken (fst s)) + length ts)"
proof (induction ts arbitrary: s)
  case Nil
  have "length (filter av_taken (fst s)) \<le> length (fst s)" by simp
  with Nil show ?case by (simp add: poolOf_def)
next
  case (Cons t ts)
  from Cons.IH[OF poolOf_matchTarget[OF Cons.prems]] taken_count_step[OF Cons.prems assms, of k t]
  show ?case by simp
qed

lemma taken_count:
  assumes "\<forall>v \<in> set vs. validColor (sv_color v)"
  shows "length (filter av_taken (fst (matchTargets k vs ts))) = min (length vs) (length ts)"
proof -
  have "filter av_taken (fst (initialPool vs)) = []"
    by (auto simp add: initialPool_def filter_empty_conv)
  with taken_count_foldl[OF assms poolOf_initial, of k ts] show ?thesis
    by (simp add: matchTargets_def)
qed

lemma rubble_iff_untaken:
  assumes "i < length vs"
  shows "rt_isRubble (fillRubble vs (snd (matchTargets k vs ts)) ! i)
         \<longleftrightarrow> \<not> av_taken (fst (matchTargets k vs ts) ! i)"
proof -
  have p: "poolOf vs (matchTargets k vs ts)" by (rule poolOf_matchTargets)
  then have len: "length (snd (matchTargets k vs ts)) = length vs" by (simp add: poolOf_def)
  show ?thesis
    using p assms by (auto simp add: fillRubble_nth[OF len assms] poolOf_def rubbleOf_def split: option.splits)
qed

lemma non_rubble_count:
  assumes "\<forall>v \<in> set vs. validColor (sv_color v)"
  shows "length (filter (\<lambda>t. \<not> rt_isRubble t) (fillRubble vs (snd (matchTargets k vs ts))))
       = min (length vs) (length ts)"
proof -
  have p: "poolOf vs (matchTargets k vs ts)" by (rule poolOf_matchTargets)
  then have len: "length (fillRubble vs (snd (matchTargets k vs ts))) = length (fst (matchTargets k vs ts))"
    by (simp add: poolOf_def fillRubble_length)
  have "length (filter (\<lambda>t. \<not> rt_isRubble t) (fillRubble vs (snd (matchTargets k vs ts))))
      = length (filter av_taken (fst (matchTargets k vs ts)))"
    using p rubble_iff_untaken[of _ vs k ts]
    by (intro filter_count_pointwise[OF len]) (simp add: poolOf_def fillRubble_length)
  with taken_count[OF assms, of k ts] show ?thesis by simp
qed

lemma rubble_count:
  assumes "\<forall>v \<in> set vs. validColor (sv_color v)"
  shows "length (filter rt_isRubble (fillRubble vs (snd (matchTargets k vs ts))))
       = length vs - min (length vs) (length ts)"
proof -
  let ?rt = "fillRubble vs (snd (matchTargets k vs ts))"
  have "poolOf vs (matchTargets k vs ts)" by (rule poolOf_matchTargets)
  then have "length ?rt = length vs" by (simp add: poolOf_def fillRubble_length)
  moreover have "length (filter rt_isRubble ?rt) + length (filter (\<lambda>t. \<not> rt_isRubble t) ?rt) = length ?rt"
    by (rule sum_length_filter_compl)
  ultimately show ?thesis using non_rubble_count[OF assms, of k ts] by simp
qed

subsection \<open>What rebuild installs\<close>

lemma targetAssignment_eq:
  "targetAssignment k t =
     \<lparr>rt_x = vd_x t, rt_y = vd_y t, rt_z = vd_z t,
      rt_delay = max 0 ((vd_y t - FLOOR_Y k) / 15) * 800, rt_isRubble = False\<rparr>"
  by (simp add: targetAssignment_def Let_def)

lemma rebuild_fields:
  assumes "state e \<noteq> REBUILDING"
  shows "state (rebuild k now targetModel e) = REBUILDING"
    and "voxels (rebuild k now targetModel e) = voxels e"
    and "rebuildStartTime (rebuild k now targetModel e) = now"
    and "rebuildTargets (rebuild k now targetModel e)
          = fillRubble (voxels e) (snd (matchTargets k (voxels e) targetModel))"
  using assms by (simp_all add: rebuild_def)

lemma matchTargets_length: "length (snd (matchTargets k vs ts)) = length vs"
  using poolOf_matchTargets[of vs k ts] by (simp add: poolOf_def)

lemma rebuild_target_gets_voxel:
  assumes "scan k t (fst (matchTargets k vs ts1)) 0 9999 None = Some j"
  shows "j < length vs \<and> fillRubble vs (snd (matchTargets k vs (ts1 @ t # ts2))) ! j
           = targetAssignment k t"
proof -
  from matchTargets_assigned[OF assms, of ts2]
  have j: "j < length vs"
    and s: "snd (matchTargets k vs (ts1 @ t # ts2)) ! j = Some (targetAssignment k t)"
    by simp_all
  from j s show ?thesis
    by (simp add: fillRubble_nth[OF matchTargets_length j])
qed

lemma rebuild_exhausted:
  assumes "\<forall>a \<in> set (fst (matchTargets k vs ts1)). av_taken a"
  shows "matchTargets k vs (ts1 @ [t]) = matchTargets k vs ts1"
proof -
  have "scan k t (fst (matchTargets k vs ts1)) 0 9999 None = None"
    using assms by (rule scan_all_taken)
  then have "matchTarget k (matchTargets k vs ts1) t = matchTargets k vs ts1"
    by (rule matchTarget_None)
  then show ?thesis by (simp add: matchTargets_def)
qed

lemma rebuild_entry:
  assumes "i < length vs"
  shows "if av_taken (fst (matchTargets k vs ts) ! i)
         then \<exists>t \<in> set ts. fillRubble vs (snd (matchTargets k vs ts)) ! i = targetAssignment k t
         else fillRubble vs (snd (matchTargets k vs ts)) ! i = rubbleOf (vs ! i)"
proof -
  have p: "poolOf vs (matchTargets k vs ts)" by (rule poolOf_matchTargets)
  show ?thesis
  proof (cases "snd (matchTargets k vs ts) ! i")
    case None
    with p assms have "\<not> av_taken (fst (matchTargets k vs ts) ! i)" by (simp add: poolOf_def)
    with None assms show ?thesis by (simp add: fillRubble_nth[OF matchTargets_length assms])
  next
    case (Some m)
    with p assms have "av_taken (fst (matchTargets k vs ts) ! i)" by (simp add: poolOf_def)
    moreover from matchTargets_source[OF assms Some] obtain t where "t \<in> set ts" "m = targetAssignment k t"
      by blast
    ultimately show ?thesis using Some by (auto simp add: fillRubble_nth[OF matchTargets_length assms])
  qed
qed

text \<open>
  Claim C6. A call of rebuild with N voxels and M targets installs exactly one assignment
  per voxel. The voxel that a target's scan selects gets that target's position, the delay
  \<open>max(0, (target.y - FLOOR_Y) / 15) * 800\<close> and is not rubble, and later targets leave it
  so. A voxel that is never taken is rubble with delay 0 at its own position; a taken one
  carries one of the targets. A target that finds every voxel taken changes nothing. With
  voxel colours whose channels lie between 0 and 1, as THREE.Color keeps them, the number
  of assignments that are not rubble is the smaller of N and M; so 3 voxels and 1 target
  give 1 assignment that is not rubble and 2 that are rubble.
\<close>

theorem rebuild_assignment:
  assumes "state e \<noteq> REBUILDING"
  shows "state (rebuild k now targetModel e) = REBUILDING
     \<and> voxels (rebuild k now targetModel e) = voxels e
     \<and> length (rebuildTargets (rebuild k now targetModel e)) = length (voxels e)
     \<and> (\<forall>ts1 t ts2 j. targetModel = ts1 @ t # ts2
            \<and> scan k t (fst (matchTargets k (voxels e) ts1)) 0 9999 None = Some j \<longrightarrow>
          j < length (voxels e)
          \<and> rebuildTargets (rebuild k now targetModel e) ! j =
              \<lparr>rt_x = vd_x t, rt_y = vd_y t, rt_z = vd_z t,
               rt_delay = max 0 ((vd_y t - FLOOR_Y k) / 15) * 800, rt_isRubble = False\<rparr>)
     \<and> (\<forall>ts1 t ts2. targetModel = ts1 @ t # ts2
            \<and> (\<forall>a \<in> set (fst (matchTargets k (voxels e) ts1)). av_taken a) \<longrightarrow>
          matchTargets k (voxels e) (ts1 @ [t]) = matchTargets k (voxels e) ts1)
     \<and> (\<forall>i < length (voxels e).
          if av_taken (fst (matchTargets k (voxels e) targetModel) ! i)
          then \<exists>t \<in> set targetModel. rebuildTargets (rebuild k now targetModel e) ! i =
              \<lparr>rt_x = vd_x t, rt_y = vd_y t, rt_z = vd_z t,
               rt_delay = max 0 ((vd_y t - FLOOR_Y k) / 15) * 800, rt_isRubble = False\<rparr>
          else rebuildTargets (rebuild k now targetModel e) ! i =
              \<lparr>rt_x = sv_x (voxels e ! i), rt_y = sv_y (voxels e ! i), rt_z = sv_z (voxels e ! i),
               rt_delay = 0, rt_isRubble = True\<rparr>)
     \<and> ((\<forall>v \<in> set (voxels e). validColor (sv_color v)) \<longrightarrow>
          length (filter (\<lambda>t. \<not> rt_isRubble t) (rebuildTargets (rebuild k now targetModel e)))
            = min (length (voxels e)) (length targetModel)
        \<and> length (filter rt_isRubble (rebuildTargets (rebuild k now targetModel e)))
            = length (voxels e) - min (length (voxels e)) (length targetModel))
     \<and> ((\<forall>v \<in> set (voxels e). validColor (sv_color v)) \<and> length (voxels e) = 3
          \<and> length targetModel = 1 \<longrightarrow>
          length (filter (\<lambda>t. \<not> rt_isRubble t) (rebuildTargets (rebuild k now targetModel e))) = 1
        \<and> length (filter rt_isRubble (rebuildTargets (rebuild k now targetModel e))) = 2)"
proof -
  note f = rebuild_fields[OF assms, of k now targetModel]
  have c1: "length (rebuildTargets (rebuild k now targetModel e)) = length (voxels e)"
    by (simp add: f(4) fillRubble_length matchTargets_length)
  have c2: "\<forall>ts1 t ts2 j. targetModel = ts1 @ t # ts2
            \<and> scan k t (fst (matchTargets k (voxels e) ts1)) 0 9999 None = Some j \<longrightarrow>
          j < length (voxels e)
          \<and> rebuildTargets (rebuild k now targetModel e) ! j =
              \<lparr>rt_x = vd_x t, rt_y = vd_y t, rt_z = vd_z t,
               rt_delay = max 0 ((vd_y t - FLOOR_Y k) / 15) * 800, rt_isRubble = False\<rparr>"
  proof (intro allI impI)
    fix ts1 t ts2 j
    assume a: "targetModel = ts1 @ t # ts2
            \<and> scan k t (fst (matchTargets k (voxels e) ts1)) 0 9999 None = Some j"
    then have "scan k t (fst (matchTargets k (voxels e) ts1)) 0 9999 None = Some j" by simp
    from rebuild_target_gets_voxel[OF this, of ts2] a
    have "j < length (voxels e)"
      and "fillRubble (voxels e) (snd (matchTargets k (voxels e) targetModel)) ! j
             = targetAssignment k t"
      by simp_all
    then show "j < length (voxels e)
          \<and> rebuildTargets (rebuild k now targetModel e) ! j =
              \<lparr>rt_x = vd_x t, rt_y = vd_y t, rt_z = vd_z t,
               rt_delay = max 0 ((vd_y t - FLOOR_Y k) / 15) * 800, rt_isRubble = False\<rparr>"
      by (simp add: f(4) targetAssignment_eq)
  qed
  have c3: "\<forall>ts1 t ts2. targetModel = ts1 @ t # ts2
            \<and> (\<forall>a \<in> set (fst (matchTargets k (voxels e) ts1)). av_taken a) \<longrightarrow>
          matchTargets k (voxels e) (ts1 @ [t]) = matchTargets k (voxels e) ts1"
    using rebuild_exhausted by blast
  have c4: "\<forall>i < length (voxels e).
          if av_taken (fst (matchTargets k (voxels e) targetModel) ! i)
          then \<exists>t \<in> set targetModel. rebuildTargets (rebuild k now targetModel e) ! i =
              \<lparr>rt_x = vd_x t, rt_y = vd_y t, rt_z = vd_z t,
               rt_delay = max 0 ((vd_y t - FLOOR_Y k) / 15) * 800, rt_isRubble = False\<rparr>
          else rebuildTargets (rebuild k now targetModel e) ! i =
              \<lparr>rt_x = sv_x (voxels e ! i), rt_y = sv_y (voxels e ! i), rt_z = sv_z (voxels e ! i),
               rt_delay = 0, rt_isRubble = True\<rparr>"
  proof (intro allI impI)
    fix i assume "i < length (voxels e)"
    from rebuild_entry[OF this, of k targetModel]
    show "if av_taken (fst (matchTargets k (voxels e) targetModel) ! i)
          then \<exists>t \<in> set targetModel. rebuildTargets (rebuild k now targetModel e) ! i =
              \<lparr>rt_x = vd_x t, rt_y = vd_y t, rt_z = vd_z t,
               rt_delay = max 0 ((vd_y t - FLOOR_Y k) / 15) * 800, rt_isRubble = False\<rparr>
          else rebuildTargets (rebuild k now targetModel e) ! i =
              \<lparr>rt_x = sv_x (voxels e ! i), rt_y = sv_y (voxels e ! i), rt_z = sv_z (voxels e ! i),
               rt_delay = 0, rt_isRubble = True\<rparr>"
      by (simp add: f(4) targetAssignment_eq[symmetric] rubbleOf_def split: if_splits)
  qed
  have c5: "(\<forall>v \<in> set (voxels e). validColor (sv_color v)) \<longrightarrow>
          length (filter (\<lambda>t. \<not> rt_isRubble t) (rebuildTargets (rebuild k now targetModel e)))
            = min (length (voxels e)) (length targetModel)
        \<and> length (filter rt_isRubble (rebuildTargets (rebuild k now targetModel e)))
            = length (voxels e) - min (length (voxels e)) (length targetModel)"
    by (simp add: f(4) non_rubble_count rubble_count)
  have c6: "(\<forall>v \<in> set (voxels e). validColor (sv_color v)) \<and> length (voxels e) = 3
          \<and> length targetModel = 1 \<longrightarrow>
          length (filter (\<lambda>t. \<not> rt_isRubble t) (rebuildTargets (rebuild k now targetModel e))) = 1
        \<and> length (filter rt_isRubble (rebuildTargets (rebuild k now targetModel e))) = 2"
    by (simp add: f(4) non_rubble_count rubble_count)
  from f(1) f(2) c1 c2 c3 c4 c5 c6 show ?thesis by (intro conjI)
qed

theorem rebuild_assignment_witness:
  "state (engineOf [voxelAt 0 1 (- 11) 0 (hexColor 0x4A3728), voxelAt 1 2 (- 11) 0 (hexColor 0xF0F0F0),
                    voxelAt 2 3 (- 11) 0 (hexColor 0x228B22)] DISMANTLING) \<noteq> REBUILDING
   \<and> length (filter (\<lambda>t. \<not> rt_isRubble t)
        (rebuildTargets (rebuild sampleConstants 0 [pointAt 0 3 0 0xF0F0F0]
           (engineOf [voxelAt 0 1 (- 11) 0 (hexColor 0x4A3728), voxelAt 1 2 (- 11) 0 (hexColor 0xF0F0F0),
                      voxelAt 2 3 (- 11) 0 (hexColor 0x228B22)] DISMANTLING)))) = 1
   \<and> length (filter rt_isRubble
        (rebuildTargets (rebuild sampleConstants 0 [pointAt 0 3 0 0xF0F0F0]
           (engineOf [voxelAt 0 1 (- 11) 0 (hexColor 0x4A3728), voxelAt 1 2 (- 11) 0 (hexColor 0xF0F0F0),
                      voxelAt 2 3 (- 11) 0 (hexColor 0x228B22)] DISMANTLING)))) = 2"
proof -
  let ?e = "engineOf [voxelAt 0 1 (- 11) 0 (hexColor 0x4A3728), voxelAt 1 2 (- 11) 0 (hexColor 0xF0F0F0),
                      voxelAt 2 3 (- 11) 0 (hexColor 0x228B22)] DISMANTLING"
  have st: "state ?e \<noteq> REBUILDING" by (simp add: engineOf_def)
  have valid: "\<forall>v \<in> set (voxels ?e). validColor (sv_color v)"
    by (simp add: engineOf_def voxelAt_def hexColor_valid)
  have len: "length (voxels ?e) = 3" "length [pointAt 0 3 0 0xF0F0F0] = 1"
    by (simp_all add: engineOf_def)
  from rebuild_assignment[OF st, of sampleConstants 0 "[pointAt 0 3 0 0xF0F0F0]"]
  have "(\<forall>v \<in> set (voxels ?e). validColor (sv_color v)) \<and> length (voxels ?e) = 3
          \<and> length [pointAt 0 3 0 0xF0F0F0] = 1 \<longrightarrow>
          length (filter (\<lambda>t. \<not> rt_isRubble t)
             (rebuildTargets (rebuild sampleConstants 0 [pointAt 0 3 0 0xF0F0F0] ?e))) = 1
        \<and> length (filter rt_isRubble
             (rebuildTargets (rebuild sampleConstants 0 [pointAt 0 3 0 0xF0F0F0] ?e))) = 2"
    by (elim conjE)
  with valid len st show ?thesis by blast
qed

section \<open>The rebuilding tick\<close>

lemma animateAll_Inr:
  "length ts = length vs \<Longrightarrow>
   animateAll el ts vs =
     Inr (map (\<lambda>(t, v). fst (animateVoxel el t v)) (zip ts vs),
          \<forall>i < length vs. snd (animateVoxel el (ts ! i) (vs ! i)))"
proof (induction ts vs rule: list_induct2)
  case Nil
  then show ?case by simp
next
  case (Cons t ts v vs)
  have "(\<forall>i < Suc (length vs). snd (animateVoxel el ((t # ts) ! i) ((v # vs) ! i)))
      \<longleftrightarrow> (snd (animateVoxel el t v) \<and> (\<forall>i < length vs. snd (animateVoxel el (ts ! i) (vs ! i))))"
    by (auto simp: less_Suc_eq_0_disj)
  with Cons show ?case by (simp add: case_prod_beta)
qed

lemma rebuilding_tick:
  assumes "state e = REBUILDING" and "length (rebuildTargets e) = length (voxels e)"
  shows "updatePhysics k now e =
     Inr (e\<lparr>voxels := map (\<lambda>(t, v). fst (animateVoxel (now - rebuildStartTime e) t v))
                        (zip (rebuildTargets e) (voxels e)),
            state := (if \<forall>i < length (voxels e).
                           snd (animateVoxel (now - rebuildStartTime e) (rebuildTargets e ! i) (voxels e ! i))
                      then STABLE else REBUILDING)\<rparr>)"
  using assms by (simp add: updatePhysics_def animateAll_Inr Let_def)

lemma animateVoxel_rubble: "rt_isRubble t \<Longrightarrow> animateVoxel el t v = (v, True)"
  by (simp add: animateVoxel_def)

lemma fillRubble_all_rubble:
  "fillRubble vs (replicate (length vs) None) = map rubbleOf vs"
  by (induction vs) (simp_all add: fillRubble_def)

lemma matchTargets_Nil: "snd (matchTargets k vs []) = replicate (length vs) None"
  by (simp add: matchTargets_def initialPool_def)

text \<open>
  Claim C10. If rebuild leaves only rubble assignments, as it does for an empty target list
  and for an empty voxel array, the first tick in the state Rebuilding takes the engine
  to Stable.
\<close>

theorem rubble_only_rebuild_is_stable:
  assumes "state e \<noteq> REBUILDING"
    and "targetModel = [] \<or> voxels e = []
         \<or> (\<forall>t \<in> set (rebuildTargets (rebuild k now targetModel e)). rt_isRubble t)"
  shows "state (rebuild k now targetModel e) = REBUILDING
     \<and> (\<forall>t \<in> set (rebuildTargets (rebuild k now targetModel e)). rt_isRubble t)
     \<and> (\<exists>e'. updatePhysics k now' (rebuild k now targetModel e) = Inr e'
            \<and> state e' = STABLE \<and> voxels e' = voxels e)"
proof -
  let ?e1 = "rebuild k now targetModel e"
  note f = rebuild_fields[OF assms(1), of k now targetModel]
  have len: "length (rebuildTargets ?e1) = length (voxels ?e1)"
    by (simp add: f(2,4) fillRubble_length matchTargets_length)
  have rub: "\<forall>t \<in> set (rebuildTargets ?e1). rt_isRubble t"
    using assms(2)
  proof (elim disjE)
    assume nil: "targetModel = []"
    have "rebuildTargets (rebuild k now [] e) = map rubbleOf (voxels e)"
      by (simp add: rebuild_fields(4)[OF assms(1)] matchTargets_Nil fillRubble_all_rubble)
    then show ?thesis unfolding nil by (simp add: rubbleOf_def)
  next
    assume "voxels e = []"
    with len f(2) show ?thesis by simp
  qed
  have fix_all: "map (\<lambda>(t, v). fst (animateVoxel el t v)) (zip (rebuildTargets ?e1) (voxels ?e1)) = voxels ?e1"
    for el
  proof (rule nth_equalityI)
    show "length (map (\<lambda>(t, v). fst (animateVoxel el t v)) (zip (rebuildTargets ?e1) (voxels ?e1)))
        = length (voxels ?e1)"
      using len by simp
  next
    fix i assume "i < length (map (\<lambda>(t, v). fst (animateVoxel el t v)) (zip (rebuildTargets ?e1) (voxels ?e1)))"
    then have i: "i < length (voxels ?e1)" "i < length (rebuildTargets ?e1)" using len by simp_all
    then have "rt_isRubble (rebuildTargets ?e1 ! i)" using rub by simp
    then show "map (\<lambda>(t, v). fst (animateVoxel el t v)) (zip (rebuildTargets ?e1) (voxels ?e1)) ! i
        = voxels ?e1 ! i"
      using i by (simp add: animateVoxel_rubble)
  qed
  have done_all: "\<forall>i < length (voxels ?e1). snd (animateVoxel el (rebuildTargets ?e1 ! i) (voxels ?e1 ! i))"
    for el
    using rub len by (simp add: animateVoxel_rubble)
  have "updatePhysics k now' ?e1 = Inr (?e1\<lparr>voxels := voxels ?e1, state := STABLE\<rparr>)"
    using rebuilding_tick[OF f(1) len, of k now'] done_all fix_all by simp
  then have "\<exists>e'. updatePhysics k now' ?e1 = Inr e' \<and> state e' = STABLE \<and> voxels e' = voxels e"
    by (simp add: f(2))
  with f(1) rub show ?thesis by simp
qed

theorem rubble_only_rebuild_is_stable_witness:
  "state (engineOf [voxelAt 0 1 (- 11) 0 (hexColor 0x4A3728), voxelAt 1 2 (- 11) 0 (hexColor 0xF0F0F0)]
            DISMANTLING) \<noteq> REBUILDING
   \<and> (\<exists>e'. updatePhysics sampleConstants 16
          (rebuild sampleConstants 0 []
             (engineOf [voxelAt 0 1 (- 11) 0 (hexColor 0x4A3728), voxelAt 1 2 (- 11) 0 (hexColor 0xF0F0F0)]
                DISMANTLING)) = Inr e'
        \<and> state e' = STABLE)"
  using rubble_only_rebuild_is_stable [of
      "engineOf [voxelAt 0 1 (- 11) 0 (hexColor 0x4A3728), voxelAt 1 2 (- 11) 0 (hexColor 0xF0F0F0)] DISMANTLING"
      "[]" sampleConstants 0 16]
  by (auto simp add: engineOf_def)

section \<open>The easing step in double arithmetic\<close>

subsection \<open>Rounding to a double\<close>

lemma ulp_pos: "0 < ulp x"
  by (simp add: ulp_def)

lemma roundHalfEven_error: "\<bar>of_int (roundHalfEven y) - y\<bar> \<le> 1 / 2"
proof -
  define f where "f = \<lfloor>y\<rfloor>"
  have a: "of_int f \<le> y" unfolding f_def by (rule of_int_floor_le)
  have b: "y < of_int f + 1" unfolding f_def by linarith
  show ?thesis
    unfolding roundHalfEven_def Let_def f_def[symmetric] using a b by auto
qed

lemma toDouble_error_ulp: "\<bar>toDouble x - x\<bar> \<le> ulp x / 2"
proof (cases "x = 0")
  case True
  then show ?thesis using ulp_pos[of x] by (simp add: toDouble_def)
next
  case False
  define U where "U = ulp x"
  define R :: real where "R = of_int (roundHalfEven (x / U))"
  have U: "0 < U" unfolding U_def by (rule ulp_pos)
  have "\<bar>R - x / U\<bar> \<le> 1 / 2" unfolding R_def by (rule roundHalfEven_error)
  then have "\<bar>R - x / U\<bar> * U \<le> 1 / 2 * U" using U by (intro mult_right_mono) simp_all
  moreover have "\<bar>R - x / U\<bar> * U = \<bar>R * U - x\<bar>"
  proof -
    have "\<bar>R - x / U\<bar> * U = \<bar>R - x / U\<bar> * \<bar>U\<bar>" using U by simp
    also have "\<dots> = \<bar>(R - x / U) * U\<bar>" by (simp only: abs_mult)
    also have "(R - x / U) * U = R * U - x" using U by (simp add: field_simps)
    finally show ?thesis .
  qed
  ultimately have "\<bar>R * U - x\<bar> \<le> U / 2" by simp
  moreover have "toDouble x = R * U" using False by (simp add: toDouble_def R_def U_def)
  ultimately show ?thesis unfolding U_def by simp
qed

lemma ulp_bound: "x \<noteq> 0 \<Longrightarrow> ulp x / 2 \<le> \<bar>x\<bar> / 2 ^ 53 + 1 / 2 ^ 100"
proof -
  assume False: "x \<noteq> 0"
  define e where "e = \<lfloor>log 2 \<bar>x\<bar>\<rfloor>"
  have ax: "0 < \<bar>x\<bar>" using False by simp
  show ?thesis
  proof (cases "- 1022 \<le> e")
    case True
    have "of_int e \<le> log 2 \<bar>x\<bar>" unfolding e_def by (rule of_int_floor_le)
    then have le: "2 powr (of_int e) \<le> \<bar>x\<bar>" using ax by (simp add: le_log_iff)
    have m: "max e (- 1022) = e" using True by simp
    have "ulp x = 2 powr (of_int (max e (- 1022)) - 52)" by (simp only: ulp_def e_def)
    then have "ulp x = 2 powr (of_int e - 52)" by (simp only: m)
    also have "\<dots> = 2 powr (of_int e) / 2 ^ 52"
      using powr_realpow[of 2 52] by (simp add: powr_diff)
    finally have "ulp x / 2 = 2 powr (of_int e) / 2 ^ 53" by simp
    also have "\<dots> \<le> \<bar>x\<bar> / 2 ^ 53" using le by (simp add: divide_right_mono)
    finally show ?thesis by simp
  next
    case F2: False
    then have m: "max e (- 1022) = - 1022" by simp
    have "ulp x = 2 powr (of_int (max e (- 1022)) - 52)" by (simp only: ulp_def e_def)
    then have "ulp x = 2 powr (- 1074)" by (simp add: m)
    also have "\<dots> \<le> 2 powr (- 100)" by (rule powr_mono) simp_all
    also have "\<dots> = 1 / 2 ^ 100" 
      using powr_realpow[of 2 100] by (simp add: powr_minus_divide)
    finally have "ulp x / 2 \<le> 1 / 2 ^ 100" by simp
    moreover have "0 \<le> \<bar>x\<bar> / 2 ^ 53" by simp
    ultimately show ?thesis by linarith
  qed
qed

lemma toDouble_error: "\<bar>toDouble x - x\<bar> \<le> \<bar>x\<bar> / 2 ^ 53 + 1 / 2 ^ 100"
proof (cases "x = 0")
  case True
  then show ?thesis by (simp add: toDouble_def)
next
  case False
  with toDouble_error_ulp[of x] ulp_bound[of x] show ?thesis by linarith
qed


subsection \<open>One easing step along an axis\<close>

lemma fl_close: "\<bar>x\<bar> \<le> K \<Longrightarrow> \<bar>toDouble x - x\<bar> \<le> K / 2 ^ 53 + 1 / 2 ^ 100"
proof -
  assume "\<bar>x\<bar> \<le> K"
  then have "\<bar>x\<bar> / 2 ^ 53 \<le> K / 2 ^ 53" by (simp add: divide_right_mono)
  with toDouble_error[of x] show ?thesis by linarith
qed

lemma fl_within:
  assumes "\<bar>x\<bar> \<le> K" and "K / 2 ^ 53 + 1 / 2 ^ 100 \<le> E"
  shows "\<bar>toDouble x - x\<bar> \<le> E"
  using fl_close[OF assms(1)] assms(2) by linarith

lemma fl_small: "\<bar>x\<bar> \<le> 1 \<Longrightarrow> \<bar>toDouble x - x\<bar> \<le> 1 / 10 ^ 9"
  by (rule fl_within[of x 1]) simp_all

lemma speed_bounds: "1199 / 10000 \<le> toDouble 0.12" "toDouble 0.12 \<le> 1201 / 10000"
proof -
  define c where "c = toDouble 0.12"
  have "\<bar>toDouble 0.12 - 0.12\<bar> \<le> 1 / 10 ^ 9" by (rule fl_small) simp
  then have "\<bar>c - 3 / 25\<bar> \<le> 1 / 1000000000" unfolding c_def by simp
  then have "1199 / 10000 \<le> c" "c \<le> 1201 / 10000" by linarith+
  then show "1199 / 10000 \<le> toDouble 0.12" "toDouble 0.12 \<le> 1201 / 10000"
    unfolding c_def by simp_all
qed

lemma threshold_low: "9999 / 1000000 \<le> toDouble 0.01"
proof -
  define c where "c = toDouble 0.01"
  have "\<bar>toDouble 0.01 - 0.01\<bar> \<le> 1 / 10 ^ 9" by (rule fl_small) simp
  then have "\<bar>c - 1 / 100\<bar> \<le> 1 / 1000000000" unfolding c_def by simp
  then have "9999 / 1000000 \<le> c" by linarith
  then show ?thesis unfolding c_def by simp
qed

lemma ease_step:
  assumes "\<bar>a\<bar> \<le> 2 ^ 40" and "\<bar>a - p\<bar> \<le> 2 ^ 41 + 1"
  shows "\<bar>(a - dadd p (dmul (dsub a p) (toDouble 0.12))) - (1 - toDouble 0.12) * (a - p)\<bar> \<le> 2 / 1000"
proof -
  define c where "c = toDouble 0.12"
  define d where "d = a - p"
  define a1 where "a1 = toDouble d"
  define b where "b = toDouble (a1 * c)"
  define x' where "x' = toDouble (p + b)"
  define e1 where "e1 = a1 - d"
  define e2 where "e2 = b - a1 * c"
  define e3 where "e3 = x' - (p + b)"
  have c: "0 \<le> c" "c \<le> 1201 / 10000" using speed_bounds unfolding c_def by simp_all
  have d: "\<bar>d\<bar> \<le> 2 ^ 42" using assms(2) unfolding d_def by simp
  have e1: "\<bar>e1\<bar> \<le> 1 / 2000"
    unfolding e1_def a1_def using d by (rule fl_within) simp
  have "\<bar>a1\<bar> \<le> \<bar>d\<bar> + \<bar>e1\<bar>" unfolding e1_def by linarith
  with d e1 have a1: "\<bar>a1\<bar> \<le> 2 ^ 43" by simp
  have "\<bar>a1 * c\<bar> = \<bar>a1\<bar> * c" using c(1) by (simp add: abs_mult)
  also have "\<dots> \<le> 2 ^ 43 * (1201 / 10000)" using a1 c by (intro mult_mono) simp_all
  also have "\<dots> \<le> 2 ^ 40" by simp
  finally have m: "\<bar>a1 * c\<bar> \<le> 2 ^ 40" .
  have e2: "\<bar>e2\<bar> \<le> 1 / 8000"
    unfolding e2_def b_def using m by (rule fl_within) simp
  have "\<bar>b\<bar> \<le> \<bar>a1 * c\<bar> + \<bar>e2\<bar>" unfolding e2_def by linarith
  with m e2 have b: "\<bar>b\<bar> \<le> 2 ^ 41" by simp
  have "\<bar>p\<bar> \<le> \<bar>a\<bar> + \<bar>a - p\<bar>" by linarith
  with assms have p: "\<bar>p\<bar> \<le> 2 ^ 42" by simp
  have "\<bar>p + b\<bar> \<le> \<bar>p\<bar> + \<bar>b\<bar>" by linarith
  with p b have s: "\<bar>p + b\<bar> \<le> 2 ^ 43" by simp
  have e3: "\<bar>e3\<bar> \<le> 1 / 1000"
    unfolding e3_def x'_def using s by (rule fl_within) simp
  have "\<bar>c * e1\<bar> = c * \<bar>e1\<bar>" using c(1) by (simp add: abs_mult)
  also have "\<dots> \<le> 1 * \<bar>e1\<bar>" using c by (intro mult_right_mono) simp_all
  finally have ce1: "\<bar>c * e1\<bar> \<le> \<bar>e1\<bar>" by simp
  have eq: "(a - x') - (1 - c) * d = - (c * e1) - e2 - e3"
    unfolding e1_def e2_def e3_def d_def by (simp add: algebra_simps)
  have "\<bar>(a - x') - (1 - c) * d\<bar> \<le> \<bar>c * e1\<bar> + \<bar>e2\<bar> + \<bar>e3\<bar>"
    unfolding eq by linarith
  also have "\<dots> \<le> \<bar>e1\<bar> + \<bar>e2\<bar> + \<bar>e3\<bar>" using ce1 by simp
  also have "\<dots> \<le> 2 / 1000" using e1 e2 e3 by linarith
  finally show ?thesis
    unfolding x'_def b_def a1_def d_def c_def dadd_def dmul_def dsub_def .
qed

lemma ease_bound:
  assumes "\<bar>a\<bar> \<le> 2 ^ 40" and "\<bar>a - p\<bar> \<le> 2 ^ 41 + 1"
  shows "\<bar>a - dadd p (dmul (dsub a p) (toDouble 0.12))\<bar> \<le> 8801 / 10000 * \<bar>a - p\<bar> + 2 / 1000"
proof -
  define c where "c = toDouble 0.12"
  define x' where "x' = dadd p (dmul (dsub a p) (toDouble 0.12))"
  have c: "0 \<le> 1 - c" "1 - c \<le> 8801 / 10000" using speed_bounds unfolding c_def by simp_all
  have "\<bar>(1 - c) * (a - p)\<bar> = (1 - c) * \<bar>a - p\<bar>" using c(1) by (simp add: abs_mult)
  also have "\<dots> \<le> 8801 / 10000 * \<bar>a - p\<bar>" using c by (intro mult_right_mono) simp_all
  finally have m: "\<bar>(1 - c) * (a - p)\<bar> \<le> 8801 / 10000 * \<bar>a - p\<bar>" .
  have "\<bar>(a - x') - (1 - c) * (a - p)\<bar> \<le> 2 / 1000"
    unfolding x'_def c_def using assms by (rule ease_step)
  with m have "\<bar>a - x'\<bar> \<le> 8801 / 10000 * \<bar>a - p\<bar> + 2 / 1000" by linarith
  then show ?thesis unfolding x'_def .
qed


subsection \<open>The arrival test\<close>

lemma small_of_square:
  fixes d :: real
  assumes "d\<^sup>2 \<le> 1 / 100"
  shows "\<bar>d\<bar> \<le> 1 / 10"
proof -
  have "d\<^sup>2 \<le> (1 / 10)\<^sup>2" using assms by (simp add: power2_eq_square)
  then have "\<bar>d\<bar> \<le> \<bar>1 / 10 :: real\<bar>" by (simp only: abs_le_square_iff)
  then show ?thesis by simp
qed

lemma square_computed:
  fixes d :: real
  assumes "d\<^sup>2 \<le> 1 / 100"
  shows "\<bar>dsquare (toDouble d) - d\<^sup>2\<bar> \<le> 2 / 10 ^ 9"
proof -
  define g where "g = toDouble d"
  define h where "h = toDouble (g * g)"
  have d: "\<bar>d\<bar> \<le> 1 / 10" using assms by (rule small_of_square)
  then have "\<bar>d\<bar> \<le> 1" by simp
  then have e1: "\<bar>g - d\<bar> \<le> 1 / 10 ^ 9" unfolding g_def by (rule fl_small)
  have "\<bar>g + d\<bar> \<le> \<bar>g - d\<bar> + 2 * \<bar>d\<bar>" by linarith
  with e1 d have sum: "\<bar>g + d\<bar> \<le> 1" by simp
  have "g * g - d\<^sup>2 = (g - d) * (g + d)" by (simp add: power2_eq_square algebra_simps)
  then have "\<bar>g * g - d\<^sup>2\<bar> = \<bar>g - d\<bar> * \<bar>g + d\<bar>" by (simp add: abs_mult)
  also have "\<dots> \<le> 1 / 10 ^ 9 * 1" using e1 sum by (intro mult_mono) simp_all
  finally have e2: "\<bar>g * g - d\<^sup>2\<bar> \<le> 1 / 10 ^ 9" by simp
  have "0 \<le> d\<^sup>2" by simp
  then have "\<bar>g * g\<bar> \<le> \<bar>g * g - d\<^sup>2\<bar> + d\<^sup>2" by linarith
  with e2 assms have "\<bar>g * g\<bar> \<le> 1" by simp
  then have e3: "\<bar>h - g * g\<bar> \<le> 1 / 10 ^ 9" unfolding h_def by (rule fl_small)
  have "\<bar>h - d\<^sup>2\<bar> \<le> \<bar>h - g * g\<bar> + \<bar>g * g - d\<^sup>2\<bar>" by linarith
  with e2 e3 have "\<bar>h - d\<^sup>2\<bar> \<le> 2 / 10 ^ 9" by simp
  then show ?thesis unfolding h_def g_def dsquare_def .
qed

lemma arrival_check:
  fixes dx dy dz :: real
  assumes "dx\<^sup>2 + dy\<^sup>2 + dz\<^sup>2 \<le> 99 / 10000"
  shows "\<not> dadd (dadd (dsquare (toDouble dx)) (dsquare (toDouble dy))) (dsquare (toDouble dz))
            > toDouble 0.01"
proof -
  define hx where "hx = dsquare (toDouble dx)"
  define hy where "hy = dsquare (toDouble dy)"
  define hz where "hz = dsquare (toDouble dz)"
  define s1 where "s1 = toDouble (hx + hy)"
  define s2 where "s2 = toDouble (s1 + hz)"
  define X where "X = dx\<^sup>2"
  define Y where "Y = dy\<^sup>2"
  define Z where "Z = dz\<^sup>2"
  have nn: "0 \<le> X" "0 \<le> Y" "0 \<le> Z" unfolding X_def Y_def Z_def by simp_all
  have sum: "X + Y + Z \<le> 99 / 10000" using assms unfolding X_def Y_def Z_def .
  have "X \<le> 1 / 100" "Y \<le> 1 / 100" "Z \<le> 1 / 100" using nn sum by linarith+
  then have x: "\<bar>hx - X\<bar> \<le> 2 / 10 ^ 9" and y: "\<bar>hy - Y\<bar> \<le> 2 / 10 ^ 9"
    and z: "\<bar>hz - Z\<bar> \<le> 2 / 10 ^ 9"
    unfolding hx_def hy_def hz_def X_def Y_def Z_def by (simp_all only: square_computed)
  have x': "\<bar>hx - X\<bar> \<le> 2 / 1000000000" using x by simp
  have y': "\<bar>hy - Y\<bar> \<le> 2 / 1000000000" using y by simp
  have z': "\<bar>hz - Z\<bar> \<le> 2 / 1000000000" using z by simp
  have "\<bar>hx + hy\<bar> \<le> 1" using x' y' nn sum by linarith
  then have "\<bar>s1 - (hx + hy)\<bar> \<le> 1 / 10 ^ 9" unfolding s1_def by (rule fl_small)
  then have a: "\<bar>s1 - (hx + hy)\<bar> \<le> 1 / 1000000000" by simp
  have "\<bar>s1 + hz\<bar> \<le> 1" using a x' y' z' nn sum by linarith
  then have "\<bar>s2 - (s1 + hz)\<bar> \<le> 1 / 10 ^ 9" unfolding s2_def by (rule fl_small)
  then have b: "\<bar>s2 - (s1 + hz)\<bar> \<le> 1 / 1000000000" by simp
  have "s2 \<le> 9999 / 1000000" using a b x' y' z' sum by linarith
  with threshold_low have "\<not> s2 > toDouble 0.01" by linarith
  then show ?thesis unfolding s2_def s1_def hx_def hy_def hz_def dadd_def .
qed


subsection \<open>One voxel on its way to the target\<close>

lemma eased_square:
  fixes d d' :: real
  assumes "\<bar>d'\<bar> \<le> 8801 / 10000 * \<bar>d\<bar> + 2 / 1000"
  shows "d'\<^sup>2 \<le> 8 / 10 * d\<^sup>2 + 2 / 10000"
proof -
  define x where "x = \<bar>d\<bar>"
  define y where "y = \<bar>d'\<bar>"
  have x: "0 \<le> x" and y: "0 \<le> y" unfolding x_def y_def by simp_all
  have le: "y \<le> 8801 / 10000 * x + 2 / 1000" using assms unfolding x_def y_def .
  have "y\<^sup>2 \<le> (8801 / 10000 * x + 2 / 1000)\<^sup>2" using le y by (rule power_mono)
  also have "\<dots> = 77457601 / 100000000 * x\<^sup>2 + 35204 / 10000000 * x + 4 / 1000000"
    by (simp add: power2_eq_square algebra_simps)
  finally have a: "y\<^sup>2 \<le> 77457601 / 100000000 * x\<^sup>2 + 35204 / 10000000 * x + 4 / 1000000" .
  have "0 \<le> (x - 1 / 10)\<^sup>2" by simp
  also have "(x - 1 / 10)\<^sup>2 = x\<^sup>2 - 2 / 10 * x + 1 / 100"
    by (simp add: power2_eq_square algebra_simps)
  finally have b: "x \<le> 5 * x\<^sup>2 + 5 / 100" by simp
  define X where "X = x\<^sup>2"
  define Y where "Y = y\<^sup>2"
  from a b have "Y \<le> 77457601 / 100000000 * X + 35204 / 10000000 * x + 4 / 1000000"
    and "x \<le> 5 * X + 5 / 100" and "0 \<le> X" unfolding X_def Y_def by simp_all
  then have "Y \<le> 8 / 10 * X + 2 / 10000" by argo
  then show ?thesis unfolding X_def Y_def x_def y_def by simp
qed

lemma scale_bound:
  fixes x y r :: real
  assumes "y \<le> 8801 / 10000 * x + 2 / 1000" and "x \<le> r"
  shows "y \<le> 8801 / 10000 * r + 2 / 1000"
proof -
  have "8801 / 10000 * x \<le> 8801 / 10000 * r" using assms(2) by simp
  with assms(1) show ?thesis by linarith
qed

lemma animateVoxel_unfold:
  assumes "\<not> rt_isRubble t" and "rt_delay t \<le> el"
    and "x' = dadd (sv_x v) (dmul (dsub (rt_x t) (sv_x v)) (toDouble 0.12))"
    and "y' = dadd (sv_y v) (dmul (dsub (rt_y t) (sv_y v)) (toDouble 0.12))"
    and "z' = dadd (sv_z v) (dmul (dsub (rt_z t) (sv_z v)) (toDouble 0.12))"
  shows "animateVoxel el t v =
     (if dadd (dadd (dsquare (dsub (rt_x t) x')) (dsquare (dsub (rt_y t) y')))
              (dsquare (dsub (rt_z t) z')) > toDouble 0.01
      then (v\<lparr>sv_x := x', sv_y := y', sv_z := z',
              sv_rx := dadd (sv_rx v) (dmul (dsub 0 (sv_rx v)) (toDouble 0.12)),
              sv_ry := dadd (sv_ry v) (dmul (dsub 0 (sv_ry v)) (toDouble 0.12)),
              sv_rz := dadd (sv_rz v) (dmul (dsub 0 (sv_rz v)) (toDouble 0.12))\<rparr>, False)
      else (v\<lparr>sv_x := rt_x t, sv_y := rt_y t, sv_z := rt_z t,
              sv_rx := 0, sv_ry := 0, sv_rz := 0\<rparr>, True))"
  using assms by (simp add: animateVoxel_def Let_def)

lemma animateVoxel_done_snapped:
  assumes "\<not> rt_isRubble t" and "snd (animateVoxel el t v)"
  shows "snapped t (fst (animateVoxel el t v))"
proof -
  from assms have el: "rt_delay t \<le> el"
    by (cases "el < rt_delay t") (simp_all add: animateVoxel_def)
  from assms(2) show ?thesis
    unfolding animateVoxel_unfold[OF assms(1) el refl refl refl]
    by (simp add: snapped_def split: if_splits)
qed

text \<open>
  What one step does to a voxel that is not rubble and whose delay has elapsed, in terms of
  its true distance to the target.
\<close>

lemma animateVoxel_step:
  assumes "\<not> rt_isRubble t" and "rt_delay t \<le> el"
    and "targetIn (2 ^ 40) t" and "nearTarget r t v" and "r \<le> 2 ^ 41 + 1"
  shows "nearTarget (8801 / 10000 * r + 2 / 1000) t (fst (animateVoxel el t v))"
    and "dist2 t (fst (animateVoxel el t v)) \<le> 8 / 10 * dist2 t v + 6 / 10000"
    and "\<not> snd (animateVoxel el t v) \<Longrightarrow> 99 / 10000 < dist2 t (fst (animateVoxel el t v))"
proof -
  define x' where "x' = dadd (sv_x v) (dmul (dsub (rt_x t) (sv_x v)) (toDouble 0.12))"
  define y' where "y' = dadd (sv_y v) (dmul (dsub (rt_y t) (sv_y v)) (toDouble 0.12))"
  define z' where "z' = dadd (sv_z v) (dmul (dsub (rt_z t) (sv_z v)) (toDouble 0.12))"
  note av = animateVoxel_unfold[OF assms(1,2) x'_def y'_def z'_def]
  have tin: "\<bar>rt_x t\<bar> \<le> 2 ^ 40" "\<bar>rt_y t\<bar> \<le> 2 ^ 40" "\<bar>rt_z t\<bar> \<le> 2 ^ 40"
    using assms(3) by (simp_all add: targetIn_def)
  have near: "\<bar>rt_x t - sv_x v\<bar> \<le> r" "\<bar>rt_y t - sv_y v\<bar> \<le> r" "\<bar>rt_z t - sv_z v\<bar> \<le> r"
    using assms(4) by (simp_all add: nearTarget_def)
  have r0: "0 \<le> r" using near(1) by linarith
  have far: "\<bar>rt_x t - sv_x v\<bar> \<le> 2 ^ 41 + 1" "\<bar>rt_y t - sv_y v\<bar> \<le> 2 ^ 41 + 1"
    "\<bar>rt_z t - sv_z v\<bar> \<le> 2 ^ 41 + 1"
    using near assms(5) by linarith+
  have bx: "\<bar>rt_x t - x'\<bar> \<le> 8801 / 10000 * \<bar>rt_x t - sv_x v\<bar> + 2 / 1000"
    unfolding x'_def using tin(1) far(1) by (rule ease_bound)
  have by': "\<bar>rt_y t - y'\<bar> \<le> 8801 / 10000 * \<bar>rt_y t - sv_y v\<bar> + 2 / 1000"
    unfolding y'_def using tin(2) far(2) by (rule ease_bound)
  have bz: "\<bar>rt_z t - z'\<bar> \<le> 8801 / 10000 * \<bar>rt_z t - sv_z v\<bar> + 2 / 1000"
    unfolding z'_def using tin(3) far(3) by (rule ease_bound)
  have nx: "\<bar>rt_x t - x'\<bar> \<le> 8801 / 10000 * r + 2 / 1000" using bx near(1) by (rule scale_bound)
  have ny: "\<bar>rt_y t - y'\<bar> \<le> 8801 / 10000 * r + 2 / 1000" using by' near(2) by (rule scale_bound)
  have nz: "\<bar>rt_z t - z'\<bar> \<le> 8801 / 10000 * r + 2 / 1000" using bz near(3) by (rule scale_bound)
  have rr: "0 \<le> 8801 / 10000 * r + 2 / 1000" using r0 by simp
  show "nearTarget (8801 / 10000 * r + 2 / 1000) t (fst (animateVoxel el t v))"
    unfolding av using nx ny nz rr by (simp add: nearTarget_def)
  have sq: "(rt_x t - x')\<^sup>2 + (rt_y t - y')\<^sup>2 + (rt_z t - z')\<^sup>2 \<le> 8 / 10 * dist2 t v + 6 / 10000"
  proof -
    define X where "X = (rt_x t - sv_x v)\<^sup>2"
    define Y where "Y = (rt_y t - sv_y v)\<^sup>2"
    define Z where "Z = (rt_z t - sv_z v)\<^sup>2"
    define X' where "X' = (rt_x t - x')\<^sup>2"
    define Y' where "Y' = (rt_y t - y')\<^sup>2"
    define Z' where "Z' = (rt_z t - z')\<^sup>2"
    have "X' \<le> 8 / 10 * X + 2 / 10000" "Y' \<le> 8 / 10 * Y + 2 / 10000" "Z' \<le> 8 / 10 * Z + 2 / 10000"
      unfolding X_def Y_def Z_def X'_def Y'_def Z'_def
      using eased_square[OF bx] eased_square[OF by'] eased_square[OF bz] by simp_all
    then have "X' + Y' + Z' \<le> 8 / 10 * (X + Y + Z) + 6 / 10000" by argo
    then show ?thesis unfolding X_def Y_def Z_def X'_def Y'_def Z'_def dist2_def .
  qed
  have nn: "0 \<le> 8 / 10 * dist2 t v + 6 / 10000" by (simp add: dist2_def)
  show "dist2 t (fst (animateVoxel el t v)) \<le> 8 / 10 * dist2 t v + 6 / 10000"
    unfolding av using sq nn by (simp add: dist2_def)
  show "99 / 10000 < dist2 t (fst (animateVoxel el t v))" if "\<not> snd (animateVoxel el t v)"
  proof (rule ccontr)
    assume "\<not> 99 / 10000 < dist2 t (fst (animateVoxel el t v))"
    moreover from that have moved: "fst (animateVoxel el t v) =
        v\<lparr>sv_x := x', sv_y := y', sv_z := z',
              sv_rx := dadd (sv_rx v) (dmul (dsub 0 (sv_rx v)) (toDouble 0.12)),
              sv_ry := dadd (sv_ry v) (dmul (dsub 0 (sv_ry v)) (toDouble 0.12)),
              sv_rz := dadd (sv_rz v) (dmul (dsub 0 (sv_rz v)) (toDouble 0.12))\<rparr>"
      and test: "dadd (dadd (dsquare (dsub (rt_x t) x')) (dsquare (dsub (rt_y t) y')))
              (dsquare (dsub (rt_z t) z')) > toDouble 0.01"
      unfolding av by (simp_all split: if_splits)
    ultimately have "(rt_x t - x')\<^sup>2 + (rt_y t - y')\<^sup>2 + (rt_z t - z')\<^sup>2 \<le> 99 / 10000"
      by (simp add: dist2_def)
    from arrival_check[OF this] test show False unfolding dsub_def by simp
  qed
qed

lemma animateVoxel_arrives:
  assumes "\<not> rt_isRubble t" and "rt_delay t \<le> el"
    and "targetIn (2 ^ 40) t" and "nearTarget r t v" and "r \<le> 1 / 20"
  shows "snd (animateVoxel el t v)"
proof (rule ccontr)
  assume n: "\<not> snd (animateVoxel el t v)"
  have r: "r \<le> 2 ^ 41 + 1" using assms(5) by simp
  note s = animateVoxel_step[OF assms(1-4) r]
  define w where "w = fst (animateVoxel el t v)"
  have "nearTarget (1 / 20) t w"
    using s(1) assms(5) unfolding w_def by (simp add: nearTarget_def)
  then have a: "\<bar>rt_x t - sv_x w\<bar> \<le> 1 / 20" "\<bar>rt_y t - sv_y w\<bar> \<le> 1 / 20" "\<bar>rt_z t - sv_z w\<bar> \<le> 1 / 20"
    by (simp_all add: nearTarget_def)
  have sq: "d\<^sup>2 \<le> 1 / 400" if "\<bar>d\<bar> \<le> 1 / 20" for d :: real
  proof -
    from that have "\<bar>d\<bar> \<le> \<bar>1 / 20 :: real\<bar>" by simp
    then have "d\<^sup>2 \<le> (1 / 20)\<^sup>2" by (simp only: abs_le_square_iff)
    then show ?thesis by (simp add: power2_eq_square)
  qed
  have "dist2 t w \<le> 3 / 400" unfolding dist2_def using sq[OF a(1)] sq[OF a(2)] sq[OF a(3)] by linarith
  with s(3)[OF n] show False unfolding w_def by simp
qed

lemma animateVoxel_snaps_close:
  assumes "\<not> rt_isRubble t" and "rt_delay t \<le> el"
    and "targetIn (2 ^ 40) t" and "dist2 t v \<le> 1 / 100"
  shows "snd (animateVoxel el t v)"
proof (rule ccontr)
  assume n: "\<not> snd (animateVoxel el t v)"
  have nn: "0 \<le> (rt_x t - sv_x v)\<^sup>2" "0 \<le> (rt_y t - sv_y v)\<^sup>2" "0 \<le> (rt_z t - sv_z v)\<^sup>2"
    by simp_all
  define X where "X = (rt_x t - sv_x v)\<^sup>2"
  define Y where "Y = (rt_y t - sv_y v)\<^sup>2"
  define Z where "Z = (rt_z t - sv_z v)\<^sup>2"
  have "0 \<le> X" "0 \<le> Y" "0 \<le> Z" "X + Y + Z \<le> 1 / 100"
    using nn assms(4) unfolding dist2_def X_def Y_def Z_def by simp_all
  then have "X \<le> 1 / 100" "Y \<le> 1 / 100" "Z \<le> 1 / 100" by linarith+
  then have "(rt_x t - sv_x v)\<^sup>2 \<le> 1 / 100" "(rt_y t - sv_y v)\<^sup>2 \<le> 1 / 100"
    "(rt_z t - sv_z v)\<^sup>2 \<le> 1 / 100" unfolding X_def Y_def Z_def by simp_all
  then have "\<bar>rt_x t - sv_x v\<bar> \<le> 1 / 10" "\<bar>rt_y t - sv_y v\<bar> \<le> 1 / 10"
    "\<bar>rt_z t - sv_z v\<bar> \<le> 1 / 10" by (simp_all only: small_of_square)
  then have "nearTarget (1 / 10) t v" unfolding nearTarget_def by (intro conjI)
  moreover have "(1 / 10 :: real) \<le> 2 ^ 41 + 1" by simp
  ultimately have s: "dist2 t (fst (animateVoxel el t v)) \<le> 8 / 10 * dist2 t v + 6 / 10000"
    "99 / 10000 < dist2 t (fst (animateVoxel el t v))"
    using animateVoxel_step(2,3)[OF assms(1-3), of "1 / 10"] n by blast+
  with assms(4) show False by linarith
qed

lemma animateVoxel_closer:
  assumes "\<not> rt_isRubble t" and "rt_delay t \<le> el"
    and "targetIn (2 ^ 40) t" and "nearTarget (2 ^ 41) t v" and "0 < dist2 t v"
  shows "dist2 t (fst (animateVoxel el t v)) < dist2 t v"
proof (cases "snd (animateVoxel el t v)")
  case True
  from animateVoxel_done_snapped[OF assms(1) True]
  have "dist2 t (fst (animateVoxel el t v)) = 0" by (simp add: snapped_def dist2_def)
  with assms(5) show ?thesis by simp
next
  case False
  have r: "(2 ^ 41 :: real) \<le> 2 ^ 41 + 1" by simp
  from animateVoxel_step(2,3)[OF assms(1-4) r] False
  have "dist2 t (fst (animateVoxel el t v)) \<le> 8 / 10 * dist2 t v + 6 / 10000"
    "99 / 10000 < dist2 t (fst (animateVoxel el t v))" by blast+
  then show ?thesis by linarith
qed

lemma inRange_near:
  assumes "inRange (2 ^ 40) t v"
  shows "targetIn (2 ^ 40) t" and "nearTarget (2 ^ 41) t v"
proof -
  show "targetIn (2 ^ 40) t" using assms by (simp add: inRange_def targetIn_def)
  have "\<bar>a - p\<bar> \<le> 2 ^ 41" if "\<bar>a\<bar> \<le> 2 ^ 40" "\<bar>p\<bar> \<le> 2 ^ 40" for a p :: real
    using that by simp
  then show "nearTarget (2 ^ 41) t v" using assms by (simp add: inRange_def nearTarget_def)
qed


subsection \<open>All voxels: the engine reaches Stable\<close>

lemma runTicks_stable: "state e = STABLE \<Longrightarrow> runTicks k nows e = Inr e"
  by (induction nows) (simp_all add: updatePhysics_def)

lemma nearTarget_mono: "nearTarget r t v \<Longrightarrow> r \<le> r' \<Longrightarrow> nearTarget r' t v"
  unfolding nearTarget_def by linarith

lemma converge_within:
  "state e = REBUILDING \<Longrightarrow> length (rebuildTargets e) = length (voxels e) \<Longrightarrow>
   (\<forall>i < length (voxels e). \<not> rt_isRubble (rebuildTargets e ! i) \<longrightarrow>
        targetIn (2 ^ 40) (rebuildTargets e ! i)
        \<and> nearTarget (\<rho> + 1 / 50) (rebuildTargets e ! i) (voxels e ! i)) \<Longrightarrow>
   0 \<le> \<rho> \<Longrightarrow> \<rho> \<le> 2 ^ 41 \<Longrightarrow> (8801 / 10000) ^ n * \<rho> \<le> 3 / 100 \<Longrightarrow>
   length nows = Suc n \<Longrightarrow>
   (\<forall>now \<in> set nows. \<forall>t \<in> set (rebuildTargets e). \<not> rt_isRubble t \<longrightarrow>
        rt_delay t \<le> now - rebuildStartTime e) \<Longrightarrow>
   \<exists>e'. runTicks k nows e = Inr e' \<and> state e' = STABLE
      \<and> (\<forall>i < length (voxels e). \<not> rt_isRubble (rebuildTargets e ! i) \<longrightarrow>
            snapped (rebuildTargets e ! i) (voxels e' ! i))"
proof (induction n arbitrary: e nows \<rho>)
  case 0
  then obtain now where nows: "nows = [now]" by (cases nows) simp_all
  let ?el = "now - rebuildStartTime e"
  let ?ts = "rebuildTargets e" and ?vs = "voxels e"
  have small: "\<rho> + 1 / 50 \<le> 1 / 20" using "0.prems"(6) by simp
  have allDone: "\<forall>i < length ?vs. snd (animateVoxel ?el (?ts ! i) (?vs ! i))"
  proof (intro allI impI)
    fix i assume i: "i < length ?vs"
    show "snd (animateVoxel ?el (?ts ! i) (?vs ! i))"
    proof (cases "rt_isRubble (?ts ! i)")
      case True
      then show ?thesis by (simp add: animateVoxel_rubble)
    next
      case False
      from i "0.prems"(2) have "?ts ! i \<in> set ?ts" by simp
      with False "0.prems"(8) nows have el: "rt_delay (?ts ! i) \<le> ?el" by simp
      from "0.prems"(3) i False have tin: "targetIn (2 ^ 40) (?ts ! i)"
        and near: "nearTarget (\<rho> + 1 / 50) (?ts ! i) (?vs ! i)" by simp_all
      from False el tin near small show ?thesis by (rule animateVoxel_arrives)
    qed
  qed
  let ?e1 = "e\<lparr>voxels := map (\<lambda>(t, v). fst (animateVoxel ?el t v)) (zip ?ts ?vs), state := STABLE\<rparr>"
  have tick: "updatePhysics k now e = Inr ?e1"
    using rebuilding_tick[OF "0.prems"(1,2), of k now] allDone by simp
  have "\<forall>i < length ?vs. \<not> rt_isRubble (?ts ! i) \<longrightarrow> snapped (?ts ! i) (voxels ?e1 ! i)"
    using allDone animateVoxel_done_snapped "0.prems"(2) by simp
  with tick nows show ?case by simp
next
  case (Suc n)
  then obtain now rest where nows: "nows = now # rest" "length rest = Suc n" by (cases nows) simp_all
  let ?el = "now - rebuildStartTime e"
  let ?ts = "rebuildTargets e" and ?vs = "voxels e"
  let ?vs1 = "map (\<lambda>(t, v). fst (animateVoxel ?el t v)) (zip ?ts ?vs)"
  show ?case
  proof (cases "\<forall>i < length ?vs. snd (animateVoxel ?el (?ts ! i) (?vs ! i))")
    case True
    let ?e1 = "e\<lparr>voxels := ?vs1, state := STABLE\<rparr>"
    have tick: "updatePhysics k now e = Inr ?e1"
      using rebuilding_tick[OF Suc.prems(1,2), of k now] True by simp
    have "runTicks k rest ?e1 = Inr ?e1" by (rule runTicks_stable) simp
    with tick nows have "runTicks k nows e = Inr ?e1" by simp
    moreover have "\<forall>i < length ?vs. \<not> rt_isRubble (?ts ! i) \<longrightarrow> snapped (?ts ! i) (voxels ?e1 ! i)"
      using True animateVoxel_done_snapped Suc.prems(2) by simp
    ultimately show ?thesis by simp
  next
    case False
    let ?e1 = "e\<lparr>voxels := ?vs1, state := REBUILDING\<rparr>"
    define \<rho>' where "\<rho>' = 8801 / 10000 * \<rho>"
    have tick: "updatePhysics k now e = Inr ?e1"
      using rebuilding_tick[OF Suc.prems(1,2), of k now] False by simp
    have st1: "state ?e1 = REBUILDING" by simp
    have len1: "length (rebuildTargets ?e1) = length (voxels ?e1)" using Suc.prems(2) by simp
    have big: "\<rho> + 1 / 50 \<le> 2 ^ 41 + 1" using Suc.prems(5) by simp
    have bound1: "\<forall>i < length (voxels ?e1). \<not> rt_isRubble (rebuildTargets ?e1 ! i) \<longrightarrow>
        targetIn (2 ^ 40) (rebuildTargets ?e1 ! i)
        \<and> nearTarget (\<rho>' + 1 / 50) (rebuildTargets ?e1 ! i) (voxels ?e1 ! i)"
    proof (intro allI impI)
      fix i assume i: "i < length (voxels ?e1)" and nr: "\<not> rt_isRubble (rebuildTargets ?e1 ! i)"
      then have i': "i < length ?vs" and nr': "\<not> rt_isRubble (?ts ! i)" using Suc.prems(2) by simp_all
      from i' Suc.prems(2) have "?ts ! i \<in> set ?ts" by simp
      with nr' Suc.prems(8) nows have el: "rt_delay (?ts ! i) \<le> ?el" by simp
      from Suc.prems(3) i' nr' have tin: "targetIn (2 ^ 40) (?ts ! i)"
        and near: "nearTarget (\<rho> + 1 / 50) (?ts ! i) (?vs ! i)" by simp_all
      have "nearTarget (8801 / 10000 * (\<rho> + 1 / 50) + 2 / 1000) (?ts ! i)
          (fst (animateVoxel ?el (?ts ! i) (?vs ! i)))"
        using nr' el tin near big by (rule animateVoxel_step(1))
      moreover have "8801 / 10000 * (\<rho> + 1 / 50) + 2 / 1000 \<le> \<rho>' + 1 / 50"
        unfolding \<rho>'_def by argo
      ultimately have "nearTarget (\<rho>' + 1 / 50) (?ts ! i) (fst (animateVoxel ?el (?ts ! i) (?vs ! i)))"
        by (rule nearTarget_mono)
      with tin show "targetIn (2 ^ 40) (rebuildTargets ?e1 ! i)
        \<and> nearTarget (\<rho>' + 1 / 50) (rebuildTargets ?e1 ! i) (voxels ?e1 ! i)"
        using i' Suc.prems(2) by simp
    qed
    have r0: "0 \<le> \<rho>'" using Suc.prems(4) unfolding \<rho>'_def by simp
    have r1: "\<rho>' \<le> 2 ^ 41" using Suc.prems(4,5) unfolding \<rho>'_def by simp
    have "(8801 / 10000) ^ n * \<rho>' = (8801 / 10000) ^ Suc n * \<rho>"
      unfolding \<rho>'_def by (simp only: power_Suc ac_simps)
    with Suc.prems(6) have r2: "(8801 / 10000) ^ n * \<rho>' \<le> 3 / 100" by (simp only:)
    have times1: "\<forall>now \<in> set rest. \<forall>t \<in> set (rebuildTargets ?e1). \<not> rt_isRubble t \<longrightarrow>
        rt_delay t \<le> now - rebuildStartTime ?e1"
      using Suc.prems(8) nows by simp
    from Suc.IH[OF st1 len1 bound1 r0 r1 r2 nows(2) times1]
    obtain e' where e': "runTicks k rest ?e1 = Inr e'" "state e' = STABLE"
      "\<forall>i < length (voxels ?e1). \<not> rt_isRubble (rebuildTargets ?e1 ! i) \<longrightarrow>
            snapped (rebuildTargets ?e1 ! i) (voxels e' ! i)"
      by blast
    from e'(1) tick nows have "runTicks k nows e = Inr e'" by simp
    moreover from e'(3) Suc.prems(2)
    have "\<forall>i < length ?vs. \<not> rt_isRubble (?ts ! i) \<longrightarrow> snapped (?ts ! i) (voxels e' ! i)"
      by simp
    ultimately show ?thesis using e'(2) by blast
  qed
qed

lemma ticks_suffice: "(8801 / 10000 :: real) ^ 282 * 2 ^ 41 \<le> 3 / 100"
proof -
  have six: "(8801 / 10000 :: real) ^ 6 \<le> 1 / 2" by (simp add: power_divide)
  have "(8801 / 10000 :: real) ^ 282 = ((8801 / 10000) ^ 6) ^ 47" by (simp only: power_mult[symmetric]) simp
  also have "\<dots> \<le> (1 / 2) ^ 47" using six by (rule power_mono) simp
  finally have "(8801 / 10000 :: real) ^ 282 * 2 ^ 41 \<le> (1 / 2) ^ 47 * 2 ^ 41"
    by (rule mult_right_mono) simp
  also have "\<dots> \<le> 3 / 100" by (simp add: power_divide)
  finally show ?thesis .
qed


subsection \<open>A voxel that the easing step cannot move\<close>

lemma roundHalfEven_near:
  assumes "0 \<le> d" and "d < 1 / 2"
  shows "roundHalfEven (of_int k + d) = k"
proof -
  have "\<lfloor>of_int k + d\<rfloor> = k" using assms by (intro floor_unique) simp_all
  then show ?thesis using assms by (simp add: roundHalfEven_def)
qed

lemma ulp_at:
  assumes "2 powr (of_int e) \<le> \<bar>x\<bar>" and "\<bar>x\<bar> < 2 powr (of_int e + 1)" and "- 1022 \<le> e"
  shows "ulp x = 2 powr (of_int e - 52)"
proof -
  have "0 < 2 powr (of_int e :: real)" by simp
  with assms(1) have pos: "0 < \<bar>x\<bar>" by linarith
  have "\<lfloor>log 2 \<bar>x\<bar>\<rfloor> = e"
    using assms(1,2) floor_log_eq_powr_iff[OF pos, of 2 e] by simp
  then have "ulp x = 2 powr (of_int (max e (- 1022)) - 52)" by (simp only: ulp_def)
  moreover have "max e (- 1022) = e" using assms(3) by simp
  ultimately show ?thesis by (simp only:)
qed

lemma toDouble_zero: "toDouble 0 = 0"
  by (simp add: toDouble_def)

lemma toDouble_one: "toDouble 1 = 1"
proof -
  have "ulp 1 = 2 powr (of_int 0 - 52)" by (rule ulp_at) simp_all
  also have "\<dots> = 1 / 2 ^ 52" using powr_realpow[of 2 52] by (simp add: powr_minus_divide)
  finally have u: "ulp 1 = 1 / 2 ^ 52" .
  have "roundHalfEven (of_int (2 ^ 52) + 0) = 2 ^ 52" by (rule roundHalfEven_near) simp_all
  then have "roundHalfEven (2 ^ 52) = 2 ^ 52" by simp
  then show ?thesis by (simp add: toDouble_def u)
qed

lemma toDouble_far:
  assumes "0 \<le> d" and "d < 1 / 8"
  shows "toDouble (2 ^ 50 + d) = 2 ^ 50"
proof -
  define x :: real where "x = 2 ^ 50 + d"
  have x: "\<bar>x\<bar> = x" "x \<noteq> 0" using assms(1) unfolding x_def by simp_all
  have p50: "2 powr (of_int 50 :: real) = 2 ^ 50" using powr_realpow[of 2 50] by simp
  have p51: "2 powr (of_int 50 + 1 :: real) = 2 ^ 51" using powr_realpow[of 2 51] by simp
  have "2 ^ 50 \<le> x" "x < 2 ^ 51" using assms unfolding x_def by simp_all
  then have lo: "2 powr (of_int 50) \<le> \<bar>x\<bar>" and hi: "\<bar>x\<bar> < 2 powr (of_int 50 + 1)"
    by (simp_all only: p50 p51 x(1))
  have "ulp x = 2 powr (of_int 50 - 52)" using lo hi by (rule ulp_at) simp
  also have "\<dots> = 1 / 4" using powr_realpow[of 2 2] by (simp add: powr_minus_divide)
  finally have u: "ulp x = 1 / 4" .
  have "x / ulp x = x * 4" by (simp add: u)
  also have "\<dots> = of_int (2 ^ 52) + 4 * d" unfolding x_def by simp
  finally have "x / ulp x = of_int (2 ^ 52) + 4 * d" .
  moreover have "roundHalfEven (of_int (2 ^ 52) + 4 * d) = 2 ^ 52"
    using assms by (intro roundHalfEven_near) simp_all
  ultimately have "roundHalfEven (x / ulp x) = 2 ^ 52" by (simp only:)
  then have "toDouble x = 2 ^ 50" using x(2) by (simp add: toDouble_def u)
  then show ?thesis unfolding x_def .
qed

lemma increment_small: "0 \<le> toDouble (1 * toDouble 0.12)" "toDouble (1 * toDouble 0.12) < 1 / 8"
proof -
  define c where "c = toDouble 0.12"
  define c2 where "c2 = toDouble c"
  have c: "1199 / 10000 \<le> c" "c \<le> 1201 / 10000" using speed_bounds unfolding c_def by simp_all
  then have "\<bar>c\<bar> \<le> 1" by simp
  then have "\<bar>c2 - c\<bar> \<le> 1 / 10 ^ 9" unfolding c2_def by (rule fl_small)
  then have "\<bar>c2 - c\<bar> \<le> 1 / 1000000000" by simp
  with c have "0 \<le> c2" "c2 < 1 / 8" by linarith+
  then show "0 \<le> toDouble (1 * toDouble 0.12)" "toDouble (1 * toDouble 0.12) < 1 / 8"
    unfolding c2_def c_def by simp_all
qed

lemma threshold_high: "toDouble 0.01 < 1"
proof -
  define c where "c = toDouble 0.01"
  have "\<bar>toDouble 0.01 - 0.01\<bar> \<le> 1 / 10 ^ 9" by (rule fl_small) simp
  then have "\<bar>c - 1 / 100\<bar> \<le> 1 / 1000000000" unfolding c_def by simp
  then have "c < 1" by linarith
  then show ?thesis unfolding c_def by simp
qed

lemma far_step:
  "dadd (2 ^ 50) (dmul (dsub (2 ^ 50 + 1) (2 ^ 50)) (toDouble 0.12)) = 2 ^ 50"
proof -
  have "dsub (2 ^ 50 + 1) (2 ^ 50) = 1" by (simp add: dsub_def toDouble_one)
  then have "dadd (2 ^ 50) (dmul (dsub (2 ^ 50 + 1) (2 ^ 50)) (toDouble 0.12))
      = toDouble (2 ^ 50 + toDouble (1 * toDouble 0.12))"
    by (simp only: dadd_def dmul_def)
  also have "\<dots> = 2 ^ 50" using increment_small by (rule toDouble_far)
  finally show ?thesis .
qed

lemma rest_step: "dadd 0 (dmul (dsub 0 0) (toDouble 0.12)) = 0"
  by (simp add: dadd_def dmul_def dsub_def toDouble_zero)

lemma far_test:
  "dadd (dadd (dsquare (dsub (2 ^ 50 + 1) (2 ^ 50))) (dsquare (dsub 0 0))) (dsquare (dsub 0 0))
     > toDouble 0.01"
proof -
  have "dsub (2 ^ 50 + 1) (2 ^ 50) = 1" by (simp add: dsub_def toDouble_one)
  moreover have "dsub 0 0 = 0" by (simp add: dsub_def toDouble_zero)
  ultimately have "dadd (dadd (dsquare (dsub (2 ^ 50 + 1) (2 ^ 50))) (dsquare (dsub 0 0)))
      (dsquare (dsub 0 0)) = 1"
    by (simp add: dadd_def dsquare_def toDouble_one toDouble_zero)
  with threshold_high show ?thesis by simp
qed

lemma far_voxel_stays: "animateVoxel el farTarget farVoxel = (farVoxel, False)"
proof (cases "el < 0")
  case True
  then show ?thesis by (simp add: animateVoxel_def farTarget_def)
next
  case False
  have nr: "\<not> rt_isRubble farTarget" and el: "rt_delay farTarget \<le> el"
    using False by (simp_all add: farTarget_def)
  have x: "2 ^ 50 = dadd (sv_x farVoxel) (dmul (dsub (rt_x farTarget) (sv_x farVoxel)) (toDouble 0.12))"
    using far_step by (simp add: farVoxel_def voxelAt_def farTarget_def)
  have y: "0 = dadd (sv_y farVoxel) (dmul (dsub (rt_y farTarget) (sv_y farVoxel)) (toDouble 0.12))"
    using rest_step by (simp add: farVoxel_def voxelAt_def farTarget_def)
  have z: "0 = dadd (sv_z farVoxel) (dmul (dsub (rt_z farTarget) (sv_z farVoxel)) (toDouble 0.12))"
    using rest_step by (simp add: farVoxel_def voxelAt_def farTarget_def)
  have test: "dadd (dadd (dsquare (dsub (rt_x farTarget) (2 ^ 50))) (dsquare (dsub (rt_y farTarget) 0)))
              (dsquare (dsub (rt_z farTarget) 0)) > toDouble 0.01"
    using far_test by (simp add: farTarget_def)
  have rot: "dadd (sv_rx farVoxel) (dmul (dsub 0 (sv_rx farVoxel)) (toDouble 0.12)) = 0"
    "dadd (sv_ry farVoxel) (dmul (dsub 0 (sv_ry farVoxel)) (toDouble 0.12)) = 0"
    "dadd (sv_rz farVoxel) (dmul (dsub 0 (sv_rz farVoxel)) (toDouble 0.12)) = 0"
    using rest_step by (simp_all add: farVoxel_def voxelAt_def)
  show ?thesis
    unfolding animateVoxel_unfold[OF nr el x y z] using test rot
    by (simp add: farVoxel_def voxelAt_def)
qed


subsection \<open>Convergence within the range where the increment survives rounding\<close>

text \<open>
  Claim C7 (as amended). Let every target that is not rubble and its voxel have
  coordinates of absolute value at most \<open>2\<^sup>4\<^sup>0\<close>. Then a tick in the state Rebuilding
  brings a voxel that is not rubble and whose delay has elapsed strictly closer to its
  target (unless it is already there). A voxel whose squared distance is at most 0.01 is
  put exactly on the target with rotation zero; a voxel that the tick has not put on its
  target is still further away than 0.0099 in squared distance and keeps the engine in
  Rebuilding. After 283 ticks, at any times that are past all the delays, the engine has
  left Rebuilding for Stable with every such voxel on its target; and a tick in which
  every voxel that is not rubble is within the squared distance 0.01 sets Stable.
\<close>

theorem rebuilding_converges:
  assumes "state e = REBUILDING" and "length (rebuildTargets e) = length (voxels e)"
    and "\<forall>i < length (voxels e). \<not> rt_isRubble (rebuildTargets e ! i) \<longrightarrow>
           inRange (2 ^ 40) (rebuildTargets e ! i) (voxels e ! i)"
  shows "(\<forall>now i. i < length (voxels e) \<and> \<not> rt_isRubble (rebuildTargets e ! i)
            \<and> rt_delay (rebuildTargets e ! i) \<le> now - rebuildStartTime e \<longrightarrow>
          (\<exists>e'. updatePhysics k now e = Inr e'
             \<and> (0 < dist2 (rebuildTargets e ! i) (voxels e ! i) \<longrightarrow>
                  sqrt (dist2 (rebuildTargets e ! i) (voxels e' ! i))
                    < sqrt (dist2 (rebuildTargets e ! i) (voxels e ! i)))
             \<and> (dist2 (rebuildTargets e ! i) (voxels e ! i) \<le> 1 / 100 \<longrightarrow>
                  snapped (rebuildTargets e ! i) (voxels e' ! i))
             \<and> (snapped (rebuildTargets e ! i) (voxels e' ! i)
                  \<or> (state e' = REBUILDING
                      \<and> 99 / 10000 < dist2 (rebuildTargets e ! i) (voxels e' ! i)))))
     \<and> (\<forall>nows. length nows = 283
            \<and> (\<forall>now \<in> set nows. \<forall>t \<in> set (rebuildTargets e). \<not> rt_isRubble t \<longrightarrow>
                   rt_delay t \<le> now - rebuildStartTime e) \<longrightarrow>
          (\<exists>e'. runTicks k nows e = Inr e' \<and> state e' = STABLE
             \<and> (\<forall>i < length (voxels e). \<not> rt_isRubble (rebuildTargets e ! i) \<longrightarrow>
                   snapped (rebuildTargets e ! i) (voxels e' ! i))))
     \<and> (\<forall>now. (\<forall>i < length (voxels e). rt_isRubble (rebuildTargets e ! i)
                    \<or> (rt_delay (rebuildTargets e ! i) \<le> now - rebuildStartTime e
                        \<and> dist2 (rebuildTargets e ! i) (voxels e ! i) \<le> 1 / 100)) \<longrightarrow>
          (\<exists>e'. updatePhysics k now e = Inr e' \<and> state e' = STABLE))"
proof -
  let ?ts = "rebuildTargets e" and ?vs = "voxels e"
  have one: "\<forall>now i. i < length ?vs \<and> \<not> rt_isRubble (?ts ! i)
            \<and> rt_delay (?ts ! i) \<le> now - rebuildStartTime e \<longrightarrow>
          (\<exists>e'. updatePhysics k now e = Inr e'
             \<and> (0 < dist2 (?ts ! i) (?vs ! i) \<longrightarrow>
                  sqrt (dist2 (?ts ! i) (voxels e' ! i)) < sqrt (dist2 (?ts ! i) (?vs ! i)))
             \<and> (dist2 (?ts ! i) (?vs ! i) \<le> 1 / 100 \<longrightarrow> snapped (?ts ! i) (voxels e' ! i))
             \<and> (snapped (?ts ! i) (voxels e' ! i)
                  \<or> (state e' = REBUILDING \<and> 99 / 10000 < dist2 (?ts ! i) (voxels e' ! i))))"
  proof (intro allI impI)
    fix now i
    assume a: "i < length ?vs \<and> \<not> rt_isRubble (?ts ! i)
            \<and> rt_delay (?ts ! i) \<le> now - rebuildStartTime e"
    then have i: "i < length ?vs" and nr: "\<not> rt_isRubble (?ts ! i)"
      and el: "rt_delay (?ts ! i) \<le> now - rebuildStartTime e" by simp_all
    let ?el = "now - rebuildStartTime e"
    let ?all = "\<forall>j < length ?vs. snd (animateVoxel ?el (?ts ! j) (?vs ! j))"
    let ?e1 = "e\<lparr>voxels := map (\<lambda>(t, v). fst (animateVoxel ?el t v)) (zip ?ts ?vs),
                  state := (if ?all then STABLE else REBUILDING)\<rparr>"
    from assms(3) i nr have rng: "inRange (2 ^ 40) (?ts ! i) (?vs ! i)" by simp
    note tin = inRange_near(1)[OF rng] and near = inRange_near(2)[OF rng]
    have tick: "updatePhysics k now e = Inr ?e1" by (rule rebuilding_tick[OF assms(1,2)])
    have vi: "voxels ?e1 ! i = fst (animateVoxel ?el (?ts ! i) (?vs ! i))"
      using i assms(2) by simp
    have closer: "0 < dist2 (?ts ! i) (?vs ! i) \<longrightarrow>
        sqrt (dist2 (?ts ! i) (voxels ?e1 ! i)) < sqrt (dist2 (?ts ! i) (?vs ! i))"
      unfolding vi using animateVoxel_closer[OF nr el tin near] by simp
    have close: "dist2 (?ts ! i) (?vs ! i) \<le> 1 / 100 \<longrightarrow> snapped (?ts ! i) (voxels ?e1 ! i)"
      unfolding vi using animateVoxel_snaps_close[OF nr el tin] animateVoxel_done_snapped[OF nr]
      by blast
    have rest: "snapped (?ts ! i) (voxels ?e1 ! i)
        \<or> (state ?e1 = REBUILDING \<and> 99 / 10000 < dist2 (?ts ! i) (voxels ?e1 ! i))"
    proof (cases "snd (animateVoxel ?el (?ts ! i) (?vs ! i))")
      case True
      from animateVoxel_done_snapped[OF nr True] show ?thesis unfolding vi by simp
    next
      case False
      with i have "\<not> ?all" by auto
      then have s: "state ?e1 = REBUILDING" by simp
      have r: "(2 ^ 41 :: real) \<le> 2 ^ 41 + 1" by simp
      have "99 / 10000 < dist2 (?ts ! i) (voxels ?e1 ! i)"
        unfolding vi using animateVoxel_step(3)[OF nr el tin near r False] .
      with s have "state ?e1 = REBUILDING \<and> 99 / 10000 < dist2 (?ts ! i) (voxels ?e1 ! i)" ..
      then show ?thesis ..
    qed
    from tick closer close rest
    show "\<exists>e'. updatePhysics k now e = Inr e'
             \<and> (0 < dist2 (?ts ! i) (?vs ! i) \<longrightarrow>
                  sqrt (dist2 (?ts ! i) (voxels e' ! i)) < sqrt (dist2 (?ts ! i) (?vs ! i)))
             \<and> (dist2 (?ts ! i) (?vs ! i) \<le> 1 / 100 \<longrightarrow> snapped (?ts ! i) (voxels e' ! i))
             \<and> (snapped (?ts ! i) (voxels e' ! i)
                  \<or> (state e' = REBUILDING \<and> 99 / 10000 < dist2 (?ts ! i) (voxels e' ! i)))"
      by (intro exI[of _ ?e1] conjI)
  qed
  have two: "\<forall>nows. length nows = 283
            \<and> (\<forall>now \<in> set nows. \<forall>t \<in> set ?ts. \<not> rt_isRubble t \<longrightarrow>
                   rt_delay t \<le> now - rebuildStartTime e) \<longrightarrow>
          (\<exists>e'. runTicks k nows e = Inr e' \<and> state e' = STABLE
             \<and> (\<forall>i < length ?vs. \<not> rt_isRubble (?ts ! i) \<longrightarrow> snapped (?ts ! i) (voxels e' ! i)))"
  proof (intro allI impI)
    fix nows
    assume "length nows = 283
            \<and> (\<forall>now \<in> set nows. \<forall>t \<in> set ?ts. \<not> rt_isRubble t \<longrightarrow>
                   rt_delay t \<le> now - rebuildStartTime e)"
    then have l: "length nows = Suc 282"
      and t: "\<forall>now \<in> set nows. \<forall>t \<in> set ?ts. \<not> rt_isRubble t \<longrightarrow>
                   rt_delay t \<le> now - rebuildStartTime e" by simp_all
    have b: "\<forall>i < length ?vs. \<not> rt_isRubble (?ts ! i) \<longrightarrow>
        targetIn (2 ^ 40) (?ts ! i) \<and> nearTarget (2 ^ 41 + 1 / 50) (?ts ! i) (?vs ! i)"
    proof (intro allI impI)
      fix i assume "i < length ?vs" and "\<not> rt_isRubble (?ts ! i)"
      with assms(3) have rng: "inRange (2 ^ 40) (?ts ! i) (?vs ! i)" by simp
      have "nearTarget (2 ^ 41 + 1 / 50) (?ts ! i) (?vs ! i)"
        using inRange_near(2)[OF rng] by (rule nearTarget_mono) simp
      with inRange_near(1)[OF rng]
      show "targetIn (2 ^ 40) (?ts ! i) \<and> nearTarget (2 ^ 41 + 1 / 50) (?ts ! i) (?vs ! i)" ..
    qed
    have r0: "(0::real) \<le> 2 ^ 41" and r1: "(2 ^ 41 :: real) \<le> 2 ^ 41" by simp_all
    from converge_within[OF assms(1,2) b r0 r1 ticks_suffice l t, of k]
    show "\<exists>e'. runTicks k nows e = Inr e' \<and> state e' = STABLE
             \<and> (\<forall>i < length ?vs. \<not> rt_isRubble (?ts ! i) \<longrightarrow> snapped (?ts ! i) (voxels e' ! i))" .
  qed
  have three: "\<forall>now. (\<forall>i < length ?vs. rt_isRubble (?ts ! i)
                    \<or> (rt_delay (?ts ! i) \<le> now - rebuildStartTime e
                        \<and> dist2 (?ts ! i) (?vs ! i) \<le> 1 / 100)) \<longrightarrow>
          (\<exists>e'. updatePhysics k now e = Inr e' \<and> state e' = STABLE)"
  proof (intro allI impI)
    fix now
    assume a: "\<forall>i < length ?vs. rt_isRubble (?ts ! i)
                    \<or> (rt_delay (?ts ! i) \<le> now - rebuildStartTime e
                        \<and> dist2 (?ts ! i) (?vs ! i) \<le> 1 / 100)"
    let ?el = "now - rebuildStartTime e"
    have "\<forall>j < length ?vs. snd (animateVoxel ?el (?ts ! j) (?vs ! j))"
    proof (intro allI impI)
      fix j assume j: "j < length ?vs"
      show "snd (animateVoxel ?el (?ts ! j) (?vs ! j))"
      proof (cases "rt_isRubble (?ts ! j)")
        case True
        then show ?thesis by (simp add: animateVoxel_rubble)
      next
        case False
        with a j have el: "rt_delay (?ts ! j) \<le> ?el"
          and d: "dist2 (?ts ! j) (?vs ! j) \<le> 1 / 100" by auto
        from assms(3) j False have rng: "inRange (2 ^ 40) (?ts ! j) (?vs ! j)" by simp
        from False el inRange_near(1)[OF rng] d show ?thesis by (rule animateVoxel_snaps_close)
      qed
    qed
    with rebuilding_tick[OF assms(1,2), of k now]
    show "\<exists>e'. updatePhysics k now e = Inr e' \<and> state e' = STABLE" by simp
  qed
  from one two three show ?thesis by (intro conjI)
qed

text \<open>
  The voxel at the origin with its target at \<open>(10, 0, 0)\<close>: the first tick brings it
  closer than 10, and after 283 ticks (here all at the time 16) it is on the target and
  the engine is Stable.
\<close>

theorem rebuilding_converges_witness:
  "state glideEngine = REBUILDING
   \<and> length (rebuildTargets glideEngine) = length (voxels glideEngine)
   \<and> inRange (2 ^ 40) (rebuildTargets glideEngine ! 0) (voxels glideEngine ! 0)
   \<and> (\<exists>e'. updatePhysics sampleConstants 16 glideEngine = Inr e'
         \<and> sqrt (dist2 glideTarget (voxels e' ! 0)) < 10)
   \<and> (\<exists>e'. runTicks sampleConstants (replicate 283 16) glideEngine = Inr e' \<and> state e' = STABLE
         \<and> sv_x (voxels e' ! 0) = 10 \<and> sv_y (voxels e' ! 0) = 0 \<and> sv_z (voxels e' ! 0) = 0
         \<and> sv_rx (voxels e' ! 0) = 0 \<and> sv_ry (voxels e' ! 0) = 0 \<and> sv_rz (voxels e' ! 0) = 0)"
proof -
  have st: "state glideEngine = REBUILDING" by (simp add: glideEngine_def)
  have len: "length (rebuildTargets glideEngine) = length (voxels glideEngine)"
    by (simp add: glideEngine_def)
  have rng0: "inRange (2 ^ 40) (rebuildTargets glideEngine ! 0) (voxels glideEngine ! 0)"
    by (simp add: glideEngine_def glideTarget_def voxelAt_def inRange_def)
  have rng: "\<forall>i < length (voxels glideEngine). \<not> rt_isRubble (rebuildTargets glideEngine ! i) \<longrightarrow>
           inRange (2 ^ 40) (rebuildTargets glideEngine ! i) (voxels glideEngine ! i)"
    using rng0 by (simp add: glideEngine_def)
  note T = rebuilding_converges[OF st len rng, of sampleConstants]
  have d: "dist2 glideTarget (voxels glideEngine ! 0) = 100"
    by (simp add: dist2_def glideEngine_def glideTarget_def voxelAt_def)
  have t0: "rebuildTargets glideEngine ! 0 = glideTarget" "rebuildTargets glideEngine = [glideTarget]"
    "rebuildStartTime glideEngine = 0" "length (voxels glideEngine) = 1"
    by (simp_all add: glideEngine_def)
  have nr: "\<not> rt_isRubble glideTarget" "rt_delay glideTarget = 0"
    "rt_x glideTarget = 10" "rt_y glideTarget = 0" "rt_z glideTarget = 0"
    by (simp_all add: glideTarget_def)
  have s100: "sqrt 100 = 10" using real_sqrt_abs[of 10] by simp
  have one: "\<exists>e'. updatePhysics sampleConstants 16 glideEngine = Inr e'
         \<and> sqrt (dist2 glideTarget (voxels e' ! 0)) < 10"
    using T[THEN conjunct1, rule_format, of 0 16] by (auto simp add: t0 nr d s100)
  have l: "length (replicate 283 (16::real)) = 283" by simp
  have t: "\<forall>now \<in> set (replicate 283 (16::real)). \<forall>t \<in> set (rebuildTargets glideEngine).
      \<not> rt_isRubble t \<longrightarrow> rt_delay t \<le> now - rebuildStartTime glideEngine"
    by (simp add: t0 nr)
  from T[THEN conjunct2, THEN conjunct1, rule_format, of "replicate 283 16"] l t
  have "\<exists>e'. runTicks sampleConstants (replicate 283 16) glideEngine = Inr e' \<and> state e' = STABLE
             \<and> (\<forall>i < length (voxels glideEngine). \<not> rt_isRubble (rebuildTargets glideEngine ! i) \<longrightarrow>
                   snapped (rebuildTargets glideEngine ! i) (voxels e' ! i))"
    by blast
  then have two: "\<exists>e'. runTicks sampleConstants (replicate 283 16) glideEngine = Inr e' \<and> state e' = STABLE
         \<and> sv_x (voxels e' ! 0) = 10 \<and> sv_y (voxels e' ! 0) = 0 \<and> sv_z (voxels e' ! 0) = 0
         \<and> sv_rx (voxels e' ! 0) = 0 \<and> sv_ry (voxels e' ! 0) = 0 \<and> sv_rz (voxels e' ! 0) = 0"
    by (auto simp add: t0 nr snapped_def)
  from st len rng0 one two show ?thesis by (intro conjI)
qed

text \<open>
  A voxel at \<open>x = 2\<^sup>5\<^sup>0\<close> whose target is one unit further: the increment of about 0.12
  is less than half the distance between neighbouring doubles, so the sum rounds back to
  \<open>2\<^sup>5\<^sup>0\<close>. The tick leaves the engine as it was, at distance 1 from the target and
  in the state Rebuilding, and so does every later tick.
\<close>

theorem rebuilding_stuck_counterexample:
  "state farEngine = REBUILDING
   \<and> length (rebuildTargets farEngine) = length (voxels farEngine)
   \<and> \<not> rt_isRubble (rebuildTargets farEngine ! 0)
   \<and> rt_delay (rebuildTargets farEngine ! 0) \<le> 16 - rebuildStartTime farEngine
   \<and> dist2 (rebuildTargets farEngine ! 0) (voxels farEngine ! 0) = 1
   \<and> updatePhysics sampleConstants 16 farEngine = Inr farEngine
   \<and> runTicks sampleConstants [16, 32, 48, 64] farEngine = Inr farEngine"
proof -
  have st: "state farEngine = REBUILDING" by (simp add: farEngine_def)
  have len: "length (rebuildTargets farEngine) = length (voxels farEngine)"
    by (simp add: farEngine_def)
  have nr: "\<not> rt_isRubble (rebuildTargets farEngine ! 0)"
    "rt_delay (rebuildTargets farEngine ! 0) \<le> 16 - rebuildStartTime farEngine"
    by (simp_all add: farEngine_def farTarget_def)
  have d: "dist2 (rebuildTargets farEngine ! 0) (voxels farEngine ! 0) = 1"
    by (simp add: farEngine_def farTarget_def farVoxel_def voxelAt_def dist2_def)
  have tick: "updatePhysics sampleConstants now farEngine = Inr farEngine" for now
    using rebuilding_tick[OF st len, of sampleConstants now]
    by (simp add: farEngine_def far_voxel_stays)
  have run: "runTicks sampleConstants [16, 32, 48, 64] farEngine = Inr farEngine"
    by (simp add: tick)
  from st len nr d tick[of 16] run show ?thesis by (intro conjI)
qed


section \<open>Export and import\<close>

subsection \<open>Hexadecimal strings\<close>

lemma hexValue_hexDigit: "d < 16 \<Longrightarrow> hexValue (hexDigit d) = Some d"
  by (auto simp add: hexValue_def hexDigit_def)

lemma ascii_values:
  "ascii ''-'' = [45]" "ascii ''+'' = [43]" "ascii ''#'' = [35]"
  "ascii ''0x'' = [48, 120]" "ascii ''0X'' = [48, 88]"
  "ascii ''000000'' = [48, 48, 48, 48, 48, 48]"
  by (simp_all add: ascii_def)

lemma hexDigit_range:
  assumes "d < 16"
  shows "(48 \<le> hexDigit d \<and> hexDigit d \<le> 57) \<or> (97 \<le> hexDigit d \<and> hexDigit d \<le> 102)"
  using assms by (auto simp add: hexDigit_def)

lemma hexDigit_not_special:
  assumes "d < 16"
  shows "\<not> isWhiteSpace (hexDigit d)" and "hexDigit d \<noteq> 45" and "hexDigit d \<noteq> 43"
    and "hexDigit d \<noteq> 120" and "hexDigit d \<noteq> 88" and "hexDigit d \<noteq> 35"
  using hexDigit_range[OF assms] by (auto simp add: isWhiteSpace_def)

text \<open>The digits of a number, most significant first.\<close>

lemma hexDigitsPrefix_map:
  "\<forall>d \<in> set ds. d < 16 \<Longrightarrow> hexDigitsPrefix (map hexDigit ds) = ds"
  by (induction ds) (simp_all add: hexValue_hexDigit)

declare digits16.simps [simp del] toString16.simps [simp del]

lemma toString16_digits: "toString16 n = map hexDigit (digits16 n)"
proof (induction n rule: digits16.induct)
  case (1 n)
  show ?case
  proof (cases "n < 16")
    case True
    then show ?thesis by (simp add: toString16.simps[of n] digits16.simps[of n])
  next
    case False
    with 1 show ?thesis by (simp add: toString16.simps[of n] digits16.simps[of n])
  qed
qed

lemma digits16_range: "\<forall>d \<in> set (digits16 n). d < 16"
proof (induction n rule: digits16.induct)
  case (1 n)
  show ?case
  proof (cases "n < 16")
    case True
    then show ?thesis by (simp add: digits16.simps[of n])
  next
    case False
    with 1 show ?thesis by (simp add: digits16.simps[of n])
  qed
qed

lemma digits16_nonempty: "digits16 n \<noteq> []"
  by (simp add: digits16.simps[of n])

lemma digits16_value: "foldl (\<lambda>a d. 16 * a + d) 0 (digits16 n) = n"
proof (induction n rule: digits16.induct)
  case (1 n)
  show ?case
  proof (cases "n < 16")
    case True
    then show ?thesis by (simp add: digits16.simps[of n])
  next
    case False
    with 1 have "foldl (\<lambda>a d. 16 * a + d) 0 (digits16 (n div 16)) = n div 16" by simp
    with False show ?thesis by (simp add: digits16.simps[of n])
  qed
qed

lemma digits16_length: "n < 16 ^ Suc m \<Longrightarrow> length (digits16 n) \<le> Suc m"
proof (induction m arbitrary: n)
  case 0
  then show ?case by (simp add: digits16.simps[of n])
next
  case (Suc m)
  show ?case
  proof (cases "n < 16")
    case True
    then show ?thesis by (simp add: digits16.simps[of n])
  next
    case False
    from Suc.prems have "n div 16 < 16 ^ Suc m"
      by (simp add: less_mult_imp_div_less mult.commute)
    from Suc.IH[OF this] False show ?thesis by (simp add: digits16.simps[of n])
  qed
qed

lemma leading_zeros_value:
  "foldl (\<lambda>a d. 16 * a + d) (0::nat) (replicate m 0 @ ds) = foldl (\<lambda>a d. 16 * a + d) 0 ds"
  by (induction m) simp_all

lemma parseInt16_digits:
  assumes "ds \<noteq> []" and "\<forall>d \<in> set ds. d < 16"
  shows "parseInt16 (map hexDigit ds) = Num (real (foldl (\<lambda>a d. 16 * a + d) 0 ds))"
proof -
  from assms(1) obtain a rest where ds: "ds = a # rest" by (cases ds) auto
  with assms(2) have a: "a < 16" by simp
  note na = hexDigit_not_special[OF a]
  have strip: "stripHexPrefix (map hexDigit ds) = map hexDigit ds"
  proof (cases rest)
    case Nil
    with ds show ?thesis by (simp add: stripHexPrefix_def ascii_values)
  next
    case (Cons b rest')
    with ds assms(2) have "b < 16" by simp
    from hexDigit_not_special(4,5)[OF this] ds Cons show ?thesis
      by (simp add: stripHexPrefix_def ascii_values)
  qed
  have "hexDigitsPrefix (map hexDigit ds) = ds" using assms(2) by (rule hexDigitsPrefix_map)
  with strip assms(1) na ds show ?thesis
    by (simp add: parseInt16_def Let_def ascii_values)
qed

subsection \<open>The colour written and read back\<close>

lemma channel_byte: "nat (Math_round (clamp u 0 255)) \<le> 255"
proof -
  have "clamp u 0 255 + 1 / 2 < 256" by (simp add: clamp_def)
  then have "\<lfloor>clamp u 0 255 + 1 / 2\<rfloor> < 256" by (subst floor_less_iff) simp
  then have "\<lfloor>clamp u 0 255 + 1 / 2\<rfloor> \<le> 255" by linarith
  then have "nat \<lfloor>clamp u 0 255 + 1 / 2\<rfloor> \<le> nat 255" by (rule nat_mono)
  then show ?thesis by (simp add: Math_round_def)
qed

lemma getHex_bound: "getHex c < 16 ^ 6"
proof -
  have "getHex c \<le> 255 * 65536 + 255 * 256 + 255"
    unfolding getHex_def
    using channel_byte[of "LinearToSRGB (c_r c) * 255"] channel_byte[of "LinearToSRGB (c_g c) * 255"]
      channel_byte[of "LinearToSRGB (c_b c) * 255"]
    by linarith
  then show ?thesis by simp
qed

lemma hexDigit_0: "hexDigit 0 = 48"
  by (simp add: hexDigit_def)

lemma six_zeros: "ascii ''000000'' = map hexDigit (replicate 6 0)"
  by (simp add: ascii_values hexDigit_0 numeral_eq_Suc)

lemma getHexString_digits:
  "getHexString c =
     map hexDigit (replicate (6 - length (digits16 (getHex c))) 0 @ digits16 (getHex c))"
proof -
  let ?ds = "digits16 (getHex c)"
  have "getHex c < 16 ^ Suc 5" using getHex_bound[of c] by simp
  then have len: "length ?ds \<le> 6" using digits16_length[of "getHex c" 5] by simp
  have "getHexString c = drop (length ?ds) (map hexDigit (replicate 6 0) @ map hexDigit ?ds)"
    unfolding getHexString_def Let_def toString16_digits six_zeros by simp
  also have "\<dots> = map hexDigit (replicate (6 - length ?ds) 0) @ map hexDigit ?ds"
    using len by (simp add: drop_map del: replicate.simps)
  finally show ?thesis by simp
qed

lemma zeros_value: "foldl (\<lambda>a d. 16 * a + d) (0::nat) (replicate m 0) = 0"
  by (induction m) simp_all

lemma parse_getHexString: "parseInt16 (getHexString c) = Num (real (getHex c))"
proof -
  let ?ds = "replicate (6 - length (digits16 (getHex c))) 0 @ digits16 (getHex c)"
  have ne: "?ds \<noteq> []" using digits16_nonempty by simp
  have rng: "\<forall>d \<in> set ?ds. d < 16" using digits16_range[of "getHex c"] by auto
  have "foldl (\<lambda>a d. 16 * a + d) 0 ?ds = getHex c"
    by (simp only: foldl_append zeros_value digits16_value)
  with parseInt16_digits[OF ne rng]
  show ?thesis by (simp only: getHexString_digits)
qed

subsection \<open>The coordinates written and read back\<close>

lemma round_error:
  fixes u :: real
  shows "\<bar>of_int \<lfloor>u * 100 + 1 / 2\<rfloor> / 100 - u\<bar> \<le> 1 / 200"
proof -
  define F :: real where "F = of_int \<lfloor>u * 100 + 1 / 2\<rfloor>"
  have a: "F \<le> u * 100 + 1 / 2" unfolding F_def by (rule of_int_floor_le)
  have b: "u * 100 + 1 / 2 < F + 1" unfolding F_def by linarith
  have "F / 100 - u \<le> 1 / 200" using a by linarith
  moreover have "- (F / 100 - u) \<le> 1 / 200" using b by linarith
  ultimately have "\<bar>F / 100 - u\<bar> \<le> 1 / 200" by (simp only: abs_le_iff)
  then show ?thesis unfolding F_def .
qed

lemma fixed2_error: "\<bar>fixed2 u - u\<bar> \<le> 1 / 200"
proof -
  define X :: real where "X = of_int \<lfloor>(- u) * 100 + 1 / 2\<rfloor> / 100"
  have "\<bar>X - (- u)\<bar> \<le> 1 / 200" unfolding X_def by (rule round_error)
  moreover have "- X - u = - (X - (- u))" by simp
  ultimately have neg: "\<bar>- X - u\<bar> \<le> 1 / 200" by (simp only: abs_minus_cancel)
  have pos: "\<bar>of_int \<lfloor>u * 100 + 1 / 2\<rfloor> / 100 - u\<bar> \<le> 1 / 200" by (rule round_error)
  show ?thesis
    using pos neg unfolding fixed2_def X_def by (simp only: split: if_splits) simp
qed

subsection \<open>Import of what export wrote\<close>

lemma orZero_Num: "orZero (Num u) = Num u"
  by (simp add: orZero_def)

lemma coordinate_back: "orZero (Number L (viaJson (JNumber (toFixed2 n)))) = Num (readBack n)"
  by (cases n) (simp_all add: toFixed2_def readBack_def orZero_Num)

lemma coordinate_written: "viaJson (JNumber (toFixed2 n)) \<noteq> JUndefined"
  by (cases n) (simp_all add: toFixed2_def)

lemma importPoint_export:
  "importPoint L (viaJson (exportVoxel (v, i))) =
     Inr \<lparr>iv_x = Num (readBack (st_x v)), iv_y = Num (readBack (st_y v)),
          iv_z = Num (readBack (st_z v)), iv_color = Num (real (getHex (st_color v)))\<rparr>"
  by (simp add: importPoint_def exportVoxel_def coordinate_back parse_getHexString Let_def
      ascii_values)

lemma importPoints_map:
  "\<forall>x \<in> set xs. importPoint L (f x) = Inr (g x) \<Longrightarrow> importPoints L (map f xs) = Inr (map g xs)"
  by (induction xs) simp_all

lemma handleJsonImport_export:
  "handleJsonImport L (viaJson (getJsonData vs)) =
     Inr (map (\<lambda>v. \<lparr>iv_x = Num (readBack (st_x v)), iv_y = Num (readBack (st_y v)),
                    iv_z = Num (readBack (st_z v)), iv_color = Num (real (getHex (st_color v)))\<rparr>) vs)"
proof -
  let ?g = "\<lambda>v. \<lparr>iv_x = Num (readBack (st_x v)), iv_y = Num (readBack (st_y v)),
                    iv_z = Num (readBack (st_z v)), iv_color = Num (real (getHex (st_color v)))\<rparr>"
  have "\<forall>p \<in> set (zip vs [0..<length vs]).
      importPoint L ((viaJson \<circ> exportVoxel) p) = Inr ((?g \<circ> fst) p)"
    by (auto simp add: importPoint_export)
  then have "importPoints L (map (viaJson \<circ> exportVoxel) (zip vs [0..<length vs]))
      = Inr (map (?g \<circ> fst) (zip vs [0..<length vs]))"
    by (rule importPoints_map)
  moreover have "map (?g \<circ> fst) (zip vs [0..<length vs]) = map ?g vs"
    by (simp only: map_map[symmetric] map_fst_zip length_upt diff_zero)
  ultimately show ?thesis by (simp add: handleJsonImport_def getJsonData_def)
qed

lemma toVoxelData_export:
  "toVoxelData \<lparr>iv_x = Num px, iv_y = Num py, iv_z = Num pz, iv_color = Num (real n)\<rparr>
     = Some \<lparr>vd_x = px, vd_y = py, vd_z = pz, vd_color = n\<rparr>"
  by (simp add: toVoxelData_def)

lemma createVoxels_nth:
  "i < length data \<Longrightarrow> createVoxels rnd data ! i = createVoxel rnd (data ! i, i)"
  by (simp add: createVoxels_def)

lemma readBack_close:
  "(case n of Num u \<Rightarrow> \<bar>readBack n - u\<bar> \<le> 1 / 100 | _ \<Rightarrow> readBack n = 0)"
proof (cases n)
  case (Num u)
  have "\<bar>fixed2 u - u\<bar> \<le> 1 / 100" using fixed2_error[of u] by linarith
  with Num show ?thesis by (simp add: readBack_def)
qed (simp_all add: readBack_def)

subsection \<open>The round trip\<close>

text \<open>
  Claim C8 (as amended). Importing the exported JSON gives, for every voxel, a point whose
  coordinates are finite: a finite coordinate of the voxel comes back within 0.01, and a
  coordinate that is NaN or infinite comes back as 0, since \<open>JSON.stringify\<close> wrote it
  as \<open>null\<close>. The colour of the point is exactly the 24-bit value that the export
  wrote as \<open>#RRGGBB\<close>. For at least one voxel \<open>loadInitialModel\<close> then copies the
  coordinates, stores that colour with the lightness offset
  \<open>Math.random() * 0.1 - 0.05\<close> applied, and sets the state Stable; for no voxel at all
  it throws and loads nothing.
\<close>

theorem export_import_roundtrip:
  "\<exists>pts data. handleJsonImport L (viaJson (getJsonData vs)) = Inr pts
     \<and> map toVoxelData pts = map Some data
     \<and> length data = length vs
     \<and> (\<forall>i < length vs.
           (case st_x (vs ! i) of Num u \<Rightarrow> \<bar>vd_x (data ! i) - u\<bar> \<le> 1 / 100 | _ \<Rightarrow> vd_x (data ! i) = 0)
         \<and> (case st_y (vs ! i) of Num u \<Rightarrow> \<bar>vd_y (data ! i) - u\<bar> \<le> 1 / 100 | _ \<Rightarrow> vd_y (data ! i) = 0)
         \<and> (case st_z (vs ! i) of Num u \<Rightarrow> \<bar>vd_z (data ! i) - u\<bar> \<le> 1 / 100 | _ \<Rightarrow> vd_z (data ! i) = 0)
         \<and> vd_color (data ! i) = getHex (st_color (vs ! i))
         \<and> (\<exists>e'. loadInitialModel rnd data e = Inr e'
               \<and> state e' = STABLE
               \<and> length (voxels e') = length vs
               \<and> sv_x (voxels e' ! i) = vd_x (data ! i)
               \<and> sv_y (voxels e' ! i) = vd_y (data ! i)
               \<and> sv_z (voxels e' ! i) = vd_z (data ! i)
               \<and> sv_color (voxels e' ! i)
                   = offsetHSL (hexColor (getHex (st_color (vs ! i)))) 0 0 (rnd i * 0.1 - 0.05)))
     \<and> (vs = [] \<longrightarrow> loadInitialModel rnd data e = Inl TypeError)"
proof -
  let ?g = "\<lambda>v. \<lparr>iv_x = Num (readBack (st_x v)), iv_y = Num (readBack (st_y v)),
                    iv_z = Num (readBack (st_z v)), iv_color = Num (real (getHex (st_color v)))\<rparr>"
  let ?d = "\<lambda>v. \<lparr>vd_x = readBack (st_x v), vd_y = readBack (st_y v),
                    vd_z = readBack (st_z v), vd_color = getHex (st_color v)\<rparr>"
  have imp: "handleJsonImport L (viaJson (getJsonData vs)) = Inr (map ?g vs)"
    by (rule handleJsonImport_export)
  have conv: "map toVoxelData (map ?g vs) = map Some (map ?d vs)"
    by (simp add: toVoxelData_export)
  have len: "length (map ?d vs) = length vs" by simp
  have each: "\<forall>i < length vs.
           (case st_x (vs ! i) of Num u \<Rightarrow> \<bar>vd_x (map ?d vs ! i) - u\<bar> \<le> 1 / 100
            | _ \<Rightarrow> vd_x (map ?d vs ! i) = 0)
         \<and> (case st_y (vs ! i) of Num u \<Rightarrow> \<bar>vd_y (map ?d vs ! i) - u\<bar> \<le> 1 / 100
            | _ \<Rightarrow> vd_y (map ?d vs ! i) = 0)
         \<and> (case st_z (vs ! i) of Num u \<Rightarrow> \<bar>vd_z (map ?d vs ! i) - u\<bar> \<le> 1 / 100
            | _ \<Rightarrow> vd_z (map ?d vs ! i) = 0)
         \<and> vd_color (map ?d vs ! i) = getHex (st_color (vs ! i))
         \<and> (\<exists>e'. loadInitialModel rnd (map ?d vs) e = Inr e'
               \<and> state e' = STABLE
               \<and> length (voxels e') = length vs
               \<and> sv_x (voxels e' ! i) = vd_x (map ?d vs ! i)
               \<and> sv_y (voxels e' ! i) = vd_y (map ?d vs ! i)
               \<and> sv_z (voxels e' ! i) = vd_z (map ?d vs ! i)
               \<and> sv_color (voxels e' ! i)
                   = offsetHSL (hexColor (getHex (st_color (vs ! i)))) 0 0 (rnd i * 0.1 - 0.05))"
  proof (intro allI impI)
    fix i assume i: "i < length vs"
    then have ne: "map ?d vs \<noteq> []" by auto
    define e1 where "e1 = e\<lparr>voxels := createVoxels rnd (map ?d vs), state := STABLE\<rparr>"
    have load: "loadInitialModel rnd (map ?d vs) e = Inr e1"
      using ne unfolding e1_def by (simp add: loadInitialModel_def)
    have cv: "voxels e1 ! i = createVoxel rnd (?d (vs ! i), i)"
      using i unfolding e1_def by (simp add: createVoxels_nth)
    have st: "state e1 = STABLE" "length (voxels e1) = length vs"
      unfolding e1_def by (simp_all add: createVoxels_def)
    have dx: "vd_x (map ?d vs ! i) = readBack (st_x (vs ! i))" using i by simp
    have dy: "vd_y (map ?d vs ! i) = readBack (st_y (vs ! i))" using i by simp
    have dz: "vd_z (map ?d vs ! i) = readBack (st_z (vs ! i))" using i by simp
    have x: "(case st_x (vs ! i) of Num u \<Rightarrow> \<bar>vd_x (map ?d vs ! i) - u\<bar> \<le> 1 / 100
            | _ \<Rightarrow> vd_x (map ?d vs ! i) = 0)"
      unfolding dx by (rule readBack_close)
    have y: "(case st_y (vs ! i) of Num u \<Rightarrow> \<bar>vd_y (map ?d vs ! i) - u\<bar> \<le> 1 / 100
            | _ \<Rightarrow> vd_y (map ?d vs ! i) = 0)"
      unfolding dy by (rule readBack_close)
    have z: "(case st_z (vs ! i) of Num u \<Rightarrow> \<bar>vd_z (map ?d vs ! i) - u\<bar> \<le> 1 / 100
            | _ \<Rightarrow> vd_z (map ?d vs ! i) = 0)"
      unfolding dz by (rule readBack_close)
    have c: "vd_color (map ?d vs ! i) = getHex (st_color (vs ! i))" using i by simp
    have l: "\<exists>e'. loadInitialModel rnd (map ?d vs) e = Inr e'
               \<and> state e' = STABLE
               \<and> length (voxels e') = length vs
               \<and> sv_x (voxels e' ! i) = vd_x (map ?d vs ! i)
               \<and> sv_y (voxels e' ! i) = vd_y (map ?d vs ! i)
               \<and> sv_z (voxels e' ! i) = vd_z (map ?d vs ! i)
               \<and> sv_color (voxels e' ! i)
                   = offsetHSL (hexColor (getHex (st_color (vs ! i)))) 0 0 (rnd i * 0.1 - 0.05)"
      using load st cv i by (intro exI[of _ e1]) (simp add: createVoxel_def)
    from x y z c l
    show "(case st_x (vs ! i) of Num u \<Rightarrow> \<bar>vd_x (map ?d vs ! i) - u\<bar> \<le> 1 / 100
            | _ \<Rightarrow> vd_x (map ?d vs ! i) = 0)
         \<and> (case st_y (vs ! i) of Num u \<Rightarrow> \<bar>vd_y (map ?d vs ! i) - u\<bar> \<le> 1 / 100
            | _ \<Rightarrow> vd_y (map ?d vs ! i) = 0)
         \<and> (case st_z (vs ! i) of Num u \<Rightarrow> \<bar>vd_z (map ?d vs ! i) - u\<bar> \<le> 1 / 100
            | _ \<Rightarrow> vd_z (map ?d vs ! i) = 0)
         \<and> vd_color (map ?d vs ! i) = getHex (st_color (vs ! i))
         \<and> (\<exists>e'. loadInitialModel rnd (map ?d vs) e = Inr e'
               \<and> state e' = STABLE
               \<and> length (voxels e') = length vs
               \<and> sv_x (voxels e' ! i) = vd_x (map ?d vs ! i)
               \<and> sv_y (voxels e' ! i) = vd_y (map ?d vs ! i)
               \<and> sv_z (voxels e' ! i) = vd_z (map ?d vs ! i)
               \<and> sv_color (voxels e' ! i)
                   = offsetHSL (hexColor (getHex (st_color (vs ! i)))) 0 0 (rnd i * 0.1 - 0.05))"
      by (intro conjI)
  qed
  have empty: "vs = [] \<longrightarrow> loadInitialModel rnd (map ?d vs) e = Inl TypeError"
    by (simp add: loadInitialModel_def)
  from imp conv len each empty show ?thesis by blast
qed

text \<open>
  The round trip of one voxel at \<open>(1.234, -11.5, Infinity)\<close>: the point read back is
  at \<open>(1.23, -11.5, 0)\<close>.
\<close>

theorem export_import_roundtrip_witness:
  "(0::nat) < length [storedAt (Num (1234 / 1000)) (Num (- 115 / 10)) PosInfinity (hexColor 0x4A3728)]
   \<and> (\<exists>pts data.
         handleJsonImport plainLib
             (viaJson (getJsonData [storedAt (Num (1234 / 1000)) (Num (- 115 / 10)) PosInfinity
                                       (hexColor 0x4A3728)])) = Inr pts
       \<and> map toVoxelData pts = map Some data
       \<and> \<bar>vd_x (data ! 0) - 1234 / 1000\<bar> \<le> 1 / 100
       \<and> \<bar>vd_y (data ! 0) - (- 115 / 10)\<bar> \<le> 1 / 100
       \<and> vd_z (data ! 0) = 0
       \<and> vd_color (data ! 0) = getHex (hexColor 0x4A3728)
       \<and> (\<exists>e'. loadInitialModel zeroDraws data (engineOf [] STABLE) = Inr e' \<and> state e' = STABLE))"
  using export_import_roundtrip [of plainLib
      "[storedAt (Num (1234 / 1000)) (Num (- 115 / 10)) PosInfinity (hexColor 0x4A3728)]"
      zeroDraws "engineOf [] STABLE"]
  by (auto simp add: storedAt_def)


lemma hexColor_black: "hexColor 0 = \<lparr>c_r = 0, c_g = 0, c_b = 0\<rparr>"
  by (simp add: hexColor_def SRGBToLinear_def)

lemma getHex_black: "getHex \<lparr>c_r = 0, c_g = 0, c_b = 0\<rparr> = 0"
  by (simp add: getHex_def LinearToSRGB_def clamp_def Math_round_def)

lemma jitter_black:
  "offsetHSL \<lparr>c_r = 0, c_g = 0, c_b = 0\<rparr> 0 0 (9 / 10 * 0.1 - 0.05)
     = \<lparr>c_r = 1 / 25, c_g = 1 / 25, c_b = 1 / 25\<rparr>"
  by (simp add: offsetHSL_def getHSL_def setHSL_def clamp_def Let_def)

lemma LinearToSRGB_dark: "39 / 255 \<le> LinearToSRGB (1 / 25)"
proof -
  have "(1 / 25 :: real) powr (1 / 2) \<le> (1 / 25) powr 0.41666"
    by (rule powr_mono') simp_all
  moreover have "(1 / 25 :: real) powr (1 / 2) = 1 / 5"
    by (simp add: powr_half_sqrt real_sqrt_divide)
  ultimately have "1 / 5 \<le> (1 / 25 :: real) powr 0.41666" by simp
  then show ?thesis by (simp add: LinearToSRGB_def)
qed

lemma getHex_dark: "getHex \<lparr>c_r = 1 / 25, c_g = 1 / 25, c_b = 1 / 25\<rparr> \<noteq> 0"
proof -
  define u where "u = clamp (LinearToSRGB (1 / 25) * 255) 0 255"
  have "39 \<le> u" using LinearToSRGB_dark unfolding u_def clamp_def by simp
  then have "39 \<le> u + 1 / 2" by simp
  then have "39 \<le> \<lfloor>u + 1 / 2\<rfloor>" by (simp add: le_floor_iff)
  then have "0 < nat (Math_round u)" by (simp add: Math_round_def)
  then show ?thesis unfolding getHex_def u_def by simp
qed

text \<open>
  A black voxel whose third coordinate is Infinity. The export writes \<open>#000000\<close> and
  \<open>null\<close> for the coordinate; the import reads the coordinate 0 and the colour 0, and
  with the random draw 0.9 \<open>loadInitialModel\<close> stores the colour lightened by 0.04,
  which is not black and does not export as \<open>#000000\<close> either.
\<close>

theorem export_import_counterexample:
  "getHex (st_color (storedAt (Num 0) (Num 0) PosInfinity (hexColor 0))) = 0
   \<and> handleJsonImport plainLib
        (viaJson (getJsonData [storedAt (Num 0) (Num 0) PosInfinity (hexColor 0)]))
       = Inr [\<lparr>iv_x = Num 0, iv_y = Num 0, iv_z = Num 0, iv_color = Num 0\<rparr>]
   \<and> toVoxelData \<lparr>iv_x = Num 0, iv_y = Num 0, iv_z = Num 0, iv_color = Num 0\<rparr>
       = Some (pointAt 0 0 0 0)
   \<and> loadInitialModel highDraws [pointAt 0 0 0 0] (engineOf [] STABLE)
       = Inr (engineOf [voxelAt 0 0 0 0 \<lparr>c_r = 1 / 25, c_g = 1 / 25, c_b = 1 / 25\<rparr>] STABLE)
   \<and> \<lparr>c_r = 1 / 25, c_g = 1 / 25, c_b = 1 / 25\<rparr> \<noteq> hexColor 0
   \<and> getHex \<lparr>c_r = 1 / 25, c_g = 1 / 25, c_b = 1 / 25\<rparr> \<noteq> 0"
proof -
  have tf: "fixed2 0 = 0" by (simp add: fixed2_def)
  have a: "getHex (st_color (storedAt (Num 0) (Num 0) PosInfinity (hexColor 0))) = 0"
    by (simp add: storedAt_def hexColor_black getHex_black)
  have b: "handleJsonImport plainLib
        (viaJson (getJsonData [storedAt (Num 0) (Num 0) PosInfinity (hexColor 0)]))
       = Inr [\<lparr>iv_x = Num 0, iv_y = Num 0, iv_z = Num 0, iv_color = Num 0\<rparr>]"
    by (simp add: handleJsonImport_export storedAt_def hexColor_black getHex_black readBack_def tf)
  have c: "toVoxelData \<lparr>iv_x = Num 0, iv_y = Num 0, iv_z = Num 0, iv_color = Num 0\<rparr>
       = Some (pointAt 0 0 0 0)"
    using toVoxelData_export[of 0 0 0 0] by (simp add: pointAt_def)
  have d: "loadInitialModel highDraws [pointAt 0 0 0 0] (engineOf [] STABLE)
       = Inr (engineOf [voxelAt 0 0 0 0 \<lparr>c_r = 1 / 25, c_g = 1 / 25, c_b = 1 / 25\<rparr>] STABLE)"
    using jitter_black
    by (simp add: loadInitialModel_def createVoxels_def createVoxel_def pointAt_def highDraws_def
        hexColor_black engineOf_def voxelAt_def)
  have e: "\<lparr>c_r = 1 / 25, c_g = 1 / 25, c_b = 1 / 25\<rparr> \<noteq> hexColor 0"
    by (simp add: hexColor_black)
  from a b c d e getHex_dark show ?thesis by (intro conjI)
qed
subsection \<open>Colours that the import replaces or keeps\<close>

text \<open>
  Claim C9. The import takes a colour given as a hexadecimal string or as a number; it
  tests the value for truthiness first and the result for NaN only. So the decimal
  integer 0 (black) counts as missing and becomes the default \<open>0xCCCCCC\<close>, and a number
  that \<open>JSON.parse\<close> read as Infinity is kept as the colour.
\<close>

theorem import_color_zero_and_infinity:
  "handleJsonImport L (JArray [JObject [(''x'', JNumber (Num 1)), (''y'', JNumber (Num 2)),
                                        (''z'', JNumber (Num 3)), (''c'', JNumber (Num 0))]])
     = Inr [\<lparr>iv_x = Num 1, iv_y = Num 2, iv_z = Num 3, iv_color = Num 0xCCCCCC\<rparr>]
   \<and> handleJsonImport L (JArray [JObject [(''x'', JNumber (Num 1)), (''y'', JNumber (Num 2)),
                                        (''z'', JNumber (Num 3)), (''c'', JNumber (Num 255))]])
     = Inr [\<lparr>iv_x = Num 1, iv_y = Num 2, iv_z = Num 3, iv_color = Num 255\<rparr>]
   \<and> handleJsonImport L (JArray [JObject [(''x'', JNumber (Num 1)), (''y'', JNumber (Num 2)),
                                        (''z'', JNumber (Num 3)), (''c'', JNumber PosInfinity)]])
     = Inr [\<lparr>iv_x = Num 1, iv_y = Num 2, iv_z = Num 3, iv_color = PosInfinity\<rparr>]"
  by (simp add: handleJsonImport_def importPoint_def orZero_def Let_def)

end
